(* ===== verification/Prelude.thy ===== *)
theory Prelude
  imports Main "HOL-Library.Word" "HOL-Library.List_Lexorder" "HOL-Library.Char_ord"
    "HOL-Library.Multiset" "HOL-Library.AList" "HOL-Library.Code_Target_Nat"
begin

text \<open>
  The prelude of the development: the error values of the Go program, the lookup conventions
  of Go maps, and the generic list lemmas the component theories share.
\<close>

section \<open>Collections of facts\<close>

named_theorems go_string_simps \<open>rewriting of the Go string functions\<close>
named_theorems go_net_simps \<open>rewriting of the Go address functions\<close>
named_theorems mesh_defs \<open>definitions of the operator that proofs unfold on demand\<close>

section \<open>Types shared by every component\<close>

type_synonym byte = "8 word"

text \<open>
  A Go string is a sequence of bytes, and so is \<open>string\<close>: the \<open>char\<close> of HOL is a byte.
\<close>

text \<open>
  Errors are trees, as the Go error chain is. \<open>Newf\<close> is \<^verbatim>\<open>errors.Newf\<close> with its format and its
  string arguments, \<open>Wrapf\<close> is \<^verbatim>\<open>errors.Wrapf\<close> around a cause, \<open>JoinErr\<close> is \<^verbatim>\<open>errors.Join\<close>,
  \<open>StdErr\<close> is an error of the standard library (the function that failed and the text it was
  given), \<open>APIError\<close> is a status error of a Kubernetes API call with its reason.
\<close>

datatype api_reason =
    NotFound
  | AlreadyExists
  | Conflict
  | NoKindMatch
  | OtherReason string

datatype error =
    Newf string "string list"
  | Wrapf error string "string list"
  | JoinErr "error list"
  | StdErr string string
  | APIError api_reason

text \<open>
  \<^verbatim>\<open>errors.Wrap\<close> and \<^verbatim>\<open>errors.Wrapf\<close> of a nil error are nil; \<^verbatim>\<open>errors.Join\<close> of no error is nil.
  A Go \<^verbatim>\<open>error\<close> that may be nil is an \<open>error option\<close>.
\<close>

fun wrapf :: "error option \<Rightarrow> string \<Rightarrow> string list \<Rightarrow> error option" where
  "wrapf None _ _ = None"
| "wrapf (Some e) f xs = Some (Wrapf e f xs)"

fun join_errors :: "error list \<Rightarrow> error option" where
  "join_errors [] = None"
| "join_errors (e # es) = Some (JoinErr (e # es))"

fun is_not_found :: "error \<Rightarrow> bool" where
  "is_not_found (APIError NotFound) = True"
| "is_not_found (Wrapf e _ _) = is_not_found e"
| "is_not_found _ = False"

lemma wrapf_None_iff [simp]: "wrapf e f xs = None \<longleftrightarrow> e = None"
  by (cases e) auto

lemma join_errors_None_iff [simp]: "join_errors es = None \<longleftrightarrow> es = []"
  by (cases es) auto

text \<open>The shape \<^verbatim>\<open>if err != nil { return err }\<close> of a Go function that returns an error.\<close>

lemma first_error_None [simp]:
  "(case x of None \<Rightarrow> y | Some e \<Rightarrow> Some e) = None \<longleftrightarrow> x = None \<and> y = None"
  by (cases x) auto

lemma bind_Inr_iff [simp]:
  "(case x of Inl e \<Rightarrow> Inl e | Inr v \<Rightarrow> f v) = Inr y \<longleftrightarrow> (\<exists>v. x = Inr v \<and> f v = Inr y)"
  by (cases x) auto

section \<open>Go maps\<close>

text \<open>
  A Go map with string keys is an association list with distinct keys; indexing a missing key
  gives the zero value, which for strings is the empty string.
\<close>

type_synonym str_map = "(string \<times> string) list"

definition map_get :: "str_map \<Rightarrow> string \<Rightarrow> string" where
  "map_get m k = (case map_of m k of None \<Rightarrow> '''' | Some v \<Rightarrow> v)"

lemma map_get_nonempty_iff: "map_get m k \<noteq> '''' \<longleftrightarrow> (\<exists>v. map_of m k = Some v \<and> v \<noteq> '''')"
  by (auto simp: map_get_def split: option.splits)

lemma map_get_Some [simp]: "map_of m k = Some v \<Longrightarrow> map_get m k = v"
  by (simp add: map_get_def)

section \<open>Lists\<close>

lemma takeWhile_all [simp]: "\<forall>x \<in> set xs. P x \<Longrightarrow> takeWhile P xs = xs"
  by (simp add: takeWhile_eq_all_conv)

lemma dropWhile_all: "\<forall>x \<in> set xs. P x \<Longrightarrow> dropWhile P xs = []"
  by (simp add: dropWhile_eq_Nil_conv)

lemma foldl_mono_start:
  assumes mono: "\<And>v c. c \<in> set cs \<Longrightarrow> (v::nat) \<le> f v c"
  shows "v \<le> foldl f v cs"
  using mono
proof (induction cs arbitrary: v)
  case Nil
  then show ?case by simp
next
  case (Cons c cs)
  have "v \<le> f v c" by (rule Cons.prems) simp
  also have "f v c \<le> foldl f (f v c) cs" by (rule Cons.IH) (simp add: Cons.prems)
  finally show ?case by simp
qed

end
