(* ===== verification/GoStrings.thy ===== *)
theory GoStrings
  imports Prelude
begin

text \<open>
  What the operator uses of the Go packages \<^verbatim>\<open>strings\<close> and \<^verbatim>\<open>strconv\<close>: searching for a byte,
  trimming, decimal printing, and \<^verbatim>\<open>strconv.ParseUint\<close> in base 10, with the round trip between
  the last two.
\<close>

section \<open>Searching and trimming\<close>

fun IndexByte :: "string \<Rightarrow> char \<Rightarrow> nat option" where
  "IndexByte [] c = None"
| "IndexByte (x # xs) c = (if x = c then Some 0 else map_option Suc (IndexByte xs c))"

fun LastIndexByte :: "string \<Rightarrow> char \<Rightarrow> nat option" where
  "LastIndexByte [] c = None"
| "LastIndexByte (x # xs) c =
     (case LastIndexByte xs c of
        Some i \<Rightarrow> Some (Suc i)
      | None \<Rightarrow> if x = c then Some 0 else None)"

definition TrimLeft :: "string \<Rightarrow> string \<Rightarrow> string" where
  "TrimLeft s cutset = dropWhile (\<lambda>c. c \<in> set cutset) s"

definition TrimRight :: "string \<Rightarrow> string \<Rightarrow> string" where
  "TrimRight s cutset = rev (dropWhile (\<lambda>c. c \<in> set cutset) (rev s))"

definition Trim :: "string \<Rightarrow> string \<Rightarrow> string" where
  "Trim s cutset = TrimRight (TrimLeft s cutset) cutset"

lemma IndexByte_None_iff [go_string_simps]: "IndexByte s c = None \<longleftrightarrow> c \<notin> set s"
  by (induction s) auto

lemma IndexByte_first [go_string_simps]:
  "c \<notin> set xs \<Longrightarrow> IndexByte (xs @ c # ys) c = Some (length xs)"
  by (induction xs) auto

lemma IndexByte_SomeD:
  "IndexByte s c = Some i \<Longrightarrow> i < length s \<and> s ! i = c \<and> c \<notin> set (take i s)"
  by (induction s arbitrary: i) (auto split: if_splits)

lemma LastIndexByte_None_iff [go_string_simps]: "LastIndexByte s c = None \<longleftrightarrow> c \<notin> set s"
  by (induction s) (auto split: option.splits)

lemma LastIndexByte_last [go_string_simps]:
  "c \<notin> set ys \<Longrightarrow> LastIndexByte (xs @ c # ys) c = Some (length xs)"
proof (induction xs)
  case Nil
  then have "LastIndexByte ys c = None" by (simp add: LastIndexByte_None_iff)
  then show ?case by simp
qed simp

lemma LastIndexByte_SomeD:
  assumes "LastIndexByte s c = Some i"
  shows "i < length s \<and> s = take i s @ c # drop (Suc i) s \<and> c \<notin> set (drop (Suc i) s)"
  using assms
  by (induction s arbitrary: i)
    (auto split: option.splits if_splits simp: LastIndexByte_None_iff)

lemma set_TrimLeft_subset: "set (TrimLeft s cs) \<subseteq> set s"
  by (auto simp: TrimLeft_def dest: set_dropWhileD)

lemma set_TrimRight_subset: "set (TrimRight s cs) \<subseteq> set s"
  by (auto simp: TrimRight_def dest: set_dropWhileD)

lemma length_TrimLeft_le: "length (TrimLeft s cs) \<le> length s"
  by (simp add: TrimLeft_def length_dropWhile_le)

lemma length_TrimRight_le: "length (TrimRight s cs) \<le> length s"
  by (metis TrimRight_def length_dropWhile_le length_rev)

lemma TrimLeft_id: "s = [] \<or> hd s \<notin> set cs \<Longrightarrow> TrimLeft s cs = s"
  by (cases s) (auto simp: TrimLeft_def)

lemma TrimRight_id: "s = [] \<or> last s \<notin> set cs \<Longrightarrow> TrimRight s cs = s"
  by (cases s rule: rev_cases) (auto simp: TrimRight_def)

lemma hd_TrimLeft: "TrimLeft s cs \<noteq> [] \<Longrightarrow> hd (TrimLeft s cs) \<notin> set cs"
  by (metis (no_types, lifting) TrimLeft_def hd_dropWhile)

lemma last_TrimRight: "TrimRight s cs \<noteq> [] \<Longrightarrow> last (TrimRight s cs) \<notin> set cs"
  using hd_TrimLeft [of "rev s" cs] by (simp add: TrimRight_def TrimLeft_def last_rev)

lemma TrimRight_prefix: "\<exists>zs. s = TrimRight s cs @ zs \<and> set zs \<subseteq> set cs"
proof -
  let ?P = "\<lambda>c. c \<in> set cs"
  have "TrimRight s cs @ rev (takeWhile ?P (rev s)) = rev (takeWhile ?P (rev s) @ dropWhile ?P (rev s))"
    by (simp only: TrimRight_def rev_append)
  then have "s = TrimRight s cs @ rev (takeWhile ?P (rev s))"
    by (simp only: takeWhile_dropWhile_id rev_rev_ident)
  moreover have "set (rev (takeWhile ?P (rev s))) \<subseteq> set cs"
    by (auto dest: set_takeWhileD)
  ultimately show ?thesis by blast
qed

lemma hd_TrimRight: "TrimRight s cs \<noteq> [] \<Longrightarrow> hd (TrimRight s cs) = hd s"
  by (metis TrimRight_prefix hd_append2)

lemma Trim_id:
  "s = [] \<or> (hd s \<notin> set cs \<and> last s \<notin> set cs) \<Longrightarrow> Trim s cs = s"
  by (auto simp: Trim_def TrimLeft_id TrimRight_id)

section \<open>Decimal numbers\<close>

definition is_digit :: "char \<Rightarrow> bool" where
  "is_digit c \<longleftrightarrow> CHR ''0'' \<le> c \<and> c \<le> CHR ''9''"

definition digit_val :: "char \<Rightarrow> nat" where
  "digit_val c = of_char c - of_char (CHR ''0'')"

definition digit_char :: "nat \<Rightarrow> char" where
  "digit_char d = ''0123456789'' ! d"

text \<open>\<^verbatim>\<open>strconv.Itoa\<close> and \<^verbatim>\<open>strconv.FormatUint\<close> of a non-negative number.\<close>

fun dec_string :: "nat \<Rightarrow> string" where
  "dec_string n = (if n < 10 then [digit_char n]
     else dec_string (n div 10) @ [digit_char (n mod 10)])"

declare dec_string.simps [simp del]

text \<open>\<^verbatim>\<open>strconv.Itoa\<close> of any int.\<close>

definition Itoa :: "int \<Rightarrow> string" where
  "Itoa i = (if i < 0 then CHR ''-'' # dec_string (nat (- i)) else dec_string (nat i))"

text \<open>
  \<^verbatim>\<open>strconv.ParseUint(s, 10, bitSize)\<close>: a syntax error on the empty string and on a byte that is
  no digit, a range error as soon as the value passes the largest number of the bit size.
\<close>

fun parse_uint_loop :: "nat \<Rightarrow> nat \<Rightarrow> string \<Rightarrow> nat option" where
  "parse_uint_loop maxv n [] = Some n"
| "parse_uint_loop maxv n (c # cs) =
     (if \<not> is_digit c then None
      else if 10 * n + digit_val c > maxv then None
      else parse_uint_loop maxv (10 * n + digit_val c) cs)"

definition ParseUint :: "string \<Rightarrow> nat \<Rightarrow> error + nat" where
  "ParseUint s bitSize =
     (if s = [] then Inl (StdErr ''strconv.ParseUint'' s)
      else case parse_uint_loop (2 ^ bitSize - 1) 0 s of
        None \<Rightarrow> Inl (StdErr ''strconv.ParseUint'' s)
      | Some n \<Rightarrow> Inr n)"

definition dec_val :: "nat \<Rightarrow> string \<Rightarrow> nat" where
  "dec_val = foldl (\<lambda>v c. 10 * v + digit_val c)"

lemma less_ten_cases: "d < (10::nat) \<Longrightarrow> d \<in> {0, 1, 2, 3, 4, 5, 6, 7, 8, 9}"
  by auto

lemma is_digit_digit_char [simp]: "d < 10 \<Longrightarrow> is_digit (digit_char d)"
  using less_ten_cases [of d] by (auto simp: is_digit_def digit_char_def)

lemma digit_val_digit_char [simp]: "d < 10 \<Longrightarrow> digit_val (digit_char d) = d"
  using less_ten_cases [of d] by (auto simp: digit_val_def digit_char_def)

lemma digit_val_less: "is_digit c \<Longrightarrow> digit_val c < 10"
  by (auto simp: is_digit_def digit_val_def less_eq_char_def)

lemma dec_string_digits: "\<forall>c \<in> set (dec_string n). is_digit c"
proof (induction n rule: dec_string.induct)
  case (1 n)
  then show ?case
    by (cases "n < 10") (auto simp: dec_string.simps [of n])
qed

lemma dec_string_nonempty [simp]: "dec_string n \<noteq> []"
  by (subst dec_string.simps) simp

lemma dec_val_append: "dec_val v (xs @ ys) = dec_val (dec_val v xs) ys"
  by (simp add: dec_val_def)

lemma dec_val_Nil [simp]: "dec_val v [] = v"
  by (simp add: dec_val_def)

lemma dec_val_Cons [simp]: "dec_val v (c # cs) = dec_val (10 * v + digit_val c) cs"
  by (simp add: dec_val_def)

lemma dec_val_ge: "v \<le> dec_val v cs"
  unfolding dec_val_def by (rule foldl_mono_start) simp

lemma dec_val_dec_string [simp]: "dec_val 0 (dec_string n) = n"
proof (induction n rule: dec_string.induct)
  case (1 n)
  then show ?case
    by (cases "n < 10") (simp_all add: dec_string.simps [of n] dec_val_append)
qed

lemma hd_dec_string: "0 < n \<Longrightarrow> digit_val (hd (dec_string n)) \<noteq> 0"
proof (induction n rule: dec_string.induct)
  case (1 n)
  show ?case
  proof (cases "n < 10")
    case True
    with 1 show ?thesis by (simp add: dec_string.simps [of n])
  next
    case False
    then have "0 < n div 10" by (simp add: div_greater_zero_iff)
    with 1 False show ?thesis by (simp add: dec_string.simps [of n])
  qed
qed

lemma dec_string_0 [simp]: "dec_string 0 = [CHR ''0'']"
  by (simp add: dec_string.simps digit_char_def)

lemma dec_string_inject [simp]: "dec_string m = dec_string n \<longleftrightarrow> m = n"
  by (metis dec_val_dec_string)

lemma parse_uint_loop_digits:
  "\<forall>c \<in> set s. is_digit c \<Longrightarrow> dec_val n s \<le> maxv \<Longrightarrow> parse_uint_loop maxv n s = Some (dec_val n s)"
proof (induction s arbitrary: n)
  case Nil
  then show ?case by simp
next
  case (Cons c cs)
  have "10 * n + digit_val c \<le> dec_val (10 * n + digit_val c) cs" by (rule dec_val_ge)
  with Cons show ?case by simp
qed

lemma parse_uint_loop_SomeD:
  "parse_uint_loop maxv n s = Some v \<Longrightarrow> n \<le> maxv \<Longrightarrow>
     v = dec_val n s \<and> v \<le> maxv \<and> (\<forall>c \<in> set s. is_digit c)"
  by (induction s arbitrary: n) (auto split: if_splits)

text \<open>\<^verbatim>\<open>ParseUint\<close> inverts decimal printing on every number that fits the bit size.\<close>

lemma ParseUint_dec_string [go_string_simps]:
  "n < 2 ^ b \<Longrightarrow> ParseUint (dec_string n) b = Inr n"
  using parse_uint_loop_digits [OF dec_string_digits, of 0 n "2 ^ b - 1"]
  by (simp add: ParseUint_def)

lemma ParseUint_InrD:
  assumes "ParseUint s b = Inr n"
  shows "s \<noteq> [] \<and> n < 2 ^ b \<and> n = dec_val 0 s \<and> (\<forall>c \<in> set s. is_digit c)"
proof -
  from assms have s: "s \<noteq> []" and p: "parse_uint_loop (2 ^ b - 1) 0 s = Some n"
    by (auto simp: ParseUint_def split: if_splits option.splits)
  have "n \<le> 2 ^ b - 1" using parse_uint_loop_SomeD [OF p] by simp
  moreover have "(0::nat) < 2 ^ b" by simp
  ultimately have "n < 2 ^ b" by linarith
  with s parse_uint_loop_SomeD [OF p] show ?thesis by simp
qed

text \<open>A number that parses in a narrow width parses to the same value in a wider one.\<close>

lemma ParseUint_widen:
  assumes "ParseUint s b = Inr n" and "b \<le> b'"
  shows "ParseUint s b' = Inr n"
proof -
  have n: "s \<noteq> []" "n < 2 ^ b" "n = dec_val 0 s" "\<forall>c \<in> set s. is_digit c"
    using ParseUint_InrD [OF assms(1)] by auto
  have "(2::nat) ^ b \<le> 2 ^ b'" using assms(2) by (simp add: power_increasing)
  with n(2) have "n \<le> 2 ^ b' - 1" by linarith
  with n show ?thesis
    by (simp add: ParseUint_def parse_uint_loop_digits)
qed

lemma is_digit_not_special:
  "is_digit c \<Longrightarrow> c \<noteq> CHR '':'' \<and> c \<noteq> CHR ''['' \<and> c \<noteq> CHR '']'' \<and> c \<noteq> CHR ''.'' \<and> c \<noteq> CHR ''/'' \<and> c \<noteq> CHR ''%''"
  by (auto simp: is_digit_def)

lemma dec_string_not_special:
  "\<not> is_digit c \<Longrightarrow> c \<notin> set (dec_string n)"
  using dec_string_digits by blast

end
