(* ===== verification/GoNet.thy ===== *)
theory GoNet
  imports GoStrings
begin

unbundle bit_operations_syntax

text \<open>
  What the operator uses of the Go packages \<^verbatim>\<open>net\<close> and \<^verbatim>\<open>net/netip\<close>: addresses as byte
  slices, masks, the parsers of addresses, CIDRs and host:port pairs, the printers, and
  \<^verbatim>\<open>IPNet.Contains\<close>. A nil slice is the empty list.
\<close>

section \<open>Addresses and masks\<close>

type_synonym IP = "byte list"
type_synonym IPMask = "byte list"

record IPNet =
  net_IP :: IP
  net_Mask :: IPMask

definition v4InV6Prefix :: "byte list" where
  "v4InV6Prefix = [0, 0, 0, 0, 0, 0, 0, 0, 0, 0, 255, 255]"

definition To4 :: "IP \<Rightarrow> IP option" where
  "To4 ip = (if length ip = 4 then Some ip
     else if length ip = 16 \<and> take 12 ip = v4InV6Prefix then Some (drop 12 ip)
     else None)"

text \<open>The address \<^verbatim>\<open>Contains\<close> works on: the 4-byte form where there is one.\<close>

definition norm_ip :: "IP \<Rightarrow> IP" where
  "norm_ip ip = (case To4 ip of Some x \<Rightarrow> x | None \<Rightarrow> ip)"

text \<open>\<^verbatim>\<open>CIDRMask(n, 8 * l)\<close>.\<close>

fun CIDRMask :: "nat \<Rightarrow> nat \<Rightarrow> IPMask" where
  "CIDRMask n 0 = []"
| "CIDRMask n (Suc l) =
     (if 8 \<le> n then 255 # CIDRMask (n - 8) l else NOT (drop_bit n 255) # CIDRMask 0 l)"

definition and_bytes :: "byte list \<Rightarrow> byte list \<Rightarrow> byte list" where
  "and_bytes xs ys = map2 (\<lambda>x y. x AND y) xs ys"

text \<open>\<^verbatim>\<open>IP.Mask\<close>.\<close>

definition ip_Mask :: "IP \<Rightarrow> IPMask \<Rightarrow> IP" where
  "ip_Mask ip0 mask0 =
     (let mask = (if length mask0 = 16 \<and> length ip0 = 4 \<and> take 12 mask0 = replicate 12 255
                  then drop 12 mask0 else mask0);
          ip = (if length mask = 4 \<and> length ip0 = 16 \<and> take 12 ip0 = v4InV6Prefix
                then drop 12 ip0 else ip0)
      in if length ip \<noteq> length mask then [] else and_bytes ip mask)"

definition networkNumberAndMask :: "IPNet \<Rightarrow> IP \<times> IPMask" where
  "networkNumberAndMask n =
     (case To4 (net_IP n) of
        Some ip \<Rightarrow>
          (if length (net_Mask n) = 4 then (ip, net_Mask n)
           else if length (net_Mask n) = 16 then (ip, drop 12 (net_Mask n))
           else ([], []))
      | None \<Rightarrow>
          (if length (net_IP n) \<noteq> 16 then ([], [])
           else if length (net_Mask n) = 16 then (net_IP n, net_Mask n)
           else ([], [])))"

text \<open>\<^verbatim>\<open>IPNet.Contains\<close>: the lengths agree and the masked bytes agree.\<close>

definition Contains :: "IPNet \<Rightarrow> IP \<Rightarrow> bool" where
  "Contains n ip0 =
     (let (nn, m) = networkNumberAndMask n; ip = norm_ip ip0
      in length ip = length nn \<and> and_bytes nn m = and_bytes ip m)"

text \<open>\<^verbatim>\<open>IPMask.Size\<close>: the number of leading ones, or (0, 0) for a mask that is not canonical.\<close>

fun leading_ones :: "nat \<Rightarrow> byte \<Rightarrow> nat \<times> byte" where
  "leading_ones 0 v = (0, v)"
| "leading_ones (Suc k) v =
     (if v AND 128 \<noteq> 0 then (let (n, w) = leading_ones k (push_bit 1 v) in (Suc n, w)) else (0, v))"

fun simpleMaskLength :: "IPMask \<Rightarrow> nat option" where
  "simpleMaskLength [] = Some 0"
| "simpleMaskLength (v # vs) =
     (if v = 255 then map_option (\<lambda>n. 8 + n) (simpleMaskLength vs)
      else (let (n, w) = leading_ones 8 v
            in if w \<noteq> 0 then None else if \<exists>x \<in> set vs. x \<noteq> 0 then None else Some n))"

definition mask_Size :: "IPMask \<Rightarrow> nat \<times> nat" where
  "mask_Size m = (case simpleMaskLength m of None \<Rightarrow> (0, 0) | Some n \<Rightarrow> (n, 8 * length m))"

definition IsLoopback :: "IP \<Rightarrow> bool" where
  "IsLoopback ip = (case To4 ip of
       Some ip4 \<Rightarrow> ip4 ! 0 = 127
     | None \<Rightarrow> ip = replicate 15 0 @ [1])"

definition IsLinkLocalUnicast :: "IP \<Rightarrow> bool" where
  "IsLinkLocalUnicast ip = (case To4 ip of
       Some ip4 \<Rightarrow> ip4 ! 0 = 169 \<and> ip4 ! 1 = 254
     | None \<Rightarrow> length ip = 16 \<and> ip ! 0 = 254 \<and> ip ! 1 AND 192 = 128)"

section \<open>Parsing addresses\<close>

datatype addr = Addr4 "byte list" | Addr6 "byte list" string

fun addr_zone :: "addr \<Rightarrow> string" where
  "addr_zone (Addr4 _) = ''''"
| "addr_zone (Addr6 _ z) = z"

fun addr_BitLen :: "addr \<Rightarrow> nat" where
  "addr_BitLen (Addr4 _) = 32"
| "addr_BitLen (Addr6 _ _) = 128"

fun addr_As16 :: "addr \<Rightarrow> IP" where
  "addr_As16 (Addr4 b) = v4InV6Prefix @ b"
| "addr_As16 (Addr6 b _) = b"

text \<open>
  \<^verbatim>\<open>parseIPv4Fields\<close>: value and digit count of the octet being read and the octets read so far.
  A dot is refused at the start and after a dot (no digit has been read) and at the end.
\<close>

fun parseIPv4Fields :: "nat \<Rightarrow> nat \<Rightarrow> byte list \<Rightarrow> string \<Rightarrow> byte list option" where
  "parseIPv4Fields val digLen octets [] =
     (if length octets < 3 then None else Some (octets @ [of_nat val]))"
| "parseIPv4Fields val digLen octets (c # cs) =
     (if is_digit c then
        (if digLen = 1 \<and> val = 0 then None
         else if val * 10 + digit_val c > 255 then None
         else parseIPv4Fields (val * 10 + digit_val c) (Suc digLen) octets cs)
      else if c = CHR ''.'' then
        (if digLen = 0 \<or> cs = [] then None
         else if length octets = 3 then None
         else parseIPv4Fields 0 0 (octets @ [of_nat val]) cs)
      else None)"

definition is_hex :: "char \<Rightarrow> bool" where
  "is_hex c \<longleftrightarrow> is_digit c \<or> (CHR ''a'' \<le> c \<and> c \<le> CHR ''f'') \<or> (CHR ''A'' \<le> c \<and> c \<le> CHR ''F'')"

definition hex_val :: "char \<Rightarrow> nat" where
  "hex_val c =
     (if is_digit c then digit_val c
      else if CHR ''a'' \<le> c \<and> c \<le> CHR ''f'' then of_char c - of_char (CHR ''a'') + 10
      else of_char c - of_char (CHR ''A'') + 10)"

text \<open>
  The loop of \<^verbatim>\<open>parseIPv6\<close>: at most \<open>n\<close> more 16-bit groups, the bytes read, the position of the
  ellipsis, the rest of the text. It returns the bytes, the ellipsis and what was not read.
\<close>

fun parseIPv6Groups ::
  "nat \<Rightarrow> byte list \<Rightarrow> nat option \<Rightarrow> string \<Rightarrow> (byte list \<times> nat option \<times> string) option" where
  "parseIPv6Groups 0 ip ell s = Some (ip, ell, s)"
| "parseIPv6Groups (Suc n) ip ell s =
     (let hex = takeWhile is_hex s; rest = dropWhile is_hex s;
          acc = foldl (\<lambda>a c. 16 * a + hex_val c) 0 hex
      in if 4 < length hex then None
         else if hex = [] then None
         else if rest \<noteq> [] \<and> hd rest = CHR ''.'' then
           (if ell = None \<and> length ip \<noteq> 12 then None
            else if length ip + 4 > 16 then None
            else case parseIPv4Fields 0 0 [] s of
              None \<Rightarrow> None
            | Some f \<Rightarrow> Some (ip @ f, ell, []))
         else
           (let ip' = ip @ [of_nat (acc div 256), of_nat acc]
            in case rest of
                 [] \<Rightarrow> Some (ip', ell, [])
               | c # s' \<Rightarrow>
                   (if c \<noteq> CHR '':'' then None
                    else case s' of
                      [] \<Rightarrow> None
                    | d # s'' \<Rightarrow>
                        (if d = CHR '':'' then
                           (if ell \<noteq> None then None
                            else if s'' = [] then Some (ip', Some (length ip'), [])
                            else parseIPv6Groups n ip' (Some (length ip')) s'')
                         else parseIPv6Groups n ip' ell s'))))"

definition parseIPv6Body :: "string \<Rightarrow> byte list option" where
  "parseIPv6Body s0 =
     (let lead = (take 2 s0 = ''::''); s = (if lead then drop 2 s0 else s0)
      in if lead \<and> s = [] then Some (replicate 16 0)
         else case parseIPv6Groups 8 [] (if lead then Some 0 else None) s of
           None \<Rightarrow> None
         | Some (ip, ell, rest) \<Rightarrow>
             (if rest \<noteq> [] then None
              else if length ip < 16 then
                (case ell of
                   None \<Rightarrow> None
                 | Some e \<Rightarrow> Some (take e ip @ replicate (16 - length ip) 0 @ drop e ip))
              else if ell \<noteq> None then None
              else Some ip))"

definition parseIPv6 :: "string \<Rightarrow> addr option" where
  "parseIPv6 s =
     (case IndexByte s (CHR ''%'') of
        None \<Rightarrow> map_option (\<lambda>b. Addr6 b '''') (parseIPv6Body s)
      | Some i \<Rightarrow>
          (if drop (Suc i) s = [] then None
           else map_option (\<lambda>b. Addr6 b (drop (Suc i) s)) (parseIPv6Body (take i s))))"

text \<open>\<^verbatim>\<open>netip.ParseAddr\<close>: the first dot, colon or percent sign decides.\<close>

fun parse_addr_scan :: "string \<Rightarrow> string \<Rightarrow> addr option" where
  "parse_addr_scan s [] = None"
| "parse_addr_scan s (c # cs) =
     (if c = CHR ''.'' then map_option Addr4 (parseIPv4Fields 0 0 [] s)
      else if c = CHR '':'' then parseIPv6 s
      else if c = CHR ''%'' then None
      else parse_addr_scan s cs)"

definition ParseAddr :: "string \<Rightarrow> addr option" where
  "ParseAddr s = parse_addr_scan s s"

text \<open>\<^verbatim>\<open>net.ParseIP\<close>: 16 bytes, or nil; an address with a zone is refused.\<close>

definition ParseIP :: "string \<Rightarrow> IP option" where
  "ParseIP s = (case ParseAddr s of
       None \<Rightarrow> None
     | Some a \<Rightarrow> if addr_zone a \<noteq> '''' then None else Some (addr_As16 a))"

text \<open>\<^verbatim>\<open>dtoi\<close> of package \<^verbatim>\<open>net\<close>: number, bytes read, success.\<close>

fun dtoi_loop :: "nat \<Rightarrow> nat \<Rightarrow> string \<Rightarrow> nat \<times> nat \<times> bool" where
  "dtoi_loop n i [] = (n, i, True)"
| "dtoi_loop n i (c # cs) =
     (if is_digit c then
        (if 16777215 \<le> n * 10 + digit_val c then (16777215, i, False)
         else dtoi_loop (n * 10 + digit_val c) (Suc i) cs)
      else (n, i, True))"

definition dtoi :: "string \<Rightarrow> nat \<times> nat \<times> bool" where
  "dtoi s = (case dtoi_loop 0 0 s of
       (n, i, ok) \<Rightarrow> if ok \<and> i = 0 then (0, 0, False) else (n, i, ok))"

text \<open>\<^verbatim>\<open>net.ParseCIDR\<close>: the 16-byte address and its masked network.\<close>

definition net_ParseCIDR :: "string \<Rightarrow> error + IP \<times> IPNet" where
  "net_ParseCIDR s =
     (case IndexByte s (CHR ''/'') of
        None \<Rightarrow> Inl (StdErr ''net.ParseCIDR'' s)
      | Some i \<Rightarrow>
          (case ParseAddr (take i s) of
             None \<Rightarrow> Inl (StdErr ''net.ParseCIDR'' s)
           | Some a \<Rightarrow>
               (if addr_zone a \<noteq> '''' then Inl (StdErr ''net.ParseCIDR'' s)
                else case dtoi (drop (Suc i) s) of (n, k, ok) \<Rightarrow>
                  (if \<not> ok \<or> k \<noteq> length (drop (Suc i) s) \<or> addr_BitLen a < n
                   then Inl (StdErr ''net.ParseCIDR'' s)
                   else let m = CIDRMask n (addr_BitLen a div 8)
                        in Inr (addr_As16 a,
                             \<lparr>net_IP = ip_Mask (addr_As16 a) m, net_Mask = m\<rparr>)))))"

section \<open>Host and port\<close>

definition SplitHostPort :: "string \<Rightarrow> error + string \<times> string" where
  "SplitHostPort hostport =
     (let err = Inl (StdErr ''net.SplitHostPort'' hostport)
      in case LastIndexByte hostport (CHR '':'') of
        None \<Rightarrow> err
      | Some i \<Rightarrow>
          (if hd hostport = CHR ''['' then
             (case IndexByte hostport (CHR '']'') of
                None \<Rightarrow> err
              | Some e \<Rightarrow>
                  (if Suc e \<noteq> i then err
                   else if CHR ''['' \<in> set (drop 1 hostport) then err
                   else if CHR '']'' \<in> set (drop (Suc e) hostport) then err
                   else Inr (drop 1 (take e hostport), drop (Suc i) hostport)))
           else if CHR '':'' \<in> set (take i hostport) then err
           else if CHR ''['' \<in> set hostport then err
           else if CHR '']'' \<in> set hostport then err
           else Inr (take i hostport, drop (Suc i) hostport)))"

definition JoinHostPort :: "string \<Rightarrow> string \<Rightarrow> string" where
  "JoinHostPort host port =
     (if CHR '':'' \<in> set host then ''['' @ host @ '']:'' @ port else host @ '':'' @ port)"

section \<open>Printing addresses\<close>

definition v4_string :: "byte list \<Rightarrow> string" where
  "v4_string b = dec_string (unat (b ! 0)) @ ''.'' @ dec_string (unat (b ! 1)) @ ''.'' @
     dec_string (unat (b ! 2)) @ ''.'' @ dec_string (unat (b ! 3))"

fun hex_string :: "nat \<Rightarrow> string" where
  "hex_string n = (if n < 16 then [''0123456789abcdef'' ! n]
     else hex_string (n div 16) @ [''0123456789abcdef'' ! (n mod 16)])"

declare hex_string.simps [simp del]

fun v6_groups :: "byte list \<Rightarrow> nat list" where
  "v6_groups (a # b # bs) = (256 * unat a + unat b) # v6_groups bs"
| "v6_groups _ = []"

text \<open>The longest run of at least two zero groups, the first of the longest ones.\<close>

fun zero_run :: "nat list \<Rightarrow> nat" where
  "zero_run [] = 0"
| "zero_run (g # gs) = (if g = 0 then Suc (zero_run gs) else 0)"

fun longest_run :: "nat \<Rightarrow> nat list \<Rightarrow> nat \<times> nat \<Rightarrow> nat \<times> nat" where
  "longest_run i [] best = best"
| "longest_run i (g # gs) (zs, zl) =
     longest_run (Suc i) gs
       (let l = zero_run (g # gs) in if 2 \<le> l \<and> zl < l then (i, l) else (zs, zl))"

fun join_groups :: "nat list \<Rightarrow> string" where
  "join_groups [] = ''''"
| "join_groups [g] = hex_string g"
| "join_groups (g # gs) = hex_string g @ '':'' @ join_groups gs"

definition v6_string :: "byte list \<Rightarrow> string" where
  "v6_string b =
     (let gs = v6_groups b; (zs, zl) = longest_run 0 gs (0, 0)
      in if zl = 0 then join_groups gs
         else join_groups (take zs gs) @ ''::'' @ join_groups (drop (zs + zl) gs))"

text \<open>\<^verbatim>\<open>IP.String\<close> on the lengths Go addresses have.\<close>

definition ip_String :: "IP \<Rightarrow> string" where
  "ip_String ip = (if ip = [] then ''<nil>'' else
     case To4 ip of Some b \<Rightarrow> v4_string b | None \<Rightarrow> v6_string ip)"

end
