(* ===== verification/GoNetFacts.thy ===== *)
theory GoNetFacts
  imports GoNet
begin

unbundle bit_operations_syntax

text \<open>
  Facts about the address functions of \<^verbatim>\<open>GoNet\<close>: prefix masks are ordered by length, parsed
  networks are well formed, two networks that share an address are nested, and the printers
  and parsers of IPv4 addresses and of host:port pairs invert each other.
\<close>

section \<open>Masks\<close>

lemma length_CIDRMask [simp]: "length (CIDRMask n l) = l"
  by (induction n l rule: CIDRMask.induct) auto

lemma byte_255: "(255 :: byte) = - 1"
  by simp

lemma byte_255_and [simp]: "255 AND (x :: byte) = x" "x AND 255 = x"
  unfolding byte_255 by simp_all

lemma partial_mask_mono:
  "n \<le> n' \<Longrightarrow> NOT (drop_bit n 255) AND NOT (drop_bit n' 255) = (NOT (drop_bit n 255) :: byte)"
  unfolding byte_255 by (rule bit_word_eqI) (auto simp: bit_simps)

lemma CIDRMask_0: "CIDRMask 0 l = replicate l 0"
  by (induction l) (auto simp: byte_255)

lemma and_bytes_simps [simp]:
  "and_bytes [] ys = []"
  "and_bytes xs [] = []"
  "and_bytes (x # xs) (y # ys) = (x AND y) # and_bytes xs ys"
  by (auto simp: and_bytes_def)

lemma length_and_bytes [simp]: "length (and_bytes xs ys) = min (length xs) (length ys)"
  by (simp add: and_bytes_def)

lemma nth_and_bytes:
  "i < length xs \<Longrightarrow> i < length ys \<Longrightarrow> and_bytes xs ys ! i = xs ! i AND ys ! i"
  by (simp add: and_bytes_def)

lemma and_bytes_assoc: "and_bytes (and_bytes xs ys) zs = and_bytes xs (and_bytes ys zs)"
proof (induction xs arbitrary: ys zs)
  case (Cons x xs)
  then show ?case by (cases ys; cases zs) (auto simp: and.assoc)
qed simp

lemma and_bytes_comm: "and_bytes xs ys = and_bytes ys xs"
proof (induction xs arbitrary: ys)
  case (Cons x xs)
  then show ?case by (cases ys) (auto simp: and.commute)
qed simp

lemma and_bytes_idem [simp]: "and_bytes xs xs = xs"
  by (induction xs) auto

lemma drop_and_bytes: "drop k (and_bytes xs ys) = and_bytes (drop k xs) (drop k ys)"
  by (simp add: and_bytes_def drop_map drop_zip)

lemma and_zeros: "and_bytes (replicate l 0) ys = replicate (min l (length ys)) 0"
proof (induction l arbitrary: ys)
  case (Suc l)
  then show ?case by (cases ys) auto
qed simp

text \<open>The mask of a shorter prefix is contained in the mask of a longer one.\<close>

lemma CIDRMask_mono: "n \<le> n' \<Longrightarrow> and_bytes (CIDRMask n l) (CIDRMask n' l) = CIDRMask n l"
proof (induction n l arbitrary: n' rule: CIDRMask.induct)
  case (2 n l)
  show ?case
  proof (cases "8 \<le> n")
    case True
    with 2(1) [of "n' - 8"] 2(3) show ?thesis by simp
  next
    case False
    with 2(3) show ?thesis
      by (simp add: partial_mask_mono CIDRMask_0 and_zeros)
  qed
qed simp

lemma drop_CIDRMask: "drop k (CIDRMask n (k + l)) = CIDRMask (n - 8 * k) l"
proof (induction k arbitrary: n)
  case (Suc k)
  then show ?case by (cases "8 \<le> n") (auto simp: diff_diff_eq algebra_simps)
qed simp

lemma full_partial: "n < 8 \<Longrightarrow> NOT (drop_bit n 255) \<noteq> (255 :: byte)"
proof
  assume n: "n < 8" and eq: "NOT (drop_bit n 255) = (255 :: byte)"
  then have "bit (NOT (drop_bit n 255) :: byte) (7 - n) = bit (255 :: byte) (7 - n)" by simp
  with n show False unfolding byte_255 by (auto simp: bit_simps)
qed

lemma CIDRMask_nth_full: "i < l \<Longrightarrow> CIDRMask n l ! i = 255 \<longleftrightarrow> 8 * Suc i \<le> n"
proof (induction n l arbitrary: i rule: CIDRMask.induct)
  case (2 n l)
  show ?case
  proof (cases i)
    case 0
    then show ?thesis using full_partial [of n] by auto
  next
    case (Suc j)
    with 2 show ?thesis by (auto simp: CIDRMask_0)
  qed
qed simp
lemma take_CIDRMask_full: "8 * k \<le> n \<Longrightarrow> k \<le> l \<Longrightarrow> take k (CIDRMask n l) = replicate k 255"
proof (rule nth_equalityI)
  fix i assume n: "8 * k \<le> n" "k \<le> l" and "i < length (take k (CIDRMask n l))"
  then have "i < k" "i < l" by auto
  with n CIDRMask_nth_full [of i l n] show "take k (CIDRMask n l) ! i = replicate k 255 ! i"
    by simp
qed simp

section \<open>Well-formed networks\<close>

text \<open>
  A network as \<^verbatim>\<open>net.ParseCIDR\<close> makes it: the mask of some prefix length, as long as the
  address, and no bit of the address outside the mask.
\<close>

definition wf_net :: "IPNet \<Rightarrow> bool" where
  "wf_net n \<longleftrightarrow> (\<exists>l p. (l = 4 \<or> l = 16) \<and> p \<le> 8 * l \<and> net_Mask n = CIDRMask p l \<and>
     length (net_IP n) = l \<and> and_bytes (net_IP n) (net_Mask n) = net_IP n)"

lemma length_norm_ip: "length ip = 4 \<or> length ip = 16 \<Longrightarrow> length (norm_ip ip) = 4 \<or> length (norm_ip ip) = 16"
  by (auto simp: norm_ip_def To4_def)

lemma norm_ip_4 [simp]: "length ip = 4 \<Longrightarrow> norm_ip ip = ip"
  by (simp add: norm_ip_def To4_def)

text \<open>
  The network number and mask that \<^verbatim>\<open>Contains\<close> compares with: again a prefix mask, and the
  number is the normalised address.
\<close>

lemma networkNumberAndMask_wf:
  assumes "wf_net n"
  obtains l p where "networkNumberAndMask n = (norm_ip (net_IP n), CIDRMask p l)"
    and "length (norm_ip (net_IP n)) = l"
    and "and_bytes (norm_ip (net_IP n)) (CIDRMask p l) = norm_ip (net_IP n)"
proof -
  from assms obtain l p where l: "l = 4 \<or> l = 16" and m: "net_Mask n = CIDRMask p l"
    and len: "length (net_IP n) = l" and a: "and_bytes (net_IP n) (net_Mask n) = net_IP n"
    by (auto simp: wf_net_def)
  show thesis
  proof (cases "To4 (net_IP n)")
    case None
    then have "l = 16" using l len by (auto simp: To4_def split: if_splits)
    with None m len a show thesis
      by (intro that [of p 16]) (simp_all add: networkNumberAndMask_def norm_ip_def)
  next
    case (Some x)
    show thesis
    proof (cases "l = 4")
      case True
      with Some m len a show thesis
        by (intro that [of p 4]) (simp_all add: networkNumberAndMask_def norm_ip_def To4_def)
    next
      case False
      with l have l16: "l = 16" by simp
      with Some len have x: "x = drop 12 (net_IP n)" by (auto simp: To4_def split: if_splits)
      have d: "drop 12 (CIDRMask p 16) = CIDRMask (p - 96) 4"
        using drop_CIDRMask [of 12 p 4] by simp
      have "and_bytes x (CIDRMask (p - 96) 4) = x"
        using arg_cong [OF a, of "drop 12"] m l16 by (simp only: x drop_and_bytes d)
      with Some m len l16 x d show thesis
        by (intro that [of "p - 96" 4]) (simp_all add: networkNumberAndMask_def norm_ip_def)
    qed
  qed
qed

lemma Contains_base: "wf_net n \<Longrightarrow> Contains n (net_IP n)"
  by (erule networkNumberAndMask_wf) (simp add: Contains_def Let_def)

text \<open>
  Two networks that share an address are nested: one holds the base address of the other.
\<close>

lemma Contains_nested:
  assumes a: "wf_net a" and b: "wf_net b" and ia: "Contains a ip" and ib: "Contains b ip"
  shows "Contains a (net_IP b) \<or> Contains b (net_IP a)"
proof -
  obtain la pa where na: "networkNumberAndMask a = (norm_ip (net_IP a), CIDRMask pa la)"
    "length (norm_ip (net_IP a)) = la"
    using networkNumberAndMask_wf [OF a] by metis
  obtain lb pb where nb: "networkNumberAndMask b = (norm_ip (net_IP b), CIDRMask pb lb)"
    "length (norm_ip (net_IP b)) = lb"
    using networkNumberAndMask_wf [OF b] by metis
  have l: "la = lb" using ia ib na nb by (simp add: Contains_def Let_def)
  have ea: "and_bytes (norm_ip (net_IP a)) (CIDRMask pa la) = and_bytes (norm_ip ip) (CIDRMask pa la)"
    using ia na by (simp add: Contains_def Let_def)
  have eb: "and_bytes (norm_ip (net_IP b)) (CIDRMask pb lb) = and_bytes (norm_ip ip) (CIDRMask pb lb)"
    using ib nb by (simp add: Contains_def Let_def)
  have narrow: "and_bytes x (CIDRMask p k) = and_bytes y (CIDRMask p k)"
    if "p \<le> q" "and_bytes x (CIDRMask q k) = and_bytes y (CIDRMask q k)" for x y p q k
  proof -
    have "CIDRMask p k = and_bytes (CIDRMask q k) (CIDRMask p k)"
      using CIDRMask_mono [OF that(1), of k] by (simp add: and_bytes_comm)
    then show ?thesis using that(2) by (metis and_bytes_assoc)
  qed
  show ?thesis
  proof (cases "pa \<le> pb")
    case True
    have "Contains a (net_IP b)"
      using narrow [OF True eb [unfolded l [symmetric]]] ea na nb l by (simp add: Contains_def Let_def)
    then show ?thesis ..
  next
    case False
    then have "pb \<le> pa" by simp
    then have "Contains b (net_IP a)"
      using narrow [OF _ ea] eb na nb l by (simp add: Contains_def Let_def)
    then show ?thesis ..
  qed
qed

section \<open>What the parsers return\<close>

lemma parseIPv4Fields_length:
  "parseIPv4Fields v d os s = Some b \<Longrightarrow> length os \<le> 3 \<Longrightarrow> length b = 4"
  by (induction v d os s rule: parseIPv4Fields.induct) (auto split: if_splits)

lemma parseIPv6Groups_length:
  "parseIPv6Groups n ip ell s = Some (ip', ell', rest) \<Longrightarrow> length ip + 2 * n = 16 \<Longrightarrow>
     (\<forall>e. ell = Some e \<longrightarrow> e \<le> length ip) \<Longrightarrow>
     length ip' \<le> 16 \<and> (\<forall>e. ell' = Some e \<longrightarrow> e \<le> length ip')"
proof (induction n arbitrary: ip ell s ell')
  case 0
  then show ?case by auto
next
  case (Suc n)
  note v4 = parseIPv4Fields_length [of 0 0 "[]" s]
  note IH1 = Suc.IH [THEN conjunct1] and IH2 = Suc.IH [THEN conjunct2, rule_format]
  have "length ip' \<le> 16"
    using Suc.prems v4
    by (auto simp: Let_def split: if_splits option.splits list.splits dest!: IH1)
  moreover have "e \<le> length ip'" if "ell' = Some e" for e
    using Suc.prems that v4
    by (auto simp: Let_def split: if_splits option.splits list.splits elim!: IH2)
  ultimately show ?case by blast
qed

lemma parseIPv6Body_length: "parseIPv6Body s = Some b \<Longrightarrow> length b = 16"
  by (auto simp: parseIPv6Body_def Let_def split: if_splits option.splits
      dest!: parseIPv6Groups_length)

lemma parseIPv6_length: "parseIPv6 s = Some a \<Longrightarrow> \<exists>b z. a = Addr6 b z \<and> length b = 16"
  by (auto simp: parseIPv6_def dest: parseIPv6Body_length split: option.splits if_splits)

lemma ParseAddr_length:
  assumes "ParseAddr s = Some a"
  shows "(\<exists>b. a = Addr4 b \<and> length b = 4) \<or> (\<exists>b z. a = Addr6 b z \<and> length b = 16)"
proof -
  have "parse_addr_scan t s = Some a \<Longrightarrow>
      (\<exists>b. a = Addr4 b \<and> length b = 4) \<or> (\<exists>b z. a = Addr6 b z \<and> length b = 16)" for t
    by (induction s)
      (auto split: if_splits dest: parseIPv4Fields_length [of _ _ "[]"] parseIPv6_length)
  with assms show ?thesis by (simp add: ParseAddr_def)
qed

lemma length_v4InV6Prefix [simp]: "length v4InV6Prefix = 12"
  by (simp add: v4InV6Prefix_def)

lemma length_addr_As16: "ParseAddr s = Some a \<Longrightarrow> length (addr_As16 a) = 16"
  by (auto dest: ParseAddr_length)

lemma ParseIP_length: "ParseIP s = Some ip \<Longrightarrow> length ip = 16"
  by (auto simp: ParseIP_def length_addr_As16 split: option.splits if_splits)

lemma ip_Mask_v4:
  "length b = 4 \<Longrightarrow> ip_Mask (v4InV6Prefix @ b) (CIDRMask n 4) = and_bytes b (CIDRMask n 4)"
  by (simp add: ip_Mask_def Let_def)

lemma ip_Mask_v6: "length b = 16 \<Longrightarrow> ip_Mask b (CIDRMask n 16) = and_bytes b (CIDRMask n 16)"
  by (simp add: ip_Mask_def Let_def)

lemma wf_net_masked:
  "l = 4 \<or> l = 16 \<Longrightarrow> p \<le> 8 * l \<Longrightarrow> length b = l \<Longrightarrow>
     wf_net \<lparr>net_IP = and_bytes b (CIDRMask p l), net_Mask = CIDRMask p l\<rparr>"
  by (auto simp: wf_net_def and_bytes_assoc)

text \<open>A parsed CIDR is a well-formed network that holds the parsed address.\<close>

lemma net_ParseCIDR_cases:
  assumes "net_ParseCIDR s = Inr (ip, n)"
  obtains (v4) b p where "length b = 4" "p \<le> 32" "ip = v4InV6Prefix @ b"
      "n = \<lparr>net_IP = and_bytes b (CIDRMask p 4), net_Mask = CIDRMask p 4\<rparr>"
  | (v6) p where "length ip = 16" "p \<le> 128"
      "n = \<lparr>net_IP = and_bytes ip (CIDRMask p 16), net_Mask = CIDRMask p 16\<rparr>"
proof -
  from assms obtain i a p k where a: "ParseAddr (take i s) = Some a" and "p \<le> addr_BitLen a"
    and "ip = addr_As16 a"
    and "n = \<lparr>net_IP = ip_Mask (addr_As16 a) (CIDRMask p (addr_BitLen a div 8)),
               net_Mask = CIDRMask p (addr_BitLen a div 8)\<rparr>"
    by (fastforce simp: net_ParseCIDR_def Let_def not_less split: option.splits if_splits prod.splits)
  with ParseAddr_length [OF a] show thesis
    by (auto simp: ip_Mask_v4 ip_Mask_v6 intro: v4 v6)
qed

lemma net_ParseCIDR_wf: "net_ParseCIDR s = Inr (ip, n) \<Longrightarrow> wf_net n"
  by (erule net_ParseCIDR_cases) (simp_all add: wf_net_masked)

lemma net_ParseCIDR_length: "net_ParseCIDR s = Inr (ip, n) \<Longrightarrow> length ip = 16"
  by (erule net_ParseCIDR_cases) simp_all

lemma To4_mapped [simp]: "length b = 4 \<Longrightarrow> To4 (v4InV6Prefix @ b) = Some b"
  by (simp add: To4_def)

lemma norm_ip_mapped [simp]: "length b = 4 \<Longrightarrow> norm_ip (v4InV6Prefix @ b) = b"
  by (simp add: norm_ip_def)

section \<open>Printing and parsing IPv4 addresses\<close>

lemma parseIPv4Fields_digits:
  assumes "\<forall>c \<in> set cs. is_digit c" and "dec_val v cs \<le> 255" and "d = 1 \<longrightarrow> v \<noteq> 0" and "v = 0 \<longrightarrow> d = 0"
    and "v = 0 \<longrightarrow> length cs \<le> 1 \<or> digit_val (hd cs) \<noteq> 0"
  shows "parseIPv4Fields v d os (cs @ rest) = parseIPv4Fields (dec_val v cs) (d + length cs) os rest"
  using assms
proof (induction cs arbitrary: v d)
  case Nil
  then show ?case by simp
next
  case (Cons c cs)
  have le: "10 * v + digit_val c \<le> dec_val (10 * v + digit_val c) cs" by (rule dec_val_ge)
  show ?case
  proof (cases "cs = []")
    case True
    with Cons.prems le show ?thesis by (auto simp: mult.commute)
  next
    case False
    with Cons.prems have nz: "10 * v + digit_val c \<noteq> 0" by (cases "v = 0") auto
    have "parseIPv4Fields (10 * v + digit_val c) (Suc d) os (cs @ rest) =
        parseIPv4Fields (dec_val (10 * v + digit_val c) cs) (Suc d + length cs) os rest"
      using Cons.prems nz by (intro Cons.IH) auto
    with Cons.prems le show ?thesis by (auto simp: mult.commute)
  qed
qed

lemma parseIPv4Fields_octet:
  assumes "n \<le> 255"
  shows "parseIPv4Fields 0 0 os (dec_string n @ rest) = parseIPv4Fields n (length (dec_string n)) os rest"
proof -
  have "n = 0 \<or> digit_val (hd (dec_string n)) \<noteq> 0" using hd_dec_string [of n] by blast
  then have "length (dec_string n) \<le> 1 \<or> digit_val (hd (dec_string n)) \<noteq> 0" by auto
  with assms show ?thesis
    using parseIPv4Fields_digits [of "dec_string n" 0 0 os rest] dec_string_digits by auto
qed

lemma parseIPv4Fields_dot:
  assumes "n \<le> 255" and "length os < 3" and "rest \<noteq> []"
  shows "parseIPv4Fields 0 0 os (dec_string n @ CHR ''.'' # rest) =
     parseIPv4Fields 0 0 (os @ [of_nat n]) rest"
  using assms by (simp add: parseIPv4Fields_octet is_digit_def)

lemma unat_byte_le: "unat (b :: byte) \<le> 255"
proof -
  have "unat b < 2 ^ LENGTH(8)" by (rule unsigned_less)
  then show ?thesis by simp
qed

lemma list4: "length b = 4 \<Longrightarrow> b = [b ! 0, b ! 1, b ! 2, b ! 3]"
  by (auto simp: numeral_eq_Suc length_Suc_conv)

lemma parseIPv4Fields_v4_string:
  assumes "length b = 4"
  shows "parseIPv4Fields 0 0 [] (v4_string b) = Some b"
proof -
  have "parseIPv4Fields 0 0 [] (v4_string b) = Some [b ! 0, b ! 1, b ! 2, b ! 3]"
    using parseIPv4Fields_octet [OF unat_byte_le, of "[b ! 0, b ! 1, b ! 2]" "b ! 3" "[]"]
    by (simp add: v4_string_def parseIPv4Fields_dot unat_byte_le)
  with list4 [OF assms] show ?thesis by simp
qed

lemma parse_addr_scan_dot:
  "\<forall>c \<in> set xs. c \<noteq> CHR ''.'' \<and> c \<noteq> CHR '':'' \<and> c \<noteq> CHR ''%'' \<Longrightarrow>
     parse_addr_scan s (xs @ CHR ''.'' # rest) = map_option Addr4 (parseIPv4Fields 0 0 [] s)"
  by (induction xs) auto

lemma ParseAddr_v4_string:
  assumes "length b = 4"
  shows "ParseAddr (v4_string b) = Some (Addr4 b)"
proof -
  have "\<forall>c \<in> set (dec_string (unat (b ! 0))). c \<noteq> CHR ''.'' \<and> c \<noteq> CHR '':'' \<and> c \<noteq> CHR ''%''"
    using dec_string_digits is_digit_not_special by blast
  then have "parse_addr_scan t (v4_string b) = map_option Addr4 (parseIPv4Fields 0 0 [] t)" for t
    using parse_addr_scan_dot [of "dec_string (unat (b ! 0))" t]
    by (simp add: v4_string_def)
  with parseIPv4Fields_v4_string [OF assms] show ?thesis by (simp add: ParseAddr_def)
qed

lemma v4_string_chars: "c \<in> set (v4_string b) \<Longrightarrow> is_digit c \<or> c = CHR ''.''"
  using dec_string_digits by (auto simp: v4_string_def)

lemma v4_string_no_slash: "CHR ''/'' \<notin> set (v4_string b)"
  using v4_string_chars [of "CHR ''/''" b] by (auto simp: is_digit_def)

lemma dtoi_loop_digits:
  "\<forall>c \<in> set s. is_digit c \<Longrightarrow> dec_val n s < 16777215 \<Longrightarrow> dtoi_loop n i s = (dec_val n s, i + length s, True)"
proof (induction s arbitrary: n i)
  case (Cons c cs)
  have "10 * n + digit_val c \<le> dec_val (10 * n + digit_val c) cs" by (rule dec_val_ge)
  with Cons show ?case by (simp add: mult.commute)
qed simp

lemma dtoi_dec_string: "n < 16777215 \<Longrightarrow> dtoi (dec_string n) = (n, length (dec_string n), True)"
  using dtoi_loop_digits [OF dec_string_digits, of 0 n 0] by (simp add: dtoi_def)

text \<open>Parsing a printed IPv4 address with a printed prefix length gives them back.\<close>

lemma net_ParseCIDR_v4_string:
  assumes "length b = 4" and "p \<le> 32"
  shows "net_ParseCIDR (v4_string b @ CHR ''/'' # dec_string p) =
     Inr (v4InV6Prefix @ b, \<lparr>net_IP = and_bytes b (CIDRMask p 4), net_Mask = CIDRMask p 4\<rparr>)"
  using assms
  by (simp add: net_ParseCIDR_def IndexByte_first v4_string_no_slash ParseAddr_v4_string
      dtoi_dec_string ip_Mask_v4 Let_def)

section \<open>Host and port\<close>

lemma SplitHostPort_InrD:
  assumes "SplitHostPort s = Inr (host, port)"
  obtains i where "LastIndexByte s (CHR '':'') = Some i" "port = drop (Suc i) s"
    "host = Trim (take i s) ''[]''"
    "CHR ''['' \<notin> set host" "CHR '']'' \<notin> set host"
proof -
  from assms obtain i where i: "LastIndexByte s (CHR '':'') = Some i"
    by (auto simp: SplitHostPort_def Let_def split: option.splits)
  note s = LastIndexByte_SomeD [OF i]
  show thesis
  proof (cases "hd s = CHR ''[''")
    case True
    with assms i obtain e where e: "IndexByte s (CHR '']'') = Some e" "Suc e = i"
      and ob: "CHR ''['' \<notin> set (drop 1 s)"
      and h: "host = drop 1 (take e s)" and p: "port = drop (Suc i) s"
      by (auto simp: SplitHostPort_def Let_def split: option.splits if_splits)
    note ed = IndexByte_SomeD [OF e(1)]
    have e0: "0 < e" using True ed by (cases s; cases e) auto
    have "take i s = take e s @ [CHR '']'']"
      using ed e(2) by (metis take_Suc_conv_app_nth)
    moreover have "take e s = CHR ''['' # host"
      using True e0 h ed by (cases s; cases e) auto
    ultimately have ti: "take i s = CHR ''['' # host @ [CHR '']'']" by simp
    have cl: "CHR '']'' \<notin> set host" using ed h by (metis in_set_dropD)
    have op: "CHR ''['' \<notin> set host"
      using ob h by (metis drop_take in_set_takeD)
    have "Trim (take i s) ''[]'' = host"
    proof (cases "host = []")
      case True
      then show ?thesis by (simp add: ti Trim_def TrimLeft_def TrimRight_def)
    next
      case False
      have "TrimLeft (take i s) ''[]'' = host @ [CHR '']'']"
        using False op cl by (cases host) (auto simp: ti TrimLeft_def)
      moreover have "TrimRight (host @ [CHR '']'']) ''[]'' = host"
        using False op cl by (cases host rule: rev_cases) (auto simp: TrimRight_def)
      ultimately show ?thesis by (simp add: Trim_def)
    qed
    with that i p op cl show thesis by metis
  next
    case False
    with assms i have h: "host = take i s" and p: "port = drop (Suc i) s"
      and nb: "CHR ''['' \<notin> set s" "CHR '']'' \<notin> set s"
      by (auto simp: SplitHostPort_def Let_def split: option.splits if_splits)
    have hb: "CHR ''['' \<notin> set host" "CHR '']'' \<notin> set host"
      using nb h by (auto dest: in_set_takeD)
    then have "Trim host ''[]'' = host"
      by (intro Trim_id) (metis hd_in_set last_in_set list.set_intros(1) list.set_intros(2)
          empty_iff empty_set insert_iff list.simps(15))
    with that i p h hb show thesis by metis
  qed
qed

lemma SplitHostPort_JoinHostPort:
  assumes "CHR ''['' \<notin> set host" "CHR '']'' \<notin> set host"
    and "\<forall>c \<in> set port. is_digit c"
  shows "SplitHostPort (JoinHostPort host port) = Inr (host, port)"
proof -
  have p: "CHR '':'' \<notin> set port" "CHR ''['' \<notin> set port" "CHR '']'' \<notin> set port"
    using assms(3) is_digit_not_special by blast+
  show ?thesis
  proof (cases "CHR '':'' \<in> set host")
    case True
    have j: "JoinHostPort host port = (CHR ''['' # host @ [CHR '']'']) @ CHR '':'' # port"
      using True by (simp add: JoinHostPort_def)
    have "LastIndexByte (JoinHostPort host port) (CHR '':'') = Some (length host + 2)"
      using LastIndexByte_last [OF p(1), of "CHR ''['' # host @ [CHR '']'']"] by (simp add: j)
    moreover have "IndexByte (JoinHostPort host port) (CHR '']'') = Some (Suc (length host))"
      using IndexByte_first [of "CHR '']''" "CHR ''['' # host" "CHR '':'' # port"] assms(2)
      by (simp add: j)
    ultimately show ?thesis using assms p by (simp add: SplitHostPort_def Let_def j)
  next
    case False
    have j: "JoinHostPort host port = host @ CHR '':'' # port"
      using False by (simp add: JoinHostPort_def)
    have "hd (host @ CHR '':'' # port) \<noteq> CHR ''[''"
      using assms(1) by (cases host) auto
    with False assms p show ?thesis
      by (simp add: SplitHostPort_def Let_def j LastIndexByte_last)
  qed
qed

end
