(* ===== verification/Netutil.thy ===== *)
theory Netutil
  imports GoNetFacts
begin

unbundle bit_operations_syntax

text \<open>
  Package \<^verbatim>\<open>internal/netutil\<close>: parsing of CIDRs with wrapped errors, containment and overlap of
  networks, host routes. The interface \<open>address_blocks\<close> states what its clients rely on.
\<close>

section \<open>Operations\<close>

definition ParseCIDR :: "string \<Rightarrow> error + IPNet" where
  "ParseCIDR s = (case net_ParseCIDR s of
       Inl err \<Rightarrow> Inl (Wrapf err ''invalid CIDR %q'' [s])
     | Inr (_, network) \<Rightarrow> Inr network)"

definition ParseHostInCIDR :: "string \<Rightarrow> error + IP \<times> IPNet" where
  "ParseHostInCIDR s = (case net_ParseCIDR s of
       Inl err \<Rightarrow> Inl (Wrapf err ''invalid CIDR %q'' [s])
     | Inr (ip, network) \<Rightarrow> Inr (ip, network))"

text \<open>The last address; the mask of a parsed network is as long as its address.\<close>

definition lastAddr :: "IPNet \<Rightarrow> IP" where
  "lastAddr n = map2 (\<lambda>b m. b OR NOT m) (net_IP n) (net_Mask n)"

definition CIDRContains :: "IPNet \<Rightarrow> IPNet \<Rightarrow> bool" where
  "CIDRContains outer inner =
     (if \<not> Contains outer (net_IP inner) then False else Contains outer (lastAddr inner))"

definition CIDROverlaps :: "IPNet \<Rightarrow> IPNet \<Rightarrow> bool" where
  "CIDROverlaps a b \<longleftrightarrow> Contains a (net_IP b) \<or> Contains b (net_IP a)"

definition IsHostRoute :: "IPNet \<Rightarrow> bool" where
  "IsHostRoute n = (let (ones, bits) = mask_Size (net_Mask n) in ones = bits)"

definition HostRoute :: "IP \<Rightarrow> string" where
  "HostRoute ip = (if To4 ip \<noteq> None then ip_String ip @ ''/32'' else ip_String ip @ ''/128'')"

section \<open>The interface\<close>

text \<open>
  Blocks of addresses: every block holds its base, and of two blocks with a common address one
  holds the base of the other. The overlap test of two base lookups is then exact.
\<close>

locale address_blocks =
  fixes holds :: "'n \<Rightarrow> 'a \<Rightarrow> bool" and base :: "'n \<Rightarrow> 'a" and ok :: "'n \<Rightarrow> bool"
  assumes base_held: "ok n \<Longrightarrow> holds n (base n)"
    and nested: "ok m \<Longrightarrow> ok n \<Longrightarrow> holds m x \<Longrightarrow> holds n x \<Longrightarrow>
      holds m (base n) \<or> holds n (base m)"
begin

lemma overlap_exact:
  "ok m \<Longrightarrow> ok n \<Longrightarrow> holds m (base n) \<or> holds n (base m) \<longleftrightarrow> (\<exists>x. holds m x \<and> holds n x)"
  using base_held nested by blast

lemma disjoint_exact:
  "ok m \<Longrightarrow> ok n \<Longrightarrow>
     \<not> (holds m (base n) \<or> holds n (base m)) \<longleftrightarrow> {x. holds m x} \<inter> {x. holds n x} = {}"
  using overlap_exact by blast

end

interpretation ipnet: address_blocks Contains net_IP wf_net
  by unfold_locales (auto intro: Contains_base dest: Contains_nested)

section \<open>Facts\<close>

lemma ParseCIDR_wf: "ParseCIDR s = Inr n \<Longrightarrow> wf_net n"
  by (auto simp: ParseCIDR_def dest: net_ParseCIDR_wf split: sum.splits)

lemma ParseCIDR_eq_ParseHostInCIDR:
  "ParseCIDR s = Inr n \<longleftrightarrow> (\<exists>ip. ParseHostInCIDR s = Inr (ip, n))"
  by (auto simp: ParseCIDR_def ParseHostInCIDR_def split: sum.splits)

lemma ParseHostInCIDR_length: "ParseHostInCIDR s = Inr (ip, n) \<Longrightarrow> length ip = 16"
  by (auto simp: ParseHostInCIDR_def dest: net_ParseCIDR_length split: sum.splits)

lemma wf_net_lengths: "wf_net n \<Longrightarrow> length (net_Mask n) = length (net_IP n)"
  by (auto simp: wf_net_def)

lemma CIDROverlaps_shared:
  "wf_net a \<Longrightarrow> wf_net b \<Longrightarrow> CIDROverlaps a b \<longleftrightarrow> (\<exists>ip. Contains a ip \<and> Contains b ip)"
  unfolding CIDROverlaps_def by (rule ipnet.overlap_exact)

lemma CIDROverlaps_sym: "CIDROverlaps a b \<longleftrightarrow> CIDROverlaps b a"
  by (auto simp: CIDROverlaps_def)

subsection \<open>Containment\<close>

text \<open>
  An IPv6 block that reaches into the IPv4-mapped range without lying inside it: its last
  address has a 4-byte form and its first one has none.
\<close>

definition straddles_mapped :: "IPNet \<Rightarrow> bool" where
  "straddles_mapped n \<longleftrightarrow> To4 (net_IP n) = None \<and> To4 (lastAddr n) \<noteq> None"

definition or_not_bytes :: "byte list \<Rightarrow> byte list \<Rightarrow> byte list" where
  "or_not_bytes xs ms = map2 (\<lambda>b m. b OR NOT m) xs ms"

lemma length_lastAddr: "wf_net n \<Longrightarrow> length (lastAddr n) = length (net_IP n)"
  by (simp add: lastAddr_def wf_net_lengths)

lemma nth_or_not_bytes:
  "i < length xs \<Longrightarrow> i < length ms \<Longrightarrow> or_not_bytes xs ms ! i = xs ! i OR NOT (ms ! i)"
  by (simp add: or_not_bytes_def)

lemma length_or_not_bytes [simp]: "length (or_not_bytes xs ms) = min (length xs) (length ms)"
  by (simp add: or_not_bytes_def)

lemma drop_or_not_bytes: "drop k (or_not_bytes xs ms) = or_not_bytes (drop k xs) (drop k ms)"
  by (simp add: or_not_bytes_def drop_map drop_zip)

lemma take_or_not_bytes: "take k (or_not_bytes xs ms) = or_not_bytes (take k xs) (take k ms)"
  by (simp add: or_not_bytes_def take_map take_zip)

lemma or_not_full: "or_not_bytes xs (replicate (length xs) 255) = xs"
proof (induction xs)
  case (Cons x xs)
  have "x OR NOT (255 :: byte) = x" unfolding byte_255 by simp
  with Cons show ?case by (simp add: or_not_bytes_def)
qed (simp add: or_not_bytes_def)

text \<open>The bits a containing mask tests are all fixed by the contained mask.\<close>

lemma byte_block_within:
  fixes b mi mo x :: byte
  assumes "b AND mi = b" and "(b OR NOT mi) AND mo = b AND mo" and "x AND mi = b AND mi"
  shows "x AND mo = b AND mo"
proof (rule bit_word_eqI)
  fix k assume "k < LENGTH(8)"
  have "bit (b AND mi) k = bit b k" "bit ((b OR NOT mi) AND mo) k = bit (b AND mo) k"
    "bit (x AND mi) k = bit (b AND mi) k"
    using assms by simp_all
  then show "bit (x AND mo) k = bit (b AND mo) k"
    using \<open>k < LENGTH(8)\<close> by (auto simp: bit_simps)
qed

lemma bytes_block_within:
  assumes "length bs = length mi" "length mo = length mi" "length xs = length mi"
    and "and_bytes bs mi = bs" and "and_bytes (or_not_bytes bs mi) mo = and_bytes bs mo"
    and "and_bytes xs mi = and_bytes bs mi"
  shows "and_bytes xs mo = and_bytes bs mo"
proof (rule nth_equalityI)
  show "length (and_bytes xs mo) = length (and_bytes bs mo)" using assms by simp
next
  fix i assume "i < length (and_bytes xs mo)"
  then have i: "i < length bs" "i < length mi" "i < length mo" "i < length xs"
    using assms by auto
  have "and_bytes bs mi ! i = bs ! i"
    "and_bytes (or_not_bytes bs mi) mo ! i = and_bytes bs mo ! i"
    "and_bytes xs mi ! i = and_bytes bs mi ! i"
    using assms by simp_all
  then have "bs ! i AND mi ! i = bs ! i" "(bs ! i OR NOT (mi ! i)) AND mo ! i = bs ! i AND mo ! i"
    "xs ! i AND mi ! i = bs ! i AND mi ! i"
    using i assms(1-3) by (simp_all add: nth_and_bytes nth_or_not_bytes length_or_not_bytes)
  then have "xs ! i AND mo ! i = bs ! i AND mo ! i" by (rule byte_block_within)
  then show "and_bytes xs mo ! i = and_bytes bs mo ! i"
    using i by (simp add: nth_and_bytes)
qed

text \<open>
  The last address of a block that does not straddle the mapped range, in the form
  \<^verbatim>\<open>Contains\<close> compares.
\<close>

lemma norm_lastAddr:
  assumes wf: "wf_net n" and ns: "\<not> straddles_mapped n"
    and nn: "networkNumberAndMask n = (norm_ip (net_IP n), m)"
  shows "norm_ip (lastAddr n) = or_not_bytes (norm_ip (net_IP n)) m"
proof -
  from wf obtain l p where l: "l = 4 \<or> l = 16" and mask: "net_Mask n = CIDRMask p l"
    and len: "length (net_IP n) = l" and a: "and_bytes (net_IP n) (net_Mask n) = net_IP n"
    by (auto simp: wf_net_def)
  have la: "lastAddr n = or_not_bytes (net_IP n) (net_Mask n)"
    by (simp add: lastAddr_def or_not_bytes_def)
  consider (v4) "l = 4" | (v6) "l = 16" "To4 (net_IP n) = None"
    | (mapped) x where "l = 16" "To4 (net_IP n) = Some x"
    using l by (cases "To4 (net_IP n)") auto
  then show ?thesis
  proof cases
    case v4
    with nn mask len have "m = net_Mask n"
      by (auto simp: networkNumberAndMask_def To4_def)
    with v4 len la length_lastAddr [OF wf] show ?thesis by simp
  next
    case v6
    with ns have "To4 (lastAddr n) = None" by (simp add: straddles_mapped_def)
    with v6 nn mask len la show ?thesis
      by (auto simp: networkNumberAndMask_def norm_ip_def)
  next
    case mapped
    then have pre: "take 12 (net_IP n) = v4InV6Prefix" and x: "x = drop 12 (net_IP n)"
      using len by (auto simp: To4_def split: if_splits)
    have m: "m = drop 12 (net_Mask n)"
      using nn mapped mask by (auto simp: networkNumberAndMask_def)
    have ip11: "net_IP n ! 11 = 255"
      using arg_cong [OF pre, of "\<lambda>xs. xs ! 11"] by (simp add: v4InV6Prefix_def)
    have "net_IP n ! 11 AND net_Mask n ! 11 = net_IP n ! 11"
      using arg_cong [OF a, of "\<lambda>xs. xs ! 11"] mapped len mask by (simp add: nth_and_bytes)
    then have "CIDRMask p 16 ! 11 = 255" using ip11 mask mapped by simp
    then have "8 * 12 \<le> p" using CIDRMask_nth_full [of 11 16 p] by simp
    then have "take 12 (net_Mask n) = replicate 12 255"
      using take_CIDRMask_full [of 12 p 16] mask mapped by simp
    then have "take 12 (lastAddr n) = v4InV6Prefix"
      using or_not_full [of v4InV6Prefix] by (simp add: la take_or_not_bytes pre)
    moreover have "length (lastAddr n) = 16" using length_lastAddr [OF wf] len mapped by simp
    ultimately have "norm_ip (lastAddr n) = drop 12 (lastAddr n)"
      by (simp add: norm_ip_def To4_def)
    with mapped x m show ?thesis by (simp add: la drop_or_not_bytes norm_ip_def)
  qed
qed

lemma CIDRContains_not_straddling:
  assumes "wf_net inner" and "CIDRContains outer inner"
  shows "\<not> straddles_mapped inner"
proof
  assume s: "straddles_mapped inner"
  have "length (norm_ip (net_IP inner)) = length (norm_ip (lastAddr inner))"
    using assms(2) by (auto simp: CIDRContains_def Contains_def Let_def split: if_splits prod.splits)
  with s assms(1) show False
    by (auto simp: straddles_mapped_def norm_ip_def To4_def wf_net_def split: if_splits)
qed

lemma Contains_iff_masked:
  assumes "networkNumberAndMask n = (nn, m)"
  shows "Contains n ip \<longleftrightarrow> length (norm_ip ip) = length nn \<and> and_bytes (norm_ip ip) m = and_bytes nn m"
  using assms by (auto simp: Contains_def Let_def)

text \<open>Soundness: what \<^verbatim>\<open>CIDRContains\<close> accepts is contained, for every parsed pair.\<close>

lemma CIDRContains_sound:
  assumes o: "wf_net outer" and i: "wf_net inner" and c: "CIDRContains outer inner"
    and x: "Contains inner x"
  shows "Contains outer x"
proof -
  obtain lo po where no: "networkNumberAndMask outer = (norm_ip (net_IP outer), CIDRMask po lo)"
    "length (norm_ip (net_IP outer)) = lo"
    using networkNumberAndMask_wf [OF o] by metis
  obtain li p where ni: "networkNumberAndMask inner = (norm_ip (net_IP inner), CIDRMask p li)"
    "length (norm_ip (net_IP inner)) = li"
    "and_bytes (norm_ip (net_IP inner)) (CIDRMask p li) = norm_ip (net_IP inner)"
    using networkNumberAndMask_wf [OF i] by metis
  have last: "norm_ip (lastAddr inner) = or_not_bytes (norm_ip (net_IP inner)) (CIDRMask p li)"
    using norm_lastAddr [OF i CIDRContains_not_straddling [OF i c] ni(1)] .
  have b: "Contains outer (net_IP inner)" and l: "Contains outer (lastAddr inner)"
    using c by (auto simp: CIDRContains_def split: if_splits)
  have lo: "lo = li" using b no(2) ni(2) by (simp add: Contains_iff_masked [OF no(1)])
  have fixed: "and_bytes (or_not_bytes (norm_ip (net_IP inner)) (CIDRMask p li)) (CIDRMask po lo) =
      and_bytes (norm_ip (net_IP inner)) (CIDRMask po lo)"
    using b l last by (simp add: Contains_iff_masked [OF no(1)])
  have lx: "length (norm_ip x) = li"
    and mx: "and_bytes (norm_ip x) (CIDRMask p li) = and_bytes (norm_ip (net_IP inner)) (CIDRMask p li)"
    using x ni(2) by (simp_all add: Contains_iff_masked [OF ni(1)])
  have "and_bytes (norm_ip x) (CIDRMask po lo) = and_bytes (norm_ip (net_IP inner)) (CIDRMask po lo)"
    by (rule bytes_block_within [OF _ _ _ ni(3) fixed mx]) (simp_all add: ni(2) lx lo)
  with b lx lo no(2) show ?thesis
    by (simp add: Contains_iff_masked [OF no(1)])
qed

lemma byte_last_masked: "(b OR NOT m) AND m = b AND (m :: byte)"
  by (rule bit_word_eqI) (auto simp: bit_simps)

lemma and_or_not_bytes:
  "length bs = length ms \<Longrightarrow> and_bytes (or_not_bytes bs ms) ms = and_bytes bs ms"
  by (rule nth_equalityI) (simp_all add: nth_and_bytes nth_or_not_bytes byte_last_masked)

lemma Contains_lastAddr:
  assumes i: "wf_net n" and s: "\<not> straddles_mapped n"
  shows "Contains n (lastAddr n)"
proof -
  obtain l p where n: "networkNumberAndMask n = (norm_ip (net_IP n), CIDRMask p l)"
    "length (norm_ip (net_IP n)) = l"
    using networkNumberAndMask_wf [OF i] by metis
  have "norm_ip (lastAddr n) = or_not_bytes (norm_ip (net_IP n)) (CIDRMask p l)"
    by (rule norm_lastAddr [OF i s n(1)])
  then show ?thesis
    using n(2) and_or_not_bytes [of "norm_ip (net_IP n)" "CIDRMask p l"]
    by (simp only: Contains_iff_masked [OF n(1)] length_or_not_bytes length_CIDRMask min.idem)
qed

subsection \<open>Host routes\<close>

lemma leading_ones_partial: "n < 8 \<Longrightarrow> leading_ones 8 (NOT (drop_bit n 255)) = (n, 0)"
proof -
  have all: "\<forall>n \<in> set [0..<8]. leading_ones 8 (NOT (drop_bit n 255)) = (n, 0)" by code_simp
  assume "n < 8"
  then show ?thesis using all by simp
qed

lemma simpleMaskLength_CIDRMask: "p \<le> 8 * l \<Longrightarrow> simpleMaskLength (CIDRMask p l) = Some p"
proof (induction p l rule: CIDRMask.induct)
  case (2 p l)
  show ?case
  proof (cases "8 \<le> p")
    case True
    with 2 show ?thesis by simp
  next
    case False
    then show ?thesis
      using leading_ones_partial [of p] full_partial [of p] by (simp add: CIDRMask_0)
  qed
qed simp

lemma IsHostRoute_CIDRMask:
  "p \<le> 8 * l \<Longrightarrow> IsHostRoute \<lparr>net_IP = b, net_Mask = CIDRMask p l\<rparr> \<longleftrightarrow> p = 8 * l"
  by (simp add: IsHostRoute_def mask_Size_def simpleMaskLength_CIDRMask)

lemma CIDRMask_full: "CIDRMask (8 * l) l = replicate l 255"
  by (induction l) auto

lemma and_bytes_full: "length b = l \<Longrightarrow> and_bytes b (replicate l 255) = b"
proof (induction b arbitrary: l)
  case (Cons x xs)
  then show ?case by (cases l) auto
qed simp

lemma HostRoute_v4:
  assumes "length b = 4"
  shows "HostRoute (v4InV6Prefix @ b) = v4_string b @ CHR ''/'' # dec_string 32"
    and "HostRoute b = v4_string b @ CHR ''/'' # dec_string 32"
proof -
  have d: "dec_string 32 = ''32''" by (simp add: dec_string.simps digit_char_def)
  have "b \<noteq> []" using assms by auto
  then show "HostRoute (v4InV6Prefix @ b) = v4_string b @ CHR ''/'' # dec_string 32"
    "HostRoute b = v4_string b @ CHR ''/'' # dec_string 32"
    using assms by (simp_all add: HostRoute_def ip_String_def d To4_def)
qed

text \<open>The host route of an IPv4 address parses, as the network of that one address.\<close>

lemma ParseHostInCIDR_HostRoute_v4:
  assumes "length b = 4"
  shows "ParseHostInCIDR (HostRoute (v4InV6Prefix @ b)) =
     Inr (v4InV6Prefix @ b, \<lparr>net_IP = b, net_Mask = CIDRMask 32 4\<rparr>)"
  using assms net_ParseCIDR_v4_string [OF assms, of 32] and_bytes_full [of b 4]
    CIDRMask_full [of 4]
  by (simp add: ParseHostInCIDR_def HostRoute_v4)

lemma Contains_v4_host:
  assumes "length b = 4"
  shows "Contains \<lparr>net_IP = b, net_Mask = CIDRMask 32 4\<rparr> x \<longleftrightarrow> norm_ip x = b"
proof -
  have m: "CIDRMask 32 4 = replicate 4 255" using CIDRMask_full [of 4] by simp
  have n: "networkNumberAndMask \<lparr>net_IP = b, net_Mask = CIDRMask 32 4\<rparr> = (b, replicate 4 255)"
    using assms m by (simp add: networkNumberAndMask_def To4_def)
  show ?thesis
    using assms and_bytes_full [of "norm_ip x" 4] and_bytes_full [of b 4]
    by (auto simp: Contains_iff_masked [OF n])
qed

section \<open>Properties\<close>

text \<open>
  C13. The overlap test is exact: for two CIDR strings that parse, \<^verbatim>\<open>CIDROverlaps\<close> holds if and
  only if some address lies in both networks, although the code only tests the two base
  addresses.
\<close>

theorem CIDROverlaps_exact:
  assumes "ParseCIDR s = Inr a" and "ParseCIDR t = Inr b"
  shows "CIDROverlaps a b \<longleftrightarrow> {ip. Contains a ip} \<inter> {ip. Contains b ip} \<noteq> {}"
  using CIDROverlaps_shared [OF ParseCIDR_wf [OF assms(1)] ParseCIDR_wf [OF assms(2)]] by blast

definition net_10_0_16 :: IPNet where
  "net_10_0_16 = \<lparr>net_IP = [10, 0, 0, 0], net_Mask = [255, 255, 0, 0]\<rparr>"

definition net_10_0_5_24 :: IPNet where
  "net_10_0_5_24 = \<lparr>net_IP = [10, 0, 5, 0], net_Mask = [255, 255, 255, 0]\<rparr>"

lemma ParseCIDR_example_nets:
  "ParseCIDR ''10.0.0.0/16'' = Inr net_10_0_16"
  "ParseCIDR ''10.0.5.0/24'' = Inr net_10_0_5_24"
  by code_simp+

theorem CIDROverlaps_exact_witness:
  "CIDROverlaps net_10_0_16 net_10_0_5_24 \<longleftrightarrow>
     {ip. Contains net_10_0_16 ip} \<inter> {ip. Contains net_10_0_5_24 ip} \<noteq> {}"
  by (rule CIDROverlaps_exact [OF ParseCIDR_example_nets])

text \<open>
  C12. The containment test is exact: for parsed networks, \<^verbatim>\<open>CIDRContains outer inner\<close> holds if
  and only if every address of \<^verbatim>\<open>inner\<close> is an address of \<^verbatim>\<open>outer\<close>, although the code only
  tests the first and the last address. The one exception is excluded by the third
  hypothesis: an IPv6 block that ends inside the IPv4-mapped range without lying in it.
\<close>

theorem CIDRContains_exact:
  assumes "ParseCIDR s = Inr outer" and "ParseCIDR t = Inr inner" and "\<not> straddles_mapped inner"
  shows "CIDRContains outer inner \<longleftrightarrow> {ip. Contains inner ip} \<subseteq> {ip. Contains outer ip}"
proof -
  have wo: "wf_net outer" and wi: "wf_net inner" using assms(1,2) by (simp_all add: ParseCIDR_wf)
  have "Contains inner (net_IP inner)" "Contains inner (lastAddr inner)"
    using wi assms(3) by (simp_all add: Contains_base Contains_lastAddr)
  then have "CIDRContains outer inner" if "{ip. Contains inner ip} \<subseteq> {ip. Contains outer ip}"
    using that by (simp add: CIDRContains_def subset_iff)
  moreover have "CIDRContains outer inner \<Longrightarrow> {ip. Contains inner ip} \<subseteq> {ip. Contains outer ip}"
    using CIDRContains_sound [OF wo wi] by blast
  ultimately show ?thesis by blast
qed

theorem CIDRContains_exact_witness:
  "CIDRContains net_10_0_16 net_10_0_5_24 \<longleftrightarrow>
     {ip. Contains net_10_0_5_24 ip} \<subseteq> {ip. Contains net_10_0_16 ip}"
proof (rule CIDRContains_exact [OF ParseCIDR_example_nets])
  show "\<not> straddles_mapped net_10_0_5_24"
    by (simp add: straddles_mapped_def net_10_0_5_24_def To4_def)
qed

text \<open>
  At the exception the test is too strict: \<^verbatim>\<open>::/80\<close> lies entirely within \<^verbatim>\<open>::/0\<close>, and
  \<^verbatim>\<open>CIDRContains\<close> answers false.
\<close>

theorem CIDRContains_straddling_incomplete:
  "\<exists>outer inner. ParseCIDR ''::/0'' = Inr outer \<and> ParseCIDR ''::/80'' = Inr inner \<and>
     {ip. Contains inner ip} \<subseteq> {ip. Contains outer ip} \<and> \<not> CIDRContains outer inner"
proof -
  let ?o = "\<lparr>net_IP = replicate 16 0, net_Mask = replicate 16 0\<rparr> :: IPNet"
  let ?i = "\<lparr>net_IP = replicate 16 0, net_Mask = replicate 10 255 @ replicate 6 0\<rparr> :: IPNet"
  have p: "ParseCIDR ''::/0'' = Inr ?o" "ParseCIDR ''::/80'' = Inr ?i" by code_simp+
  have no: "networkNumberAndMask ?o = (replicate 16 0, replicate 16 0)" by code_simp
  have ni: "networkNumberAndMask ?i = (replicate 16 0, replicate 10 255 @ replicate 6 0)" by code_simp
  have z: "and_bytes xs (replicate 16 0) = replicate 16 0" if "length xs = 16" for xs
    using that by (subst and_bytes_comm) (simp add: and_zeros)
  have "{ip. Contains ?i ip} \<subseteq> {ip. Contains ?o ip}"
    by (auto simp: Contains_iff_masked [OF no] Contains_iff_masked [OF ni] z)
  moreover have "\<not> CIDRContains ?o ?i" by code_simp
  ultimately show ?thesis using p by blast
qed

text \<open>
  A host route says what it should: for every IPv4 address that parses, \<^verbatim>\<open>HostRoute\<close> prints
  a CIDR that parses back to the same address and to a network that is a host route and
  contains that address and nothing else.
\<close>

theorem HostRoute_v4_roundtrip:
  assumes "ParseIP s = Some ip" and "To4 ip = Some b"
  shows "\<exists>n. ParseHostInCIDR (HostRoute ip) = Inr (ip, n) \<and> IsHostRoute n \<and>
     {x. Contains n x} = {x. norm_ip x = norm_ip ip}"
proof -
  have b: "length b = 4" and ip: "ip = v4InV6Prefix @ b"
    using assms(2) ParseIP_length [OF assms(1)]
    by (auto simp: To4_def split: if_splits) (metis append_take_drop_id)
  show ?thesis
    using ParseHostInCIDR_HostRoute_v4 [OF b] IsHostRoute_CIDRMask [of 32 4 b] b
    by (auto simp: ip Contains_v4_host)
qed

theorem HostRoute_v4_roundtrip_witness:
  "\<exists>n. ParseHostInCIDR (HostRoute (v4InV6Prefix @ [10, 4, 0, 1])) =
        Inr (v4InV6Prefix @ [10, 4, 0, 1], n) \<and> IsHostRoute n \<and>
     {x. Contains n x} = {x. norm_ip x = norm_ip (v4InV6Prefix @ [10, 4, 0, 1])}"
proof (rule HostRoute_v4_roundtrip)
  show "ParseIP ''10.4.0.1'' = Some (v4InV6Prefix @ [10, 4, 0, 1])" by code_simp
  show "To4 (v4InV6Prefix @ [10, 4, 0, 1]) = Some [10, 4, 0, 1]" by code_simp
qed

end
