(* ===== verification/MeshTypes.thy ===== *)
theory MeshTypes
  imports Netutil
begin

text \<open>
  The data of the operator: the ClusterMesh API (\<^verbatim>\<open>api/v1alpha1\<close>), Kilo's Peer API
  (\<^verbatim>\<open>pkg/kilo/v1alpha1\<close>), the fields of a Kubernetes Node the operator reads, and the label and
  annotation keys. Metadata is kept where the code reads or writes it. These are values,
  on which \<^verbatim>\<open>DeepCopy\<close> is the identity; the objects and their copies are in theory DeepCopy.
\<close>

section \<open>The ClusterMesh API\<close>

record SecretKeyRef =
  ref_Name :: string
  ref_Key :: string

record ClusterEntry =
  entry_Name :: string
  entry_Local :: bool
  entry_KubeconfigSecretRef :: "SecretKeyRef option"
  entry_AllowedNetworks :: "string list"
  entry_WireguardPort :: "16 word"
  entry_PersistentKeepalive :: int

definition AllCIDRs :: "ClusterEntry \<Rightarrow> string list" where
  "AllCIDRs c = entry_AllowedNetworks c"

record ClusterStatus =
  status_Name :: string
  status_RegisteredPeers :: nat
  status_SkippedNodes :: nat

text \<open>A status condition; its message keeps the format and arguments of the text as an \<open>error\<close> value.\<close>

record Condition =
  cond_Type :: string
  cond_Status :: string
  cond_Reason :: string
  cond_Message :: error
  cond_ObservedGeneration :: int

record ClusterMeshStatus =
  ms_Clusters :: "ClusterStatus list"
  ms_Conditions :: "Condition list"

text \<open>A ClusterMesh with the metadata the controller reads: whether a deletion timestamp is set, and its finalizers.\<close>

record ClusterMesh =
  mesh_Name :: string
  mesh_Namespace :: string
  mesh_Generation :: int
  mesh_Deleting :: bool
  mesh_Finalizers :: "string list"
  mesh_Clusters :: "ClusterEntry list"
  mesh_Status :: ClusterMeshStatus

text \<open>A mesh as a user creates it.\<close>

definition new_mesh :: "string \<Rightarrow> string \<Rightarrow> ClusterEntry list \<Rightarrow> ClusterMesh" where
  "new_mesh name namespace clusters = \<lparr>mesh_Name = name, mesh_Namespace = namespace, mesh_Generation = 1,
     mesh_Deleting = False, mesh_Finalizers = [], mesh_Clusters = clusters,
     mesh_Status = \<lparr>ms_Clusters = [], ms_Conditions = []\<rparr>\<rparr>"

lemma new_mesh_simps [simp]:
  "mesh_Name (new_mesh n ns cs) = n" "mesh_Namespace (new_mesh n ns cs) = ns"
  "mesh_Clusters (new_mesh n ns cs) = cs" "mesh_Deleting (new_mesh n ns cs) = False"
  "mesh_Finalizers (new_mesh n ns cs) = []"
  by (simp_all add: new_mesh_def)

section \<open>The Peer API\<close>

record DNSOrIP =
  ep_DNS :: string
  ep_IP :: string

record PeerEndpoint =
  ep_DNSOrIP :: DNSOrIP
  ep_Port :: "32 word"

record PeerSpec =
  AllowedIPs :: "string list"
  Endpoint :: "PeerEndpoint option"
  PersistentKeepalive :: int
  PresharedKey :: string
  PublicKey :: string

record Peer =
  peer_Name :: string
  peer_Labels :: str_map
  peer_ResourceVersion :: string
  peer_Spec :: PeerSpec

section \<open>Nodes\<close>

record NodeAddress =
  addr_Type :: string
  addr_Address :: string

record Node =
  node_Name :: string
  node_Annotations :: str_map
  node_PodCIDRs :: "string list"
  node_Addresses :: "NodeAddress list"

abbreviation NodeInternalIP :: string where "NodeInternalIP \<equiv> ''InternalIP''"
abbreviation NodeExternalIP :: string where "NodeExternalIP \<equiv> ''ExternalIP''"

section \<open>Annotation and label keys\<close>

definition AnnotationWireguardIP :: string where
  "AnnotationWireguardIP = ''kilo.squat.ai/wireguard-ip''"

definition AnnotationPublicKey :: string where
  "AnnotationPublicKey = ''kilo.squat.ai/key''"

definition AnnotationForceEndpoint :: string where
  "AnnotationForceEndpoint = ''kilo.squat.ai/force-endpoint''"

definition AnnotationClustermeshEndpoint :: string where
  "AnnotationClustermeshEndpoint = ''kilo.squat.ai/clustermesh-endpoint''"

definition AnnotationDiscoveredEndpoints :: string where
  "AnnotationDiscoveredEndpoints = ''kilo.squat.ai/discovered-endpoints''"

definition LabelMesh :: string where
  "LabelMesh = ''kilo-clustermesh.io/mesh''"

definition LabelSourceCluster :: string where
  "LabelSourceCluster = ''kilo-clustermesh.io/source-cluster''"

lemma labels_distinct [simp]:
  "LabelMesh \<noteq> LabelSourceCluster" "LabelSourceCluster \<noteq> LabelMesh"
  by (simp_all add: LabelMesh_def LabelSourceCluster_def)

end
