(* ===== verification/GoText.thy ===== *)
theory GoText
  imports GoStrings
begin

text \<open>
  UTF-8 as Go ranges over it: a \<^verbatim>\<open>for _, r := range s\<close> loop yields the runes of a string, and
  U+FFFD with width one at a byte that starts no valid encoding. \<^verbatim>\<open>strings.ToLower\<close> works rune
  by rune; \<open>ToLowerRune\<close> keeps every rune whose lower case is outside ASCII as it is, since the
  operator maps all of those to a dash.
\<close>

definition RuneError :: nat where
  "RuneError = 65533"

definition cont :: "nat \<Rightarrow> nat \<Rightarrow> string \<Rightarrow> nat option" where
  "cont lo hi s = (case s of
       [] \<Rightarrow> None
     | c # _ \<Rightarrow> if lo \<le> of_char c \<and> of_char c \<le> hi then Some (of_char c - 128) else None)"

text \<open>\<^verbatim>\<open>utf8.DecodeRuneInString\<close> on a non-empty string: the rune and its width.\<close>

definition second_range :: "nat \<Rightarrow> nat \<times> nat" where
  "second_range b =
     (if b = 224 then (160, 191) else if b = 237 then (128, 159)
      else if b = 240 then (144, 191) else if b = 244 then (128, 143) else (128, 191))"

definition DecodeRune :: "char \<Rightarrow> string \<Rightarrow> nat \<times> nat" where
  "DecodeRune c s =
     (let b = (of_char c :: nat); (lo, hi) = second_range b in
      if b < 128 then (b, 1)
      else if b < 194 \<or> 244 < b then (RuneError, 1)
      else case cont lo hi s of None \<Rightarrow> (RuneError, 1) | Some b1 \<Rightarrow>
        if b < 224 then ((b - 192) * 64 + b1, 2)
        else case cont 128 191 (drop 1 s) of None \<Rightarrow> (RuneError, 1) | Some b2 \<Rightarrow>
          if b < 240 then ((b - 224) * 4096 + b1 * 64 + b2, 3)
          else case cont 128 191 (drop 2 s) of None \<Rightarrow> (RuneError, 1) | Some b3 \<Rightarrow>
            ((b - 240) * 262144 + b1 * 4096 + b2 * 64 + b3, 4))"

lemma DecodeRune_width: "0 < snd (DecodeRune c s)"
  by (auto simp: DecodeRune_def Let_def split: prod.splits option.splits)

function runes :: "string \<Rightarrow> nat list" where
  "runes [] = []"
| "runes (c # s) = fst (DecodeRune c s) # runes (drop (snd (DecodeRune c s)) (c # s))"
  by pat_completeness auto

termination
  by (relation "measure length") (use DecodeRune_width in auto)

text \<open>
  \<^verbatim>\<open>unicode.ToLower\<close> where its result is an ASCII rune: the ASCII letters, U+0130 (capital I with
  dot above) and U+212A (the Kelvin sign).
\<close>

definition ToLowerRune :: "nat \<Rightarrow> nat" where
  "ToLowerRune r =
     (if 65 \<le> r \<and> r \<le> 90 then r + 32 else if r = 304 then 105 else if r = 8490 then 107 else r)"

lemma runes_ascii: "\<forall>c \<in> set s. of_char c < (128 :: nat) \<Longrightarrow> runes s = map of_char s"
  by (induction s) (simp_all add: DecodeRune_def Let_def split: prod.splits)

lemma length_runes_le: "length (runes s) \<le> length s"
proof (induction s rule: runes.induct)
  case (2 c s)
  then show ?case using DecodeRune_width [of c s] by simp
qed simp

end
