(* ===== verification/GoHash.thy ===== *)
theory GoHash
  imports Prelude
begin

unbundle bit_operations_syntax

text \<open>
  \<^verbatim>\<open>crypto/sha256.Sum256\<close> (FIPS 180-4) and \<^verbatim>\<open>encoding/hex.EncodeToString\<close>, as the operator uses
  them for long Peer names and for the configuration fingerprint.
\<close>

section \<open>SHA-256\<close>

type_synonym u32 = "32 word"

text \<open>
  The constants of the standard by their definition: the first 32 bits of the fractional parts of
  the cube roots of the first 64 primes (round constants) and of the square roots of the first 8
  primes (initial state). \<open>root_bits e k n r\<close> finds the integer \<open>e\<close>-th root of \<open>n\<close> from its bit \<open>k - 1\<close>
  downwards; converting to a word drops the integer part of the root.
\<close>

fun root_bits :: "nat \<Rightarrow> nat \<Rightarrow> nat \<Rightarrow> nat \<Rightarrow> nat" where
  "root_bits e 0 n r = r"
| "root_bits e (Suc k) n r = root_bits e k n (if (r + 2 ^ k) ^ e \<le> n then r + 2 ^ k else r)"

definition root_word :: "nat \<Rightarrow> nat \<Rightarrow> u32" where
  "root_word e p = of_nat (root_bits e 37 (p * 2 ^ (32 * e)) 0)"

definition primes_below :: "nat \<Rightarrow> nat list" where
  "primes_below n = filter (\<lambda>p. list_all (\<lambda>d. p mod d \<noteq> 0) [2..<p]) [2..<n]"

definition sha_K :: "u32 list" where
  "sha_K = map (root_word 3) (primes_below 312)"

type_synonym sha_state = "u32 \<times> u32 \<times> u32 \<times> u32 \<times> u32 \<times> u32 \<times> u32 \<times> u32"

definition sha_init :: sha_state where
  "sha_init = (root_word 2 2, root_word 2 3, root_word 2 5, root_word 2 7,
     root_word 2 11, root_word 2 13, root_word 2 17, root_word 2 19)"

definition small_sigma0 :: "u32 \<Rightarrow> u32" where
  "small_sigma0 x = word_rotr 7 x XOR word_rotr 18 x XOR drop_bit 3 x"

definition small_sigma1 :: "u32 \<Rightarrow> u32" where
  "small_sigma1 x = word_rotr 17 x XOR word_rotr 19 x XOR drop_bit 10 x"

fun sha_schedule :: "nat \<Rightarrow> u32 list \<Rightarrow> u32 list" where
  "sha_schedule 0 ws = ws"
| "sha_schedule (Suc n) ws =
     (let i = length ws
      in sha_schedule n (ws @ [small_sigma1 (ws ! (i - 2)) + ws ! (i - 7) +
           small_sigma0 (ws ! (i - 15)) + ws ! (i - 16)]))"

fun sha_round :: "u32 \<times> u32 \<Rightarrow> sha_state \<Rightarrow> sha_state" where
  "sha_round (k, w) (a, b, c, d, e, f, g, h) =
     (let t1 = h + (word_rotr 6 e XOR word_rotr 11 e XOR word_rotr 25 e) +
            ((e AND f) XOR (NOT e AND g)) + k + w;
          t2 = (word_rotr 2 a XOR word_rotr 13 a XOR word_rotr 22 a) +
            ((a AND b) XOR (a AND c) XOR (b AND c))
      in (t1 + t2, a, b, c, d + t1, e, f, g))"

fun sha_add :: "sha_state \<Rightarrow> sha_state \<Rightarrow> sha_state" where
  "sha_add (a, b, c, d, e, f, g, h) (a', b', c', d', e', f', g', h') =
     (a + a', b + b', c + c', d + d', e + e', f + f', g + g', h + h')"

fun be_words :: "byte list \<Rightarrow> u32 list" where
  "be_words (a # b # c # d # bs) =
     (push_bit 24 (ucast a) OR push_bit 16 (ucast b) OR push_bit 8 (ucast c) OR ucast d) # be_words bs"
| "be_words _ = []"

definition be_bytes :: "u32 \<Rightarrow> byte list" where
  "be_bytes w = [ucast (drop_bit 24 w), ucast (drop_bit 16 w), ucast (drop_bit 8 w), ucast w]"

definition sha_block :: "byte list \<Rightarrow> sha_state \<Rightarrow> sha_state" where
  "sha_block blk st = sha_add st (fold sha_round (zip sha_K (sha_schedule 48 (be_words blk))) st)"

text \<open>The blocks of a padded message, 64 bytes each.\<close>

fun sha_blocks :: "nat \<Rightarrow> byte list \<Rightarrow> sha_state \<Rightarrow> sha_state" where
  "sha_blocks 0 bs st = st"
| "sha_blocks (Suc n) bs st = sha_blocks n (drop 64 bs) (sha_block (take 64 bs) st)"

definition sha_pad :: "byte list \<Rightarrow> byte list" where
  "sha_pad bs =
     (let l = length bs; z = (119 - l mod 64) mod 64; bits = (of_nat (8 * l) :: 64 word)
      in bs @ [128] @ replicate z 0 @
         map (\<lambda>i. ucast (drop_bit (8 * (7 - i)) bits)) [0..<8])"

fun sha_digest :: "sha_state \<Rightarrow> byte list" where
  "sha_digest (a, b, c, d, e, f, g, h) =
     be_bytes a @ be_bytes b @ be_bytes c @ be_bytes d @ be_bytes e @ be_bytes f @ be_bytes g @ be_bytes h"

definition string_bytes :: "string \<Rightarrow> byte list" where
  "string_bytes s = map of_char s"

definition Sum256 :: "string \<Rightarrow> byte list" where
  "Sum256 s = (let bs = sha_pad (string_bytes s) in sha_digest (sha_blocks (length bs div 64) bs sha_init))"

section \<open>Hexadecimal\<close>

definition hex_digit :: "nat \<Rightarrow> char" where
  "hex_digit n = ''0123456789abcdef'' ! n"

definition hex_EncodeToString :: "byte list \<Rightarrow> string" where
  "hex_EncodeToString bs =
     concat (map (\<lambda>b. [hex_digit (unat b div 16), hex_digit (unat b mod 16)]) bs)"

section \<open>Facts\<close>

lemma length_Sum256 [simp]: "length (Sum256 s) = 32"
proof -
  have "length (sha_digest st) = 32" for st
    by (cases st rule: sha_digest.cases) (simp add: be_bytes_def)
  then show ?thesis by (simp add: Sum256_def Let_def)
qed

lemma length_hex_EncodeToString [simp]: "length (hex_EncodeToString bs) = 2 * length bs"
  by (induction bs) (simp_all add: hex_EncodeToString_def)

lemma hex_digit_cases: "n < 16 \<Longrightarrow> hex_digit n \<in> set ''0123456789abcdef''"
  unfolding hex_digit_def by (rule nth_mem) simp

lemma hex_EncodeToString_chars: "set (hex_EncodeToString bs) \<subseteq> set ''0123456789abcdef''"
proof
  fix c assume "c \<in> set (hex_EncodeToString bs)"
  then obtain b where b: "c = hex_digit (unat b div 16) \<or> c = hex_digit (unat (b :: byte) mod 16)"
    by (auto simp: hex_EncodeToString_def)
  have "unat b < 2 ^ LENGTH(8)" by (rule unsigned_less)
  then have "unat b div 16 < 16" by simp
  then show "c \<in> set ''0123456789abcdef''" using b hex_digit_cases [of "unat b mod 16"]
      hex_digit_cases [of "unat b div 16"] by auto
qed

end
