(* ===== verification/PeerNaming.thy ===== *)
theory PeerNaming
  imports MeshTypes GoText GoHash
begin

text \<open>
  Package \<^verbatim>\<open>internal/peer\<close>, file \<^verbatim>\<open>naming.go\<close>: names and labels of the generated Peer objects.
\<close>

section \<open>Operations\<close>

definition maxNameLength :: nat where
  "maxNameLength = 253"

text \<open>The body of the rune loop: the runes that stay, and a dash for every other one.\<close>

definition dns_rune :: "nat \<Rightarrow> bool" where
  "dns_rune r \<longleftrightarrow> (97 \<le> r \<and> r \<le> 122) \<or> (48 \<le> r \<and> r \<le> 57) \<or> r = 46 \<or> r = 45"

definition sanitize_rune :: "nat \<Rightarrow> char" where
  "sanitize_rune r = (if dns_rune r then char_of r else CHR ''-'')"

definition sanitizeDNS :: "string \<Rightarrow> string" where
  "sanitizeDNS input =
     (let lowered = map ToLowerRune (runes input);
          bld = map sanitize_rune lowered;
          result = TrimLeft bld ''-.''
      in TrimRight result ''-.'')"

definition Name :: "string \<Rightarrow> string \<Rightarrow> string \<Rightarrow> string" where
  "Name meshName sourceCluster nodeName =
     (let raw = meshName @ ''--'' @ sourceCluster @ ''--'' @ nodeName;
          sanitized = sanitizeDNS raw
      in if length sanitized \<le> maxNameLength then sanitized
         else let hash = Sum256 raw;
                  hashStr = hex_EncodeToString (take 8 hash);
                  truncated = TrimRight (take (maxNameLength - 17) sanitized) ''-.''
              in truncated @ ''-'' @ hashStr)"

definition Labels :: "string \<Rightarrow> string \<Rightarrow> str_map" where
  "Labels meshName sourceCluster =
     [(LabelMesh, meshName), (LabelSourceCluster, sourceCluster)]"

text \<open>A label selector as the set of required labels, and when an object matches it.\<close>

type_synonym selector = str_map

definition OrphanSelector :: "string \<Rightarrow> string \<Rightarrow> selector" where
  "OrphanSelector meshName sourceCluster = Labels meshName sourceCluster"

section \<open>Facts\<close>

definition dns_char :: "char \<Rightarrow> bool" where
  "dns_char c \<longleftrightarrow> dns_rune (of_char c)"

definition dns_alnum :: "char \<Rightarrow> bool" where
  "dns_alnum c \<longleftrightarrow> dns_char c \<and> c \<noteq> CHR ''-'' \<and> c \<noteq> CHR ''.''"

lemma dns_char_sanitize_rune [simp]: "dns_char (sanitize_rune r)"
proof (cases "dns_rune r")
  case True
  then have "r < 256" by (auto simp: dns_rune_def)
  with True show ?thesis by (simp add: sanitize_rune_def dns_char_def)
next
  case False
  have "dns_char (CHR ''-'')" by (simp add: dns_char_def dns_rune_def)
  with False show ?thesis by (simp add: sanitize_rune_def)
qed

lemma sanitize_rune_id:
  assumes "dns_char c"
  shows "sanitize_rune (ToLowerRune (of_char c)) = c"
proof -
  have "dns_rune (of_char c)" using assms by (simp add: dns_char_def)
  moreover from this have "ToLowerRune (of_char c) = of_char c"
    by (auto simp: dns_rune_def ToLowerRune_def)
  ultimately show ?thesis by (simp add: sanitize_rune_def)
qed

lemma dns_char_ascii: "dns_char c \<Longrightarrow> of_char c < (128 :: nat)"
  by (auto simp: dns_char_def dns_rune_def)

lemma runes_dns: "\<forall>c \<in> set s. dns_char c \<Longrightarrow> map sanitize_rune (map ToLowerRune (runes s)) = s"
  by (subst runes_ascii) (auto simp: dns_char_ascii sanitize_rune_id intro: map_idI)

lemma set_sanitizeDNS: "c \<in> set (sanitizeDNS s) \<Longrightarrow> dns_char c"
  using set_TrimLeft_subset set_TrimRight_subset
  by (fastforce simp: sanitizeDNS_def Let_def)

lemma hd_sanitizeDNS: "sanitizeDNS s \<noteq> [] \<Longrightarrow> dns_alnum (hd (sanitizeDNS s))"
proof -
  assume ne: "sanitizeDNS s \<noteq> []"
  let ?b = "TrimLeft (map sanitize_rune (map ToLowerRune (runes s))) ''-.''"
  have s: "sanitizeDNS s = TrimRight ?b ''-.''" by (simp add: sanitizeDNS_def Let_def)
  have "?b \<noteq> []" using ne s by (auto simp: TrimRight_def)
  then have "hd ?b \<notin> set ''-.''" by (rule hd_TrimLeft)
  moreover have "hd (sanitizeDNS s) = hd ?b" using ne s hd_TrimRight by simp
  moreover have "dns_char (hd (sanitizeDNS s))" using ne by (intro set_sanitizeDNS [of _ s]) simp
  ultimately show ?thesis by (auto simp: dns_alnum_def)
qed

lemma last_sanitizeDNS: "sanitizeDNS s \<noteq> [] \<Longrightarrow> dns_alnum (last (sanitizeDNS s))"
proof -
  assume ne: "sanitizeDNS s \<noteq> []"
  then have "last (sanitizeDNS s) \<notin> set ''-.''"
    unfolding sanitizeDNS_def Let_def by (rule last_TrimRight)
  moreover have "dns_char (last (sanitizeDNS s))" using ne by (intro set_sanitizeDNS [of _ s]) simp
  ultimately show ?thesis by (auto simp: dns_alnum_def)
qed

lemma sanitizeDNS_id:
  assumes "\<forall>c \<in> set s. dns_char c" and "s \<noteq> [] \<longrightarrow> dns_alnum (hd s) \<and> dns_alnum (last s)"
  shows "sanitizeDNS s = s"
  using assms(2)
  by (cases "s = []")
    (auto simp: sanitizeDNS_def Let_def runes_dns [OF assms(1), simplified] TrimLeft_id TrimRight_id dns_alnum_def)

lemma hex_dns: "c \<in> set (hex_EncodeToString bs) \<Longrightarrow> dns_alnum c"
proof -
  assume "c \<in> set (hex_EncodeToString bs)"
  then have "c \<in> set ''0123456789abcdef''" using hex_EncodeToString_chars by blast
  then show ?thesis by (auto simp: dns_alnum_def dns_char_def dns_rune_def)
qed

lemma TrimRight_nonempty: "s \<noteq> [] \<Longrightarrow> hd s \<notin> set cs \<Longrightarrow> TrimRight s cs \<noteq> []"
  by (cases s) (auto simp: TrimRight_def dropWhile_append)

text \<open>
  A byte that is a letter or digit at the front survives, so the result is not empty.
\<close>

lemma sanitizeDNS_Cons_nonempty: "dns_alnum c \<Longrightarrow> sanitizeDNS (c # s) \<noteq> []"
proof -
  assume c: "dns_alnum c"
  then have asc: "of_char c < (128 :: nat)" and d: "dns_char c"
    by (auto simp: dns_alnum_def dns_char_ascii)
  obtain rest where r: "runes (c # s) = of_char c # rest"
    using asc by (simp add: DecodeRune_def Let_def split: prod.splits)
  have "TrimLeft (map sanitize_rune (map ToLowerRune (runes (c # s)))) ''-.'' =
      c # map sanitize_rune (map ToLowerRune rest)"
    using c d unfolding r by (simp add: TrimLeft_def sanitize_rune_id dns_alnum_def)
  then have e: "sanitizeDNS (c # s) = TrimRight (c # map sanitize_rune (map ToLowerRune rest)) ''-.''"
    by (simp only: sanitizeDNS_def Let_def)
  show ?thesis unfolding e by (rule TrimRight_nonempty) (use c in \<open>auto simp: dns_alnum_def\<close>)
qed

text \<open>The two segments before the node name must not contain the separator, nor end in a dash.\<close>

fun sepfree :: "string \<Rightarrow> bool" where
  "sepfree [] = True"
| "sepfree [c] = (c \<noteq> CHR ''-'')"
| "sepfree (a # b # s) = (\<not> (a = CHR ''-'' \<and> b = CHR ''-'') \<and> sepfree (b # s))"

lemma sepfree_Cons: "sepfree (c # s) \<Longrightarrow> sepfree s"
  by (cases s) auto

lemma sepfree_split:
  "sepfree m \<Longrightarrow> sepfree m' \<Longrightarrow> m @ ''--'' @ x = m' @ ''--'' @ x' \<Longrightarrow> m = m' \<and> x = x'"
proof (induction m arbitrary: m')
  case Nil
  then show ?case by (cases m' rule: sepfree.cases) auto
next
  case (Cons c m)
  show ?case
  proof (cases m')
    case Nil
    with Cons.prems show ?thesis by (cases m) auto
  next
    case (Cons d m'')
    then show ?thesis
      using Cons.prems Cons.IH [of m''] Cons sepfree_Cons by auto
  qed
qed

definition valid_name :: "string \<Rightarrow> bool" where
  "valid_name s \<longleftrightarrow> s \<noteq> [] \<and> (\<forall>c \<in> set s. dns_char c) \<and> dns_alnum (hd s) \<and> dns_alnum (last s)"

definition raw_name :: "string \<Rightarrow> string \<Rightarrow> string \<Rightarrow> string" where
  "raw_name m s k = m @ ''--'' @ s @ ''--'' @ k"

lemma dns_char_dash [simp]: "dns_char (CHR ''-'')" "dns_char (CHR ''.'')"
  by (simp_all add: dns_char_def dns_rune_def)

lemma sanitizeDNS_raw_name:
  assumes "valid_name m" "valid_name s" "valid_name k"
  shows "sanitizeDNS (raw_name m s k) = raw_name m s k"
proof (rule sanitizeDNS_id)
  show "\<forall>c \<in> set (raw_name m s k). dns_char c"
    using assms by (auto simp: raw_name_def valid_name_def)
  show "raw_name m s k \<noteq> [] \<longrightarrow> dns_alnum (hd (raw_name m s k)) \<and> dns_alnum (last (raw_name m s k))"
    using assms by (auto simp: raw_name_def valid_name_def)
qed

lemma Name_raw:
  assumes "valid_name m" "valid_name s" "valid_name k" "length (raw_name m s k) \<le> maxNameLength"
  shows "Name m s k = raw_name m s k"
  using assms sanitizeDNS_raw_name [of m s k] by (simp add: Name_def Let_def raw_name_def)

text \<open>Within one mesh and one source cluster, different nodes get different names.\<close>

lemma Name_same_pair:
  assumes "valid_name m" "valid_name s" "valid_name k" "valid_name k'"
    and "length (raw_name m s k) \<le> maxNameLength" "length (raw_name m s k') \<le> maxNameLength"
  shows "Name m s k = Name m s k' \<longleftrightarrow> k = k'"
  using assms by (auto simp: Name_raw) (simp add: raw_name_def)

text \<open>
  A DNS-1123 subdomain, as the API server wants the name of an object: the labels between the
  dots are not empty, consist of lower-case letters, digits and dashes, and start and end with
  a letter or digit. Its length is bounded separately.
\<close>

fun dns_labels :: "string \<Rightarrow> string list" where
  "dns_labels [] = [[]]"
| "dns_labels (c # s) =
     (if c = CHR ''.'' then [] # dns_labels s
      else case dns_labels s of [] \<Rightarrow> [[c]] | l # ls \<Rightarrow> (c # l) # ls)"

definition dns_label :: "string \<Rightarrow> bool" where
  "dns_label l \<longleftrightarrow> l \<noteq> [] \<and> list_all (\<lambda>c. dns_alnum c \<or> c = CHR ''-'') l \<and>
     dns_alnum (hd l) \<and> dns_alnum (last l)"

definition dns_subdomain :: "string \<Rightarrow> bool" where
  "dns_subdomain s \<longleftrightarrow> list_all dns_label (dns_labels s)"

text \<open>The same, said of neighbouring characters: both neighbours of a dot are letters or digits.\<close>

definition dot_ok :: "char \<Rightarrow> char \<Rightarrow> bool" where
  "dot_ok a b \<longleftrightarrow> (a = CHR ''.'' \<longrightarrow> dns_alnum b) \<and> (b = CHR ''.'' \<longrightarrow> dns_alnum a)"

definition label_end :: "string \<Rightarrow> bool" where
  "label_end l \<longleftrightarrow> l \<noteq> [] \<and> list_all (\<lambda>c. dns_alnum c \<or> c = CHR ''-'') l \<and> dns_alnum (last l)"

lemma dns_label_iff: "dns_label l \<longleftrightarrow> label_end l \<and> dns_alnum (hd l)"
  by (auto simp: dns_label_def label_end_def)

lemma dns_labels_nonempty [simp]: "dns_labels s \<noteq> []"
  by (cases s) (auto split: list.splits)

lemma dns_labels_Cons:
  "dns_labels (c # s) =
     (if c = CHR ''.'' then [] # dns_labels s else (c # hd (dns_labels s)) # tl (dns_labels s))"
  by (cases "dns_labels s") auto

declare dns_labels.simps(2) [simp del] dns_labels_Cons [simp]

lemma dns_alnum_dot [simp]: "\<not> dns_alnum (CHR ''.'')" "\<not> dns_alnum (CHR ''-'')"
  by (simp_all add: dns_alnum_def)

lemma dns_alnum_char: "dns_alnum c \<Longrightarrow> dns_char c"
  by (simp add: dns_alnum_def)

lemma dns_alnum_neq_dot: "dns_alnum c \<Longrightarrow> c \<noteq> CHR ''.''"
  by (simp add: dns_alnum_def)

lemma hd_dns_labels: "s \<noteq> [] \<Longrightarrow> hd s \<noteq> CHR ''.'' \<Longrightarrow> hd (hd (dns_labels s)) = hd s"
  by (cases s) auto

lemma label_chars: "c \<noteq> CHR ''.'' \<Longrightarrow> dns_char c \<longleftrightarrow> dns_alnum c \<or> c = CHR ''-''"
  by (auto simp: dns_alnum_def)

lemma all_labels_iff:
  "label_end (hd (dns_labels s)) \<and> list_all dns_label (tl (dns_labels s)) \<longleftrightarrow>
     s \<noteq> [] \<and> list_all dns_char s \<and> hd s \<noteq> CHR ''.'' \<and> dns_alnum (last s) \<and> successively dot_ok s"
proof (induction s rule: induct_list012)
  case 1
  then show ?case by (simp add: label_end_def)
next
  case (2 c)
  then show ?case by (auto simp: label_end_def label_chars)
next
  case (3 c d s)
  show ?case
  proof (cases "c = CHR ''.''")
    case True
    then show ?thesis by (simp add: label_end_def)
  next
    case c: False
    show ?thesis
    proof (cases "d = CHR ''.''")
      case False
      let ?l = "hd (dns_labels s)" and ?ls = "tl (dns_labels s)"
      have "label_end (c # d # ?l) \<longleftrightarrow> dns_char c \<and> label_end (d # ?l)"
        using c by (simp add: label_end_def label_chars)
      then show ?thesis
        using 3(2) c False by (simp add: dot_ok_def)
    next
      case True
      have split: "list_all dns_label (dns_labels s) \<longleftrightarrow>
          dns_alnum (hd (hd (dns_labels s))) \<and> label_end (hd (dns_labels s)) \<and> list_all dns_label (tl (dns_labels s))"
        by (cases "dns_labels s") (auto simp: dns_label_iff)
      have "list_all dns_label (dns_labels s) \<longleftrightarrow> s \<noteq> [] \<and> list_all dns_char s \<and> dns_alnum (hd s) \<and>
          dns_alnum (last s) \<and> successively dot_ok s"
        using 3(1) hd_dns_labels [of s] unfolding split by auto
      moreover have "dns_labels (c # d # s) = [c] # dns_labels s" using c True by simp
      ultimately show ?thesis
        using c True by (cases s) (auto simp: label_end_def dot_ok_def label_chars dns_alnum_char)
    qed
  qed
qed

lemma dns_subdomain_iff: "dns_subdomain s \<longleftrightarrow> valid_name s \<and> successively dot_ok s"
proof -
  have "dns_subdomain s \<longleftrightarrow> dns_alnum (hd (hd (dns_labels s))) \<and>
      label_end (hd (dns_labels s)) \<and> list_all dns_label (tl (dns_labels s))"
    unfolding dns_subdomain_def by (cases "dns_labels s") (auto simp: dns_label_iff)
  then show ?thesis
    unfolding all_labels_iff using hd_dns_labels [of s] dns_alnum_neq_dot [of "hd s"] by (auto simp: valid_name_def list_all_iff)
qed

lemma raw_name_dots:
  assumes "dns_subdomain m" "dns_subdomain s" "dns_subdomain k"
  shows "successively dot_ok (raw_name m s k)"
  using assms
  by (auto simp: dns_subdomain_iff valid_name_def raw_name_def successively_append_iff successively_Cons dot_ok_def)

text \<open>A prefix that ends in a letter or digit, and a suffix of letters and digits behind a dash.\<close>

lemma truncated_subdomain:
  assumes "dns_subdomain (t @ u)" and "t \<noteq> []" "dns_alnum (last t)"
    and "h \<noteq> []" "\<forall>c \<in> set h. dns_alnum c"
  shows "dns_subdomain (t @ ''-'' @ h)"
proof -
  have "successively dot_ok h"
    using assms(5) by (induction h rule: induct_list012) (auto simp: dot_ok_def)
  moreover have "dot_ok (last t) (CHR ''-'')" "dot_ok (CHR ''-'') (hd h)"
    using dns_alnum_neq_dot [OF assms(3)] dns_alnum_neq_dot [of "hd h"] hd_in_set [OF assms(4)] assms(5)
    by (simp_all add: dot_ok_def)
  ultimately have "successively dot_ok (t @ ''-'' @ h)"
    using assms by (auto simp: dns_subdomain_iff successively_append_iff successively_Cons)
  moreover have "valid_name (t @ ''-'' @ h)"
    using assms by (auto simp: dns_subdomain_iff valid_name_def dns_alnum_char)
  ultimately show ?thesis by (simp add: dns_subdomain_iff)
qed

lemma Name_subdomain:
  assumes "dns_subdomain m" "dns_subdomain s" "dns_subdomain k"
  shows "dns_subdomain (Name m s k)"
proof -
  have v: "valid_name m" "valid_name s" "valid_name k" using assms by (simp_all add: dns_subdomain_iff)
  have raw: "dns_subdomain (raw_name m s k)"
    using raw_name_dots [OF assms] v by (auto simp: dns_subdomain_iff valid_name_def raw_name_def)
  show ?thesis
  proof (cases "length (raw_name m s k) \<le> maxNameLength")
    case True
    with raw v show ?thesis by (simp add: Name_raw)
  next
    case False
    let ?p = "take (maxNameLength - 17) (raw_name m s k)"
    let ?t = "TrimRight ?p ''-.''"
    let ?h = "hex_EncodeToString (take 8 (Sum256 (raw_name m s k)))"
    have n: "Name m s k = ?t @ ''-'' @ ?h"
      using False sanitizeDNS_raw_name [OF v] by (simp add: Name_def Let_def raw_name_def)
    obtain u where p: "?p = ?t @ u" using TrimRight_prefix by metis
    then have u: "raw_name m s k = ?t @ u @ drop (maxNameLength - 17) (raw_name m s k)"
      by (metis append.assoc append_take_drop_id)
    have "?p \<noteq> []" "hd ?p \<notin> set ''-.''"
      using raw False by (auto simp: dns_subdomain_iff valid_name_def maxNameLength_def dns_alnum_def)
    then have t: "?t \<noteq> []" by (rule TrimRight_nonempty)
    have "last ?t \<in> set (raw_name m s k)" using t u by (metis UnI1 last_in_set set_append)
    then have "dns_char (last ?t)" using raw by (auto simp: dns_subdomain_iff valid_name_def)
    with last_TrimRight [OF t] have "dns_alnum (last ?t)" by (auto simp: dns_alnum_def)
    moreover have "length ?h = 16" by simp
    then have "?h \<noteq> []" by (metis length_0_conv zero_neq_numeral)
    ultimately show ?thesis
      unfolding n using raw t hex_dns u by (intro truncated_subdomain [of _ "u @ drop (maxNameLength - 17) (raw_name m s k)"]) auto
  qed
qed

lemma Name_shape:
  assumes "meshName = c # rest" and "dns_alnum c"
  shows "Name meshName sourceCluster nodeName \<noteq> [] \<and>
     length (Name meshName sourceCluster nodeName) \<le> maxNameLength \<and>
     list_all dns_char (Name meshName sourceCluster nodeName) \<and>
     dns_alnum (hd (Name meshName sourceCluster nodeName)) \<and>
     dns_alnum (last (Name meshName sourceCluster nodeName))"
proof -
  let ?raw = "meshName @ ''--'' @ sourceCluster @ ''--'' @ nodeName"
  let ?san = "sanitizeDNS ?raw"
  let ?hash = "hex_EncodeToString (take 8 (Sum256 ?raw))"
  let ?tr = "TrimRight (take (maxNameLength - 17) ?san) ''-.''"
  have ne: "?san \<noteq> []" using assms sanitizeDNS_Cons_nonempty by simp
  show ?thesis
  proof (cases "length ?san \<le> maxNameLength")
    case True
    then have "Name meshName sourceCluster nodeName = ?san" by (simp add: Name_def Let_def)
    with True ne hd_sanitizeDNS last_sanitizeDNS show ?thesis
      by (simp add: list_all_iff) (metis set_sanitizeDNS)
  next
    case False
    then have n: "Name meshName sourceCluster nodeName = ?tr @ ''-'' @ ?hash"
      by (simp add: Name_def Let_def)
    have take: "take (maxNameLength - 17) ?san \<noteq> []" "hd (take (maxNameLength - 17) ?san) = hd ?san"
      using ne by (simp_all add: maxNameLength_def)
    have hd_ok: "hd ?san \<notin> set ''-.''" using hd_sanitizeDNS [OF ne] by (simp add: dns_alnum_def)
    have tr: "?tr \<noteq> []" using TrimRight_nonempty take hd_ok by metis
    have hd_tr: "hd ?tr = hd ?san" using hd_TrimRight [OF tr] take by simp
    have len: "length ?tr \<le> 236"
      using length_TrimRight_le [of "take (maxNameLength - 17) ?san" "''-.''"]
      by (simp add: maxNameLength_def)
    have hash: "length ?hash = 16" by simp
    then have "?hash \<noteq> []" by (metis length_0_conv zero_neq_numeral)
    have tr_chars: "\<forall>x \<in> set ?tr. dns_char x"
      using set_TrimRight_subset set_sanitizeDNS by (metis in_set_takeD subsetD)
    have hash_chars: "\<forall>x \<in> set ?hash. dns_alnum x" using hex_dns by blast
    have last: "last (?tr @ ''-'' @ ?hash) = last ?hash" "last ?hash \<in> set ?hash"
      using \<open>?hash \<noteq> []\<close> by simp_all
    have "list_all dns_char (?tr @ ''-'' @ ?hash)"
      using tr_chars hash_chars unfolding list_all_iff dns_alnum_def by auto
    moreover have "length (?tr @ ''-'' @ ?hash) \<le> maxNameLength"
      using len hash unfolding maxNameLength_def by simp
    moreover have "dns_alnum (hd (?tr @ ''-'' @ ?hash))"
      using tr hd_tr hd_sanitizeDNS [OF ne] by simp
    moreover have "dns_alnum (last (?tr @ ''-'' @ ?hash))"
      using last hash_chars by metis
    ultimately show ?thesis unfolding n by simp
  qed
qed

section \<open>Properties\<close>

text \<open>
  C27. The shape of every generated Peer name. Whatever the cluster and node names are, as long as
  the mesh name starts with a lower-case letter or digit, the name is not empty, has at most 253
  bytes, consists of lower-case letters, digits, dots and dashes, and has a letter or digit at
  both ends, also when it is truncated and hashed. If mesh, cluster and node names are DNS-1123
  subdomains (as the API server admits them), so is the Peer name: every label between its
  dots is not empty and starts and ends with a letter or digit. For other names a label inside
  may start or end with a dash.
\<close>

theorem Name_wellformed:
  assumes "meshName = c # rest" and "dns_alnum c"
  shows "Name meshName sourceCluster nodeName \<noteq> [] \<and>
     length (Name meshName sourceCluster nodeName) \<le> maxNameLength \<and>
     list_all dns_char (Name meshName sourceCluster nodeName) \<and>
     dns_alnum (hd (Name meshName sourceCluster nodeName)) \<and>
     dns_alnum (last (Name meshName sourceCluster nodeName)) \<and>
     (dns_subdomain meshName \<and> dns_subdomain sourceCluster \<and> dns_subdomain nodeName \<longrightarrow>
        dns_subdomain (Name meshName sourceCluster nodeName))"
  using Name_shape [OF assms, of sourceCluster nodeName]
    Name_subdomain [of meshName sourceCluster nodeName] by blast

theorem Name_wellformed_witness:
  "dns_subdomain (Name ''m'' ''tenant-a'' ''n1.example'') \<and>
   dns_labels (Name ''m'' ''tenant-a'' ''n1.example'') = [''m--tenant-a--n1'', ''example''] \<and>
   length (Name ''m'' ''tenant-a'' ''n1.example'') \<le> maxNameLength"
proof -
  have sub: "dns_subdomain ''m''" "dns_subdomain ''tenant-a''" "dns_subdomain ''n1.example''"
    and c: "dns_alnum (CHR ''m'')"
    by (simp_all add: dns_subdomain_def dns_label_def dns_alnum_def dns_char_def dns_rune_def)
  have "dns_labels (Name ''m'' ''tenant-a'' ''n1.example'') = [''m--tenant-a--n1'', ''example'']"
    by code_simp
  with Name_wellformed [OF refl c, of "[]" "''tenant-a''" "''n1.example''"] sub
  show ?thesis by blast
qed

text \<open>
  The restriction is needed: the underscore of the node name \<^verbatim>\<open>a._b\<close> becomes a dash at the start of
  a label, so the name is no DNS-1123 subdomain.
\<close>

lemma sanitized_label_invalid:
  "dns_labels (Name ''m'' ''c'' ''a._b'') = [''m--c--a'', ''-b''] \<and> \<not> dns_subdomain (Name ''m'' ''c'' ''a._b'')"
  by code_simp

text \<open>
  C28. Peer names are unique for well-behaved names: if mesh, cluster and node names are
  Kubernetes names, the mesh and cluster names do not contain the separator \<^verbatim>\<open>--\<close>, and the
  joined names fit in 253 bytes, then two Peer names are equal exactly when they come from the
  same mesh, the same cluster and the same node.
\<close>

theorem Name_injective:
  assumes "valid_name m" "valid_name s" "valid_name k" "valid_name m'" "valid_name s'" "valid_name k'"
    and "sepfree m" "sepfree s" "sepfree m'" "sepfree s'"
    and "length (raw_name m s k) \<le> maxNameLength" "length (raw_name m' s' k') \<le> maxNameLength"
  shows "Name m s k = Name m' s' k' \<longleftrightarrow> m = m' \<and> s = s' \<and> k = k'"
proof
  assume eq: "Name m s k = Name m' s' k'"
  with assms have "raw_name m s k = raw_name m' s' k'" by (metis Name_raw)
  then have "m @ ''--'' @ (s @ ''--'' @ k) = m' @ ''--'' @ (s' @ ''--'' @ k')"
    by (simp add: raw_name_def)
  then have "m = m' \<and> s @ ''--'' @ k = s' @ ''--'' @ k'" by (rule sepfree_split [OF assms(7,9)])
  then have "m = m'" "s @ ''--'' @ k = s' @ ''--'' @ k'" by blast+
  with sepfree_split [OF assms(8,10) this(2)] show "m = m' \<and> s = s' \<and> k = k'" by blast
qed simp

theorem Name_injective_witness:
  "Name ''mesh'' ''a'' ''n1'' = Name ''mesh'' ''a'' ''n2'' \<longleftrightarrow>
     ''mesh'' = ''mesh'' \<and> ''a'' = ''a'' \<and> ''n1'' = ''n2''"
  by (rule Name_injective)
    (simp_all add: valid_name_def dns_alnum_def dns_char_def dns_rune_def raw_name_def maxNameLength_def)

text \<open>
  Without that restriction names collide: the CRD admits cluster names with two dashes, and
  the nodes \<^verbatim>\<open>b--c\<close> of cluster \<^verbatim>\<open>a\<close> and \<^verbatim>\<open>c\<close> of cluster \<^verbatim>\<open>a--b\<close> get the same Peer name, although
  all four names are valid.
\<close>

theorem Name_not_unique:
  "Name ''m'' ''a'' ''b--c'' = Name ''m'' ''a--b'' ''c'' \<and>
   valid_name ''a'' \<and> valid_name ''b--c'' \<and> valid_name ''a--b'' \<and> valid_name ''c''"
proof
  show "Name ''m'' ''a'' ''b--c'' = Name ''m'' ''a--b'' ''c''" by (simp add: Name_def)
  show "valid_name ''a'' \<and> valid_name ''b--c'' \<and> valid_name ''a--b'' \<and> valid_name ''c''"
    by (simp add: valid_name_def dns_alnum_def dns_char_def dns_rune_def)
qed

end
