(* ===== verification/Kilonode.thy ===== *)
theory Kilonode
  imports MeshTypes
begin

text \<open>
  Package \<^verbatim>\<open>internal/kilonode\<close>, file \<^verbatim>\<open>endpoint.go\<close>: the WireGuard endpoint of a node, from the
  two annotations and the external addresses, in that order of priority.
\<close>

section \<open>Operations\<close>

definition DefaultWireguardPort :: "16 word" where
  "DefaultWireguardPort = 51820"

definition validateHostPort :: "string \<Rightarrow> error option" where
  "validateHostPort s =
     (case SplitHostPort s of
        Inl err \<Rightarrow> Some (Wrapf err ''not a valid host:port'' [])
      | Inr (host, portStr) \<Rightarrow>
          (if host = '''' then Some (Newf ''host part is empty'' [])
           else case ParseUint portStr 16 of
             Inl err \<Rightarrow> Some (Wrapf err ''port %q is not a valid uint16'' [portStr])
           | Inr port \<Rightarrow>
               (if port = 0 then Some (Newf ''port must be non-zero'' []) else None)))"

text \<open>The loop of \<^verbatim>\<open>resolveFromExternalIPs\<close>, with the first IPv6 address seen so far.\<close>

fun external_ip_loop :: "string \<Rightarrow> string \<Rightarrow> NodeAddress list \<Rightarrow> string option" where
  "external_ip_loop portStr firstIPv6 [] =
     (if firstIPv6 \<noteq> '''' then Some (JoinHostPort firstIPv6 portStr) else None)"
| "external_ip_loop portStr firstIPv6 (addr # addrs) =
     (if addr_Type addr \<noteq> NodeExternalIP then external_ip_loop portStr firstIPv6 addrs
      else case ParseIP (addr_Address addr) of
        None \<Rightarrow> external_ip_loop portStr firstIPv6 addrs
      | Some parsedIP \<Rightarrow>
          (if To4 parsedIP \<noteq> None then Some (JoinHostPort (addr_Address addr) portStr)
           else if firstIPv6 = '''' then external_ip_loop portStr (addr_Address addr) addrs
           else external_ip_loop portStr firstIPv6 addrs))"

definition resolveFromExternalIPs :: "NodeAddress list \<Rightarrow> 16 word \<Rightarrow> string option" where
  "resolveFromExternalIPs addresses port = external_ip_loop (dec_string (unat port)) '''' addresses"

text \<open>
  \<^verbatim>\<open>ResolveEndpoint\<close>: an error, no endpoint (\<open>None\<close>, the Go result \<^verbatim>\<open>("", false, nil)\<close>), or the
  endpoint text.
\<close>

definition annotation_endpoint :: "Node \<Rightarrow> string \<Rightarrow> (error + string) option" where
  "annotation_endpoint node key =
     (case map_of (node_Annotations node) key of
        None \<Rightarrow> None
      | Some val \<Rightarrow>
          (if val = '''' then None
           else case validateHostPort val of
             Some err \<Rightarrow> Some (Inl (Wrapf err ''annotation %q on node %q has invalid value %q''
               [key, node_Name node, val]))
           | None \<Rightarrow> Some (Inr val)))"

definition ResolveEndpoint :: "Node \<Rightarrow> 16 word \<Rightarrow> error + string option" where
  "ResolveEndpoint node fallbackPort =
     (case annotation_endpoint node AnnotationClustermeshEndpoint of
        Some (Inl err) \<Rightarrow> Inl err
      | Some (Inr val) \<Rightarrow> Inr (Some val)
      | None \<Rightarrow>
          (case annotation_endpoint node AnnotationForceEndpoint of
             Some (Inl err) \<Rightarrow> Inl err
           | Some (Inr val) \<Rightarrow> Inr (Some val)
           | None \<Rightarrow>
               (let port = (if fallbackPort = 0 then DefaultWireguardPort else fallbackPort)
                in Inr (resolveFromExternalIPs (node_Addresses node) port))))"

section \<open>The bytes of an address that parses\<close>

definition addr_char :: "char \<Rightarrow> bool" where
  "addr_char c \<longleftrightarrow> is_hex c \<or> c = CHR ''.'' \<or> c = CHR '':''"

lemma parseIPv4Fields_chars:
  "parseIPv4Fields v d os s = Some b \<Longrightarrow> \<forall>c \<in> set s. addr_char c"
  by (induction v d os s rule: parseIPv4Fields.induct)
    (auto simp: addr_char_def is_hex_def split: if_splits)

lemma hex_split: "s = takeWhile is_hex s @ dropWhile is_hex s"
  by simp

lemma parseIPv6Groups_chars:
  "parseIPv6Groups n ip ell s = Some (ip', ell', []) \<Longrightarrow> \<forall>c \<in> set s. addr_char c"
proof (induction n arbitrary: ip ell s)
  case 0
  then show ?case by simp
next
  case (Suc n)
  have hex: "\<forall>c \<in> set (takeWhile is_hex s). addr_char c"
    by (auto simp: addr_char_def dest: set_takeWhileD)
  have "parseIPv4Fields 0 0 [] s \<noteq> None \<or> (\<forall>c \<in> set (dropWhile is_hex s). addr_char c)"
  proof (cases "dropWhile is_hex s")
    case Nil
    then show ?thesis by (simp only: Nil list.set ball_empty simp_thms)
  next
    case (Cons c s')
    then show ?thesis
      using Suc.prems
      by (cases s') (auto simp: Let_def addr_char_def split: if_splits option.splits dest!: Suc.IH)
  qed
  then show ?case
  proof
    assume "parseIPv4Fields 0 0 [] s \<noteq> None"
    then show ?thesis using parseIPv4Fields_chars by fastforce
  next
    assume "\<forall>c \<in> set (dropWhile is_hex s). addr_char c"
    with hex show ?thesis by (subst hex_split) (auto simp del: takeWhile_dropWhile_id)
  qed
qed

lemma parseIPv6Body_chars: "parseIPv6Body s = Some b \<Longrightarrow> \<forall>c \<in> set s. addr_char c"
proof -
  assume p: "parseIPv6Body s = Some b"
  show ?thesis
  proof (cases "take 2 s = ''::''")
    case True
    then have s: "s = ''::'' @ drop 2 s" by (metis append_take_drop_id)
    have "\<forall>c \<in> set (drop 2 s). addr_char c"
      using p True parseIPv6Groups_chars
      by (fastforce simp: parseIPv6Body_def Let_def split: if_splits option.splits prod.splits)
    with s show ?thesis by (metis addr_char_def append_Cons append_Nil set_ConsD)
  next
    case False
    with p parseIPv6Groups_chars show ?thesis
      by (fastforce simp: parseIPv6Body_def Let_def split: if_splits option.splits prod.splits)
  qed
qed

lemma ParseAddr_chars:
  assumes "ParseAddr s = Some a" and "addr_zone a = ''''"
  shows "\<forall>c \<in> set s. addr_char c"
proof -
  have "parse_addr_scan s t = Some a \<Longrightarrow> ?thesis" for t
    using assms(2)
    by (induction t)
      (auto split: if_splits option.splits simp: parseIPv6_def
        dest: parseIPv4Fields_chars parseIPv6Body_chars)
  with assms(1) show ?thesis by (simp add: ParseAddr_def)
qed

lemma addr_char_plain: "addr_char c \<Longrightarrow> c \<noteq> CHR ''['' \<and> c \<noteq> CHR '']'' \<and> c \<noteq> CHR ''/''"
  by (auto simp: addr_char_def is_hex_def is_digit_def)

lemma ParseIP_chars: "ParseIP s = Some ip \<Longrightarrow> \<forall>c \<in> set s. addr_char c"
  by (auto simp: ParseIP_def dest: ParseAddr_chars split: option.splits if_splits)

lemma ParseIP_nonempty: "ParseIP s = Some ip \<Longrightarrow> s \<noteq> []"
  by (auto simp: ParseIP_def ParseAddr_def)

lemma ParseIP_no_brackets:
  "ParseIP s = Some ip \<Longrightarrow> CHR ''['' \<notin> set s \<and> CHR '']'' \<notin> set s"
  using ParseIP_chars addr_char_plain by blast

section \<open>Endpoints\<close>

lemma validateHostPort_None_iff:
  "validateHostPort s = None \<longleftrightarrow>
     (\<exists>host portStr port. SplitHostPort s = Inr (host, portStr) \<and> host \<noteq> '''' \<and>
        ParseUint portStr 16 = Inr port \<and> port \<noteq> 0)"
  by (auto simp: validateHostPort_def split: sum.splits)

lemma validateHostPort_Join:
  assumes "ParseIP host = Some ip" and "port \<noteq> (0 :: 16 word)"
  shows "validateHostPort (JoinHostPort host (dec_string (unat port))) = None"
proof -
  have "unat port < 2 ^ LENGTH(16)" by (rule unsigned_less)
  then have "unat port < 2 ^ 16" by simp
  moreover have "unat port \<noteq> 0" using assms(2) by (simp add: unat_eq_zero)
  moreover have "SplitHostPort (JoinHostPort host (dec_string (unat port))) =
      Inr (host, dec_string (unat port))"
    using ParseIP_no_brackets [OF assms(1)] dec_string_digits by (simp add: SplitHostPort_JoinHostPort)
  ultimately show ?thesis
    using ParseIP_nonempty [OF assms(1)]
    by (simp add: validateHostPort_def ParseUint_dec_string)
qed

lemma external_ip_loop_SomeD:
  "external_ip_loop p first addrs = Some ep \<Longrightarrow> first = '''' \<or> ParseIP first \<noteq> None \<Longrightarrow>
     \<exists>host ip. ParseIP host = Some ip \<and> ep = JoinHostPort host p"
  by (induction p first addrs rule: external_ip_loop.induct)
    (auto split: if_splits option.splits)

text \<open>The addresses that count: external ones that parse. IPv4 goes first.\<close>

definition external_hosts :: "NodeAddress list \<Rightarrow> string list" where
  "external_hosts addrs =
     filter (\<lambda>h. ParseIP h \<noteq> None)
       (map addr_Address (filter (\<lambda>a. addr_Type a = NodeExternalIP) addrs))"

definition is_v4_host :: "string \<Rightarrow> bool" where
  "is_v4_host h = (case ParseIP h of None \<Rightarrow> False | Some ip \<Rightarrow> To4 ip \<noteq> None)"

lemma external_hosts_simps [simp]:
  "external_hosts [] = []"
  "external_hosts (a # addrs) =
     (if addr_Type a = NodeExternalIP \<and> ParseIP (addr_Address a) \<noteq> None
      then addr_Address a # external_hosts addrs else external_hosts addrs)"
  by (auto simp: external_hosts_def)

lemma external_ip_loop_eq:
  "external_ip_loop p first addrs =
     (case filter is_v4_host (external_hosts addrs) of
        h # _ \<Rightarrow> Some (JoinHostPort h p)
      | [] \<Rightarrow> if first \<noteq> '''' then Some (JoinHostPort first p)
              else case external_hosts addrs of
                h # _ \<Rightarrow> Some (JoinHostPort h p)
              | [] \<Rightarrow> None)"
proof (induction p first addrs rule: external_ip_loop.induct)
  case (1 p first)
  then show ?case by simp
next
  case (2 p first addr addrs)
  show ?case
  proof (cases "addr_Type addr = NodeExternalIP")
    case False
    with 2 show ?thesis by (simp split: list.splits)
  next
    case True
    show ?thesis
    proof (cases "ParseIP (addr_Address addr)")
      case None
      with True 2 show ?thesis by (simp split: list.splits)
    next
      case (Some ip)
      with True 2 ParseIP_nonempty [OF Some] show ?thesis
        by (auto simp: is_v4_host_def split: list.splits)
    qed
  qed
qed

lemma ResolveEndpoint_cases:
  assumes "ResolveEndpoint node fp = Inr (Some ep)"
  obtains (annotation) key where "map_of (node_Annotations node) key = Some ep" "validateHostPort ep = None"
  | (external) port where "port \<noteq> 0" "resolveFromExternalIPs (node_Addresses node) port = Some ep"
proof -
  have d: "DefaultWireguardPort \<noteq> 0" by (simp add: DefaultWireguardPort_def)
  have a: "map_of (node_Annotations node) key = Some ep \<and> validateHostPort ep = None"
    if "annotation_endpoint node key = Some (Inr ep)" for key
    using that by (auto simp: annotation_endpoint_def split: option.splits if_splits)
  from assms show thesis
    using a d
    by (auto simp: ResolveEndpoint_def Let_def split: option.splits sum.splits if_splits
        intro: annotation external)
qed

lemma ResolveEndpoint_wellformed:
  assumes "ResolveEndpoint node fallbackPort = Inr (Some ep)"
  shows "validateHostPort ep = None"
  using assms
proof (cases rule: ResolveEndpoint_cases)
  case (annotation key)
  then show ?thesis by simp
next
  case (external port)
  then obtain host ip where "ParseIP host = Some ip" "ep = JoinHostPort host (dec_string (unat port))"
    by (auto simp: resolveFromExternalIPs_def dest: external_ip_loop_SomeD)
  with external show ?thesis by (simp add: validateHostPort_Join)
qed

section \<open>Properties\<close>

text \<open>
  C25. Every endpoint that \<^verbatim>\<open>ResolveEndpoint\<close> finds is well formed: it passes
  \<^verbatim>\<open>validateHostPort\<close> (a host, a port from 1 to 65535), whichever of the three sources it comes
  from, the endpoint synthesised from an external address (IPv6 in brackets) and from the
  fallback port (0 meaning 51820) included.
\<close>

theorem ResolveEndpoint_valid:
  assumes "ResolveEndpoint node fallbackPort = Inr (Some ep)"
  shows "validateHostPort ep = None"
  using assms by (rule ResolveEndpoint_wellformed)

definition example_node_v6 :: Node where
  "example_node_v6 = \<lparr>node_Name = ''n1'', node_Annotations = [], node_PodCIDRs = [],
     node_Addresses = [\<lparr>addr_Type = NodeInternalIP, addr_Address = ''10.0.0.7''\<rparr>,
       \<lparr>addr_Type = NodeExternalIP, addr_Address = ''2001:db8::7''\<rparr>]\<rparr>"

theorem ResolveEndpoint_valid_witness: "validateHostPort ''[2001:db8::7]:51820'' = None"
proof (rule ResolveEndpoint_valid)
  show "ResolveEndpoint example_node_v6 0 = Inr (Some ''[2001:db8::7]:51820'')" by code_simp
qed

text \<open>
  The scan of the external addresses implements its contract: the first IPv4 address among
  the external addresses that parse, or else the first of them, joined with the port; no
  endpoint when none parses.
\<close>

theorem resolveFromExternalIPs_spec:
  "resolveFromExternalIPs addrs port =
     (case filter is_v4_host (external_hosts addrs) @ external_hosts addrs of
        [] \<Rightarrow> None
      | h # _ \<Rightarrow> Some (JoinHostPort h (dec_string (unat port))))"
  by (auto simp: resolveFromExternalIPs_def external_ip_loop_eq split: list.splits)

text \<open>
  The chain is lazy and strict: resolution fails exactly when the annotation that wins (the
  clustermesh endpoint if set, else Kilo's forced endpoint) is malformed. A malformed forced
  endpoint below a set clustermesh endpoint does no harm, and a malformed winner never falls
  through to the next source.
\<close>

theorem ResolveEndpoint_error_iff:
  "(\<exists>err. ResolveEndpoint node fallbackPort = Inl err) =
     (let cm = map_get (node_Annotations node) AnnotationClustermeshEndpoint;
          force = map_get (node_Annotations node) AnnotationForceEndpoint;
          winner = (if cm \<noteq> '''' then cm else force)
      in winner \<noteq> '''' \<and> validateHostPort winner \<noteq> None)"
proof -
  have ann: "annotation_endpoint node key =
      (let val = map_get (node_Annotations node) key
       in if val = '''' then None
          else case validateHostPort val of
            Some err \<Rightarrow> Some (Inl (Wrapf err ''annotation %q on node %q has invalid value %q''
              [key, node_Name node, val]))
          | None \<Rightarrow> Some (Inr val))" for key
    by (simp add: annotation_endpoint_def map_get_def split: option.splits)
  show ?thesis
    by (simp add: ResolveEndpoint_def ann Let_def split: option.splits)
qed

end
