(* ===== verification/NodeValidation.thy ===== *)
theory NodeValidation
  imports Kilonode
begin

text \<open>
  Package \<^verbatim>\<open>internal/validation\<close>, file \<^verbatim>\<open>node.go\<close>: the checks a node must pass to be peered, the
  classification of the reasons to skip it, and the detection of duplicate WireGuard addresses.
\<close>

section \<open>Reasons\<close>

text \<open>
  \<^verbatim>\<open>NodeSkipReason\<close> is a string type with nine constants; \<open>UnknownReason\<close> is any other string.
\<close>

datatype NodeSkipReason =
    ReasonNoPodCIDR
  | ReasonPodCIDROutOfRange
  | ReasonNoWireguardIP
  | ReasonWGIPInvalid
  | ReasonWGIPOutOfRange
  | ReasonWGIPDuplicate
  | ReasonNoPublicKey
  | ReasonNoEndpoint
  | ReasonEndpointInvalid
  | UnknownReason string

fun IsTransient :: "NodeSkipReason \<Rightarrow> bool" where
  "IsTransient ReasonNoPodCIDR = True"
| "IsTransient ReasonNoWireguardIP = True"
| "IsTransient ReasonNoPublicKey = True"
| "IsTransient ReasonNoEndpoint = True"
| "IsTransient ReasonPodCIDROutOfRange = False"
| "IsTransient ReasonWGIPInvalid = False"
| "IsTransient ReasonWGIPOutOfRange = False"
| "IsTransient ReasonWGIPDuplicate = False"
| "IsTransient ReasonEndpointInvalid = False"
| "IsTransient (UnknownReason _) = False"

section \<open>Validation of one node\<close>

text \<open>
  A check returns \<open>None\<close> for the Go result \<^verbatim>\<open>(false, "", "")\<close> and the reason with the message
  for \<^verbatim>\<open>(true, reason, msg)\<close>. A message keeps its format and arguments as an \<open>error\<close> value;
  a list printed with \<^verbatim>\<open>%v\<close> adds its elements to the arguments.
\<close>

type_synonym skip = "NodeSkipReason \<times> error"

fun any_network_contains :: "IPNet \<Rightarrow> string list \<Rightarrow> bool" where
  "any_network_contains nodeCIDR [] = False"
| "any_network_contains nodeCIDR (clusterCIDRStr # rest) =
     (case ParseCIDR clusterCIDRStr of
        Inl _ \<Rightarrow> any_network_contains nodeCIDR rest
      | Inr clusterCIDR \<Rightarrow>
          (if CIDRContains clusterCIDR nodeCIDR then True else any_network_contains nodeCIDR rest))"

definition validatePodCIDR :: "Node \<Rightarrow> ClusterEntry \<Rightarrow> skip option" where
  "validatePodCIDR node entry =
     (case node_PodCIDRs node of
        [] \<Rightarrow> Some (ReasonNoPodCIDR, Newf ''node %q has no PodCIDRs assigned'' [node_Name node])
      | podCIDR # _ \<Rightarrow>
          (case ParseCIDR podCIDR of
             Inl err \<Rightarrow> Some (ReasonNoPodCIDR,
               Wrapf err ''node %q has invalid PodCIDR %q: %v'' [node_Name node, podCIDR])
           | Inr nodeCIDR \<Rightarrow>
               (if any_network_contains nodeCIDR (entry_AllowedNetworks entry) then None
                else Some (ReasonPodCIDROutOfRange,
                  Newf ''node %q PodCIDR %q is not a subset of any cluster AllowedNetworks %v''
                    (node_Name node # podCIDR # entry_AllowedNetworks entry)))))"

fun any_network_has_ip :: "IP \<Rightarrow> string list \<Rightarrow> bool" where
  "any_network_has_ip hostIP [] = False"
| "any_network_has_ip hostIP (networkStr # rest) =
     (case ParseCIDR networkStr of
        Inl _ \<Rightarrow> any_network_has_ip hostIP rest
      | Inr network \<Rightarrow>
          (if Contains network hostIP then True else any_network_has_ip hostIP rest))"

definition validateWireguardIP :: "Node \<Rightarrow> ClusterEntry \<Rightarrow> skip option" where
  "validateWireguardIP node entry =
     (case map_of (node_Annotations node) AnnotationWireguardIP of
        None \<Rightarrow> Some (ReasonNoWireguardIP,
          Newf ''node %q is missing annotation %q'' [node_Name node, AnnotationWireguardIP])
      | Some wgIP \<Rightarrow>
          (if wgIP = '''' then Some (ReasonNoWireguardIP,
             Newf ''node %q is missing annotation %q'' [node_Name node, AnnotationWireguardIP])
           else case ParseHostInCIDR wgIP of
             Inl err \<Rightarrow> Some (ReasonWGIPInvalid,
               Wrapf err ''node %q annotation %q value %q is not a valid CIDR: %v''
                 [node_Name node, AnnotationWireguardIP, wgIP])
           | Inr (hostIP, _) \<Rightarrow>
               (if any_network_has_ip hostIP (entry_AllowedNetworks entry) then None
                else Some (ReasonWGIPOutOfRange,
                  Newf ''node %q WireGuard IP %q is not within any cluster AllowedNetworks %v''
                    (node_Name node # wgIP # entry_AllowedNetworks entry)))))"

definition validatePublicKey :: "Node \<Rightarrow> skip option" where
  "validatePublicKey node =
     (case map_of (node_Annotations node) AnnotationPublicKey of
        None \<Rightarrow> Some (ReasonNoPublicKey,
          Newf ''node %q is missing annotation %q'' [node_Name node, AnnotationPublicKey])
      | Some key \<Rightarrow>
          (if key = '''' then Some (ReasonNoPublicKey,
             Newf ''node %q is missing annotation %q'' [node_Name node, AnnotationPublicKey])
           else None))"

definition validateEndpoint :: "Node \<Rightarrow> ClusterEntry \<Rightarrow> skip option" where
  "validateEndpoint node entry =
     (case ResolveEndpoint node (entry_WireguardPort entry) of
        Inl err \<Rightarrow> Some (ReasonEndpointInvalid,
          Wrapf err ''node %q has an invalid endpoint annotation: %v'' [node_Name node])
      | Inr _ \<Rightarrow> None)"

definition ValidateNode :: "Node \<Rightarrow> ClusterEntry \<Rightarrow> skip option" where
  "ValidateNode node entry =
     (case validatePodCIDR node entry of Some r \<Rightarrow> Some r | None \<Rightarrow>
      (case validateWireguardIP node entry of Some r \<Rightarrow> Some r | None \<Rightarrow>
       (case validatePublicKey node of Some r \<Rightarrow> Some r | None \<Rightarrow>
        (case validateEndpoint node entry of Some r \<Rightarrow> Some r | None \<Rightarrow> None))))"

section \<open>Duplicate WireGuard addresses\<close>

definition normalizeWGIPKey :: "string \<Rightarrow> string" where
  "normalizeWGIPKey wgIP = (case ParseHostInCIDR wgIP of
       Inl _ \<Rightarrow> wgIP
     | Inr (hostIP, _) \<Rightarrow> ip_String hostIP)"

text \<open>
  The loop of \<^verbatim>\<open>FindDuplicateWGIPs\<close> over the keys seen (with the first node of each) and the
  duplicates found, both maps in order of insertion.
\<close>

fun dup_loop ::
  "str_map \<Rightarrow> (string \<times> NodeSkipReason) list \<Rightarrow> Node list \<Rightarrow> (string \<times> NodeSkipReason) list" where
  "dup_loop seen duplicates [] = duplicates"
| "dup_loop seen duplicates (node # nodes) =
     (case map_of (node_Annotations node) AnnotationWireguardIP of
        None \<Rightarrow> dup_loop seen duplicates nodes
      | Some wgIP \<Rightarrow>
          (if wgIP = '''' then dup_loop seen duplicates nodes
           else let key = normalizeWGIPKey wgIP
                in case map_of seen key of
                  Some _ \<Rightarrow>
                    dup_loop seen (AList.update (node_Name node) ReasonWGIPDuplicate duplicates) nodes
                | None \<Rightarrow> dup_loop (AList.update key (node_Name node) seen) duplicates nodes))"

definition FindDuplicateWGIPs :: "Node list \<Rightarrow> (string \<times> NodeSkipReason) list" where
  "FindDuplicateWGIPs nodes = dup_loop [] [] nodes"

section \<open>Facts\<close>

lemma any_network_contains_iff:
  "any_network_contains n nets \<longleftrightarrow> (\<exists>s \<in> set nets. \<exists>m. ParseCIDR s = Inr m \<and> CIDRContains m n)"
  by (induction nets) (auto split: sum.splits)

lemma any_network_has_ip_iff:
  "any_network_has_ip ip nets \<longleftrightarrow> (\<exists>s \<in> set nets. \<exists>m. ParseCIDR s = Inr m \<and> Contains m ip)"
  by (induction nets) (auto split: sum.splits)

lemma validatePodCIDR_None_iff:
  "validatePodCIDR node entry = None \<longleftrightarrow>
     (\<exists>pc rest n. node_PodCIDRs node = pc # rest \<and> ParseCIDR pc = Inr n \<and>
        any_network_contains n (entry_AllowedNetworks entry))"
  by (auto simp: validatePodCIDR_def split: list.splits sum.splits if_splits)

lemma validateWireguardIP_None_iff:
  "validateWireguardIP node entry = None \<longleftrightarrow>
     (\<exists>wg ip n. map_of (node_Annotations node) AnnotationWireguardIP = Some wg \<and> wg \<noteq> '''' \<and>
        ParseHostInCIDR wg = Inr (ip, n) \<and> any_network_has_ip ip (entry_AllowedNetworks entry))"
  by (auto simp: validateWireguardIP_def split: option.splits sum.splits if_splits)

lemma validatePublicKey_None_iff:
  "validatePublicKey node = None \<longleftrightarrow> map_get (node_Annotations node) AnnotationPublicKey \<noteq> ''''"
  by (auto simp: validatePublicKey_def map_get_def split: option.splits if_splits)

lemma validateEndpoint_None_iff:
  "validateEndpoint node entry = None \<longleftrightarrow>
     (\<exists>ep. ResolveEndpoint node (entry_WireguardPort entry) = Inr ep)"
  by (auto simp: validateEndpoint_def split: sum.splits)

lemma ValidateNode_None_iff:
  "ValidateNode node entry = None \<longleftrightarrow>
     validatePodCIDR node entry = None \<and> validateWireguardIP node entry = None \<and>
     validatePublicKey node = None \<and> validateEndpoint node entry = None"
  by (auto simp: ValidateNode_def split: option.splits)

text \<open>What the node itself must offer, independently of the cluster entry.\<close>

lemma ValidateNode_NoneE:
  assumes "ValidateNode node entry = None"
  obtains pc rest n wg ip net ep where
    "node_PodCIDRs node = pc # rest" "ParseCIDR pc = Inr n"
    "any_network_contains n (entry_AllowedNetworks entry)"
    "map_of (node_Annotations node) AnnotationWireguardIP = Some wg" "wg \<noteq> ''''"
    "ParseHostInCIDR wg = Inr (ip, net)" "any_network_has_ip ip (entry_AllowedNetworks entry)"
    "map_get (node_Annotations node) AnnotationPublicKey \<noteq> ''''"
    "ResolveEndpoint node (entry_WireguardPort entry) = Inr ep"
  using assms
  by (auto simp: ValidateNode_None_iff validatePodCIDR_None_iff validateWireguardIP_None_iff
      validatePublicKey_None_iff validateEndpoint_None_iff)

text \<open>
  The dedup key of a node: none when the annotation is missing or empty. A node is a duplicate
  when an earlier node has the same key.
\<close>

definition wg_key :: "Node \<Rightarrow> string option" where
  "wg_key node = (case map_of (node_Annotations node) AnnotationWireguardIP of
       None \<Rightarrow> None
     | Some wg \<Rightarrow> if wg = '''' then None else Some (normalizeWGIPKey wg))"

fun later_duplicates :: "string set \<Rightarrow> Node list \<Rightarrow> string set" where
  "later_duplicates seen [] = {}"
| "later_duplicates seen (node # nodes) =
     (case wg_key node of
        None \<Rightarrow> later_duplicates seen nodes
      | Some key \<Rightarrow>
          (if key \<in> seen then insert (node_Name node) (later_duplicates seen nodes)
           else later_duplicates (insert key seen) nodes))"

lemma dup_loop_dom:
  "fst ` set (dup_loop seen dups nodes) = fst ` set dups \<union> later_duplicates (fst ` set seen) nodes"
proof (induction seen dups nodes rule: dup_loop.induct)
  case (2 seen dups node nodes)
  show ?case
  proof (cases "wg_key node")
    case None
    with 2 show ?thesis by (auto simp: wg_key_def split: option.splits if_splits)
  next
    case (Some key)
    then obtain wg where wg: "map_of (node_Annotations node) AnnotationWireguardIP = Some wg"
      "wg \<noteq> ''''" "key = normalizeWGIPKey wg"
      by (auto simp: wg_key_def split: option.splits if_splits)
    show ?thesis
    proof (cases "map_of seen key")
      case None
      then have "key \<notin> fst ` set seen" by (simp add: map_of_eq_None_iff)
      with 2(3) [OF wg(1,2,3)] wg Some None show ?thesis
        by (simp add: dom_update Let_def)
    next
      case (Some first)
      then have "key \<in> fst ` set seen" by (metis domI dom_map_of_conv_image_fst)
      with 2(4) [OF wg(1,2,3)] wg Some \<open>wg_key node = Some key\<close> show ?thesis
        by (simp add: dom_update Let_def)
    qed
  qed
qed simp

lemma later_duplicates_names: "later_duplicates seen nodes \<subseteq> node_Name ` set nodes"
  by (induction nodes arbitrary: seen) (auto split: option.splits if_splits)

lemma later_duplicates_iff:
  assumes "distinct (map node_Name nodes)" and "i < length nodes"
  shows "node_Name (nodes ! i) \<in> later_duplicates seen nodes \<longleftrightarrow>
     (\<exists>key. wg_key (nodes ! i) = Some key \<and>
        (key \<in> seen \<or> (\<exists>j < i. wg_key (nodes ! j) = Some key)))"
  using assms
proof (induction nodes arbitrary: seen i)
  case (Cons node nodes)
  have fresh: "node_Name node \<notin> later_duplicates seen' nodes" for seen'
    using Cons.prems(1) later_duplicates_names by fastforce
  show ?case
  proof (cases i)
    case 0
    then show ?thesis using fresh by (auto split: option.splits)
  next
    case (Suc k)
    then have k: "k < length nodes" using Cons.prems by simp
    have neq: "node_Name (nodes ! k) \<noteq> node_Name node" using Cons.prems(1) k by (metis distinct.simps(2) image_eqI list.set_map list.simps(9) nth_mem)
    have IH: "node_Name (nodes ! k) \<in> later_duplicates seen' nodes \<longleftrightarrow>
        (\<exists>key. wg_key (nodes ! k) = Some key \<and>
          (key \<in> seen' \<or> (\<exists>j < k. wg_key (nodes ! j) = Some key)))" for seen'
      using Cons.IH Cons.prems(1) k by simp
    have less_Suc: "(\<exists>j < Suc k. P j) \<longleftrightarrow> P 0 \<or> (\<exists>j < k. P (Suc j))" for P
      using less_Suc_eq_0_disj by auto
    show ?thesis
      using neq by (cases "wg_key node") (auto simp: Suc IH less_Suc)
  qed
qed simp

lemma FindDuplicateWGIPs_dom:
  "map_of (FindDuplicateWGIPs nodes) n \<noteq> None \<longleftrightarrow> n \<in> later_duplicates {} nodes"
  using dup_loop_dom [of "[]" "[]" nodes]
  by (simp add: FindDuplicateWGIPs_def map_of_eq_None_iff del: not_None_eq)

lemma dup_loop_reason:
  "map_of (dup_loop seen dups nodes) n = Some r \<Longrightarrow> r = ReasonWGIPDuplicate \<or> map_of dups n = Some r"
proof (induction nodes arbitrary: seen dups)
  case (Cons node nodes)
  show ?case
    using Cons.prems Cons.IH [of seen dups]
      Cons.IH [of seen "AList.update (node_Name node) ReasonWGIPDuplicate dups"] Cons.IH [of _ dups]
    by (auto simp: Let_def update_conv' split: option.splits if_splits)
qed simp

lemma FindDuplicateWGIPs_reason:
  "map_of (FindDuplicateWGIPs nodes) n = Some r \<Longrightarrow> r = ReasonWGIPDuplicate"
  using dup_loop_reason [of "[]" "[]" nodes n r] by (simp add: FindDuplicateWGIPs_def)

text \<open>The nodes that are no duplicates have pairwise different keys.\<close>

lemma non_duplicates_distinct_keys:
  assumes "distinct (map node_Name nodes)"
    and "a \<in> set nodes" "map_of (FindDuplicateWGIPs nodes) (node_Name a) = None"
    and "b \<in> set nodes" "map_of (FindDuplicateWGIPs nodes) (node_Name b) = None"
    and "wg_key a = Some key" "wg_key b = Some key"
  shows "a = b"
proof (rule ccontr)
  assume "a \<noteq> b"
  obtain i j where ij: "i < length nodes" "nodes ! i = a" "j < length nodes" "nodes ! j = b"
    using assms(2,4) by (auto simp: in_set_conv_nth)
  with \<open>a \<noteq> b\<close> consider "i < j" | "j < i" by (cases i j rule: linorder_cases) auto
  then show False
    using assms ij FindDuplicateWGIPs_dom [of nodes "node_Name a"]
      FindDuplicateWGIPs_dom [of nodes "node_Name b"]
      later_duplicates_iff [OF assms(1) ij(1), of "{}"] later_duplicates_iff [OF assms(1) ij(3), of "{}"]
    by cases auto
qed

section \<open>Properties\<close>

text \<open>
  C15. A node that passes \<^verbatim>\<open>ValidateNode\<close> stays within what its cluster declares: some
  AllowedNetworks entry contains every address of the node's first PodCIDR, some entry
  contains the host address of its WireGuard annotation, and it has a public key.
\<close>

theorem ValidateNode_sound:
  assumes "ValidateNode node entry = None"
  shows "(\<exists>pc n s m. node_PodCIDRs node \<noteq> [] \<and> pc = hd (node_PodCIDRs node) \<and> ParseCIDR pc = Inr n \<and>
       s \<in> set (entry_AllowedNetworks entry) \<and> ParseCIDR s = Inr m \<and>
       {x. Contains n x} \<subseteq> {x. Contains m x}) \<and>
     (\<exists>ip n s m. ParseHostInCIDR (map_get (node_Annotations node) AnnotationWireguardIP) = Inr (ip, n) \<and>
       s \<in> set (entry_AllowedNetworks entry) \<and> ParseCIDR s = Inr m \<and> Contains m ip) \<and>
     map_get (node_Annotations node) AnnotationPublicKey \<noteq> ''''"
  using assms
proof (rule ValidateNode_NoneE)
  fix pc rest n wg ip net ep
  assume pc: "node_PodCIDRs node = pc # rest" "ParseCIDR pc = Inr n"
    "any_network_contains n (entry_AllowedNetworks entry)"
    and wg: "map_of (node_Annotations node) AnnotationWireguardIP = Some wg"
    "ParseHostInCIDR wg = Inr (ip, net)" "any_network_has_ip ip (entry_AllowedNetworks entry)"
    and key: "map_get (node_Annotations node) AnnotationPublicKey \<noteq> ''''"
  obtain s m where s: "s \<in> set (entry_AllowedNetworks entry)" "ParseCIDR s = Inr m" "CIDRContains m n"
    using pc(3) by (auto simp: any_network_contains_iff)
  have "{x. Contains n x} \<subseteq> {x. Contains m x}"
    using CIDRContains_sound [OF ParseCIDR_wf [OF s(2)] ParseCIDR_wf [OF pc(2)] s(3)] by blast
  with pc s wg key show ?thesis
    by (auto simp: any_network_has_ip_iff)
qed

definition example_entry :: ClusterEntry where
  "example_entry = \<lparr>entry_Name = ''a'', entry_Local = True, entry_KubeconfigSecretRef = None,
     entry_AllowedNetworks = [''10.244.0.0/16'', ''100.66.0.0/16'', ''10.96.0.0/12''],
     entry_WireguardPort = 51820, entry_PersistentKeepalive = 0\<rparr>"

definition example_node :: Node where
  "example_node = \<lparr>node_Name = ''n1'',
     node_Annotations = [(AnnotationWireguardIP, ''100.66.0.3/16''), (AnnotationPublicKey, ''K1'')],
     node_PodCIDRs = [''10.244.1.0/24''],
     node_Addresses = [\<lparr>addr_Type = NodeInternalIP, addr_Address = ''192.168.1.5''\<rparr>]\<rparr>"

definition example_node2 :: Node where
  "example_node2 = \<lparr>node_Name = ''n2'',
     node_Annotations = [(AnnotationWireguardIP, ''100.66.0.3/32''), (AnnotationPublicKey, ''K2'')],
     node_PodCIDRs = [''10.244.2.0/24''], node_Addresses = []\<rparr>"

lemma example_node_valid: "ValidateNode example_node example_entry = None"
  by code_simp

theorem ValidateNode_sound_witness:
  "\<exists>ip n s m. ParseHostInCIDR (map_get (node_Annotations example_node) AnnotationWireguardIP) = Inr (ip, n) \<and>
     s \<in> set (entry_AllowedNetworks example_entry) \<and> ParseCIDR s = Inr m \<and> Contains m ip"
  using ValidateNode_sound [OF example_node_valid] by blast

text \<open>
  Duplicate detection is exact and keeps the first node: with distinct node names, a node is
  reported exactly when it has a WireGuard annotation and a node before it in the list has one
  with the same normalised host address (whatever the prefix lengths).
\<close>

lemma FindDuplicateWGIPs_exact:
  assumes "distinct (map node_Name nodes)" and "i < length nodes"
  shows "map_of (FindDuplicateWGIPs nodes) (node_Name (nodes ! i)) \<noteq> None \<longleftrightarrow>
     wg_key (nodes ! i) \<noteq> None \<and> (\<exists>j < i. wg_key (nodes ! j) = wg_key (nodes ! i))"
  using later_duplicates_iff [OF assms, of "{}"]
  by (auto simp: FindDuplicateWGIPs_dom simp del: not_None_eq)

text \<open>
  A node without any endpoint source is not skipped for it: \<^verbatim>\<open>ValidateNode\<close> never gives the
  reasons NodeNoEndpoint or WGIPDuplicate, and whether a skip is transient is decided by the
  node alone: a missing or unreadable PodCIDR, or else (when the PodCIDR is accepted) a missing
  WireGuard annotation, or else (when the address is accepted too) a missing public key.
\<close>

theorem ValidateNode_skip_reasons:
  assumes "ValidateNode node entry = Some (reason, msg)"
  shows "reason \<noteq> ReasonNoEndpoint \<and> reason \<noteq> ReasonWGIPDuplicate \<and>
     (IsTransient reason \<longleftrightarrow>
        (case node_PodCIDRs node of [] \<Rightarrow> True | pc # _ \<Rightarrow> (\<exists>e. ParseCIDR pc = Inl e)) \<or>
        (validatePodCIDR node entry = None \<and>
           map_get (node_Annotations node) AnnotationWireguardIP = '''') \<or>
        (validatePodCIDR node entry = None \<and> validateWireguardIP node entry = None \<and>
           map_get (node_Annotations node) AnnotationPublicKey = ''''))"
proof -
  have pod_r: "r \<noteq> ReasonNoEndpoint \<and> r \<noteq> ReasonWGIPDuplicate \<and> (IsTransient r \<longleftrightarrow>
      (case node_PodCIDRs node of [] \<Rightarrow> True | pc # _ \<Rightarrow> (\<exists>e. ParseCIDR pc = Inl e)))"
    if "validatePodCIDR node entry = Some (r, m)" for r m
    using that by (auto simp: validatePodCIDR_def split: list.splits sum.splits if_splits)
  have wg_r: "r \<noteq> ReasonNoEndpoint \<and> r \<noteq> ReasonWGIPDuplicate \<and>
      (IsTransient r \<longleftrightarrow> map_get (node_Annotations node) AnnotationWireguardIP = '''')"
    if "validateWireguardIP node entry = Some (r, m)" for r m
    using that
    by (auto simp: validateWireguardIP_def map_get_def split: option.splits sum.splits if_splits)
  have ok: "\<not> (case node_PodCIDRs node of [] \<Rightarrow> True | pc # _ \<Rightarrow> (\<exists>e. ParseCIDR pc = Inl e))"
    if "validatePodCIDR node entry = None"
    using that by (auto simp: validatePodCIDR_None_iff)
  have wgok: "map_get (node_Annotations node) AnnotationWireguardIP \<noteq> ''''"
    if "validateWireguardIP node entry = None"
    using that by (auto simp: validateWireguardIP_None_iff)
  have key_r: "r = ReasonNoPublicKey" if "validatePublicKey node = Some (r, m)" for r m
    using that by (auto simp: validatePublicKey_def split: option.splits if_splits)
  have ep_r: "r = ReasonEndpointInvalid" if "validateEndpoint node entry = Some (r, m)" for r m
    using that by (auto simp: validateEndpoint_def split: sum.splits)
  consider (pod) "validatePodCIDR node entry = Some (reason, msg)"
    | (wg) "validatePodCIDR node entry = None" "validateWireguardIP node entry = Some (reason, msg)"
    | (key) "validatePodCIDR node entry = None" "validateWireguardIP node entry = None"
        "validatePublicKey node = Some (reason, msg)"
    | (ep) "validatePodCIDR node entry = None" "validateWireguardIP node entry = None"
        "validatePublicKey node = None" "validateEndpoint node entry = Some (reason, msg)"
    using assms by (auto simp: ValidateNode_def split: option.splits)
  then show ?thesis
  proof cases
    case pod
    then show ?thesis using pod_r by auto
  next
    case wg
    then show ?thesis using ok wg_r by auto
  next
    case key
    then show ?thesis using ok wgok validatePublicKey_None_iff [of node]
        key_r by auto
  next
    case ep
    then show ?thesis using ok wgok validatePublicKey_None_iff [of node]
        ep_r by auto
  qed
qed

theorem ValidateNode_skip_reasons_witness:
  "ReasonNoPodCIDR \<noteq> ReasonNoEndpoint \<and> ReasonNoPodCIDR \<noteq> ReasonWGIPDuplicate \<and>
   IsTransient ReasonNoPodCIDR"
proof -
  have "ValidateNode example_node_v6 example_entry =
      Some (ReasonNoPodCIDR, Newf ''node %q has no PodCIDRs assigned'' [''n1''])"
    by code_simp
  from ValidateNode_skip_reasons [OF this] show ?thesis by (simp add: example_node_v6_def)
qed

end
