(* ===== verification/PeerBuilder.thy ===== *)
theory PeerBuilder
  imports PeerNaming NodeValidation
begin

text \<open>
  Package \<^verbatim>\<open>internal/peer\<close>, file \<^verbatim>\<open>builder.go\<close>: the Peer object of a node, the cluster-wide CIDRs
  that the anchor node carries, and the parsing of resolved endpoints.
\<close>

section \<open>Operations\<close>

definition buildDNSOrIP :: "string \<Rightarrow> DNSOrIP" where
  "buildDNSOrIP host =
     (let cleanHost = Trim host ''[]''
      in case ParseIP cleanHost of
           Some _ \<Rightarrow> \<lparr>ep_DNS = '''', ep_IP = cleanHost\<rparr>
         | None \<Rightarrow> \<lparr>ep_DNS = cleanHost, ep_IP = ''''\<rparr>)"

definition parseEndpoint :: "string \<Rightarrow> error + PeerEndpoint" where
  "parseEndpoint raw =
     (case LastIndexByte raw (CHR '':'') of
        None \<Rightarrow> Inl (Newf ''invalid endpoint format: %q'' [raw])
      | Some idx \<Rightarrow>
          (let host = take idx raw; portStr = drop (Suc idx) raw
           in case ParseUint portStr 32 of
                Inl err \<Rightarrow> Inl (Wrapf err ''invalid endpoint port in %q'' [raw])
              | Inr port \<Rightarrow> Inr \<lparr>ep_DNSOrIP = buildDNSOrIP host, ep_Port = of_nat port\<rparr>))"

definition resolvePeerEndpoint :: "Node \<Rightarrow> 16 word \<Rightarrow> error + PeerEndpoint option" where
  "resolvePeerEndpoint node fallbackPort =
     (case ResolveEndpoint node fallbackPort of
        Inl err \<Rightarrow> Inl (Wrapf err ''resolving endpoint for node %q'' [node_Name node])
      | Inr None \<Rightarrow> Inr None
      | Inr (Some endpointStr) \<Rightarrow>
          (case parseEndpoint endpointStr of
             Inl err \<Rightarrow> Inl (Wrapf err ''parsing resolved endpoint %q for node %q''
               [endpointStr, node_Name node])
           | Inr endpoint \<Rightarrow> Inr (Some endpoint)))"

fun nodeCoversAddresses :: "IPNet \<Rightarrow> NodeAddress list \<Rightarrow> bool" where
  "nodeCoversAddresses network [] = False"
| "nodeCoversAddresses network (addr # addrs) =
     (if addr_Type addr \<noteq> NodeInternalIP then nodeCoversAddresses network addrs
      else case ParseIP (addr_Address addr) of
        Some internalIP \<Rightarrow>
          (if Contains network internalIP then True else nodeCoversAddresses network addrs)
      | None \<Rightarrow> nodeCoversAddresses network addrs)"

definition nodeCoversNetwork :: "IPNet \<Rightarrow> Node \<Rightarrow> bool" where
  "nodeCoversNetwork network node =
     (if (case node_PodCIDRs node of
            [] \<Rightarrow> False
          | pc # _ \<Rightarrow> (case ParseCIDR pc of Inl _ \<Rightarrow> False | Inr nodeCIDR \<Rightarrow> CIDRContains network nodeCIDR))
      then True
      else if nodeCoversAddresses network (node_Addresses node) then True
      else let wgIP = map_get (node_Annotations node) AnnotationWireguardIP
           in if wgIP = '''' then False
              else case ParseHostInCIDR wgIP of
                Inl _ \<Rightarrow> False
              | Inr (hostIP, _) \<Rightarrow> Contains network hostIP)"

fun networkCoveredByAnyNode :: "IPNet \<Rightarrow> Node list \<Rightarrow> bool" where
  "networkCoveredByAnyNode network [] = False"
| "networkCoveredByAnyNode network (node # nodes) =
     (if nodeCoversNetwork network node then True else networkCoveredByAnyNode network nodes)"

fun anchor_residual :: "Node list \<Rightarrow> string list \<Rightarrow> string list" where
  "anchor_residual nodes [] = []"
| "anchor_residual nodes (networkStr # rest) =
     (case ParseCIDR networkStr of
        Inl _ \<Rightarrow> networkStr # anchor_residual nodes rest
      | Inr network \<Rightarrow>
          (if \<not> networkCoveredByAnyNode network nodes then networkStr # anchor_residual nodes rest
           else anchor_residual nodes rest))"

definition CollectAnchorCIDRs :: "ClusterEntry \<Rightarrow> Node list \<Rightarrow> string list" where
  "CollectAnchorCIDRs entry nodes = anchor_residual nodes (entry_AllowedNetworks entry)"

fun internal_routes :: "NodeAddress list \<Rightarrow> string list" where
  "internal_routes [] = []"
| "internal_routes (addr # addrs) =
     (if addr_Type addr \<noteq> NodeInternalIP then internal_routes addrs
      else case ParseIP (addr_Address addr) of
        None \<Rightarrow> internal_routes addrs
      | Some internalIP \<Rightarrow> HostRoute internalIP # internal_routes addrs)"

definition nodeOwnInternalIPHostRoutes :: "Node \<Rightarrow> string list" where
  "nodeOwnInternalIPHostRoutes node = internal_routes (node_Addresses node)"

text \<open>
  The loop of \<^verbatim>\<open>dedupeStrings\<close>. It writes into the slice it reads, always behind the reading
  position, so the result is that of a fresh slice.
\<close>

fun dedupe_loop :: "string list \<Rightarrow> string list \<Rightarrow> string list" where
  "dedupe_loop seen [] = []"
| "dedupe_loop seen (route # routes) =
     (if route \<in> set seen then dedupe_loop seen routes
      else route # dedupe_loop (route # seen) routes)"

definition dedupeStrings :: "string list \<Rightarrow> string list" where
  "dedupeStrings routes = dedupe_loop [] routes"

definition BuildPeer ::
  "string \<Rightarrow> ClusterEntry \<Rightarrow> Node \<Rightarrow> string list \<Rightarrow> int \<Rightarrow> error + Peer" where
  "BuildPeer meshName entry node extraAllowedIPs meshKeepalive =
     (let pubKey = map_get (node_Annotations node) AnnotationPublicKey
      in if pubKey = '''' then Inl (Newf ''node %q has no public key annotation'' [node_Name node])
      else let wgIP = map_get (node_Annotations node) AnnotationWireguardIP
      in if wgIP = '''' then Inl (Newf ''node %q has no wireguard-ip annotation'' [node_Name node])
      else case ParseHostInCIDR wgIP of
        Inl err \<Rightarrow> Inl (Wrapf err ''node %q has invalid wireguard-ip annotation %q'' [node_Name node, wgIP])
      | Inr (hostIP, _) \<Rightarrow>
          (case node_PodCIDRs node of
             [] \<Rightarrow> Inl (Newf ''node %q has no PodCIDRs allocated yet'' [node_Name node])
           | podCIDR # _ \<Rightarrow>
               (let allowedIPs = [podCIDR, HostRoute hostIP];
                    allowedIPs = allowedIPs @ nodeOwnInternalIPHostRoutes node;
                    allowedIPs = allowedIPs @ extraAllowedIPs;
                    allowedIPs = dedupeStrings allowedIPs
                in case resolvePeerEndpoint node (entry_WireguardPort entry) of
                     Inl err \<Rightarrow> Inl err
                   | Inr endpoint \<Rightarrow> Inr
                       \<lparr>peer_Name = Name meshName (entry_Name entry) (node_Name node),
                        peer_Labels = Labels meshName (entry_Name entry),
                        peer_ResourceVersion = '''',
                        peer_Spec =
                          \<lparr>AllowedIPs = allowedIPs,
                           Endpoint = endpoint,
                           PersistentKeepalive = max (entry_PersistentKeepalive entry) meshKeepalive,
                           PresharedKey = '''',
                           PublicKey = pubKey\<rparr>\<rparr>)))"

section \<open>Facts\<close>

lemma dedupe_loop_facts:
  "distinct (dedupe_loop seen xs) \<and> set (dedupe_loop seen xs) = set xs - set seen"
  by (induction seen xs rule: dedupe_loop.induct) auto

lemma distinct_dedupeStrings [simp]: "distinct (dedupeStrings xs)"
  by (simp add: dedupeStrings_def dedupe_loop_facts)

lemma set_dedupeStrings [simp]: "set (dedupeStrings xs) = set xs"
  by (simp add: dedupeStrings_def dedupe_loop_facts)

lemma dedupeStrings_first: "dedupeStrings (x # xs) = x # dedupe_loop [x] xs"
  by (simp add: dedupeStrings_def)

lemma set_internal_routes:
  "set (internal_routes addrs) =
     {HostRoute ip | ip a. a \<in> set addrs \<and> addr_Type a = NodeInternalIP \<and> ParseIP (addr_Address a) = Some ip}"
  by (induction addrs) (auto split: option.splits)

lemma nodeCoversAddresses_iff:
  "nodeCoversAddresses n addrs \<longleftrightarrow>
     (\<exists>a \<in> set addrs. \<exists>ip. addr_Type a = NodeInternalIP \<and> ParseIP (addr_Address a) = Some ip \<and> Contains n ip)"
  by (induction addrs) (auto split: option.splits)

lemma networkCoveredByAnyNode_iff:
  "networkCoveredByAnyNode n nodes \<longleftrightarrow> (\<exists>node \<in> set nodes. nodeCoversNetwork n node)"
  by (induction nodes) auto

lemma anchor_residual_eq:
  "anchor_residual nodes nets =
     filter (\<lambda>s. case ParseCIDR s of Inl _ \<Rightarrow> True | Inr n \<Rightarrow> \<not> networkCoveredByAnyNode n nodes) nets"
  by (induction nets) (auto split: sum.splits)

text \<open>A validated endpoint parses into the same host, without brackets, and the same port.\<close>

lemma parseEndpoint_valid:
  assumes "SplitHostPort s = Inr (host, portStr)" and "ParseUint portStr 16 = Inr port"
  shows "parseEndpoint s = Inr \<lparr>ep_DNSOrIP = buildDNSOrIP host, ep_Port = of_nat port\<rparr>"
proof -
  obtain i where i: "LastIndexByte s (CHR '':'') = Some i" "portStr = drop (Suc i) s"
    "host = Trim (take i s) ''[]''" "CHR ''['' \<notin> set host" "CHR '']'' \<notin> set host"
    using SplitHostPort_InrD [OF assms(1)] by metis
  have "Trim host ''[]'' = host"
  proof (rule Trim_id)
    show "host = [] \<or> hd host \<notin> set ''[]'' \<and> last host \<notin> set ''[]''"
      using i(4,5) by (cases "host = []") (auto dest: hd_in_set last_in_set)
  qed
  then have "buildDNSOrIP (take i s) = buildDNSOrIP host"
    using i(3) by (simp add: buildDNSOrIP_def)
  with i(1,2) ParseUint_widen [OF assms(2), of 32] show ?thesis
    by (simp add: parseEndpoint_def)
qed

lemma parseEndpoint_total:
  assumes "validateHostPort s = None"
  shows "\<exists>ep. parseEndpoint s = Inr ep"
  using assms parseEndpoint_valid by (auto simp: validateHostPort_None_iff)

lemma resolvePeerEndpoint_total:
  assumes "ResolveEndpoint node fp = Inr r"
  shows "\<exists>e. resolvePeerEndpoint node fp = Inr e \<and> (e = None \<longleftrightarrow> r = None)"
proof (cases r)
  case None
  with assms show ?thesis by (simp add: resolvePeerEndpoint_def)
next
  case (Some ep)
  then have "validateHostPort ep = None" using assms by (simp add: ResolveEndpoint_wellformed)
  then obtain e where "parseEndpoint ep = Inr e" using parseEndpoint_total by blast
  with Some assms show ?thesis by (simp add: resolvePeerEndpoint_def)
qed

text \<open>The host address of the WireGuard annotation of a node.\<close>

definition wg_host :: "Node \<Rightarrow> IP option" where
  "wg_host node = (case ParseHostInCIDR (map_get (node_Annotations node) AnnotationWireguardIP) of
       Inl _ \<Rightarrow> None
     | Inr (ip, _) \<Rightarrow> Some ip)"

lemma BuildPeer_Inr_iff:
  "BuildPeer mn entry node extras ka = Inr p \<longleftrightarrow>
     map_get (node_Annotations node) AnnotationPublicKey \<noteq> '''' \<and>
     map_get (node_Annotations node) AnnotationWireguardIP \<noteq> '''' \<and>
     (\<exists>ip pc rest ep. wg_host node = Some ip \<and> node_PodCIDRs node = pc # rest \<and>
        resolvePeerEndpoint node (entry_WireguardPort entry) = Inr ep \<and>
        p = \<lparr>peer_Name = Name mn (entry_Name entry) (node_Name node),
             peer_Labels = Labels mn (entry_Name entry), peer_ResourceVersion = '''',
             peer_Spec =
               \<lparr>AllowedIPs = dedupeStrings (pc # HostRoute ip # nodeOwnInternalIPHostRoutes node @ extras),
                Endpoint = ep, PersistentKeepalive = max (entry_PersistentKeepalive entry) ka,
                PresharedKey = '''', PublicKey = map_get (node_Annotations node) AnnotationPublicKey\<rparr>\<rparr>)"
  by (auto simp: BuildPeer_def Let_def wg_host_def split: sum.splits list.splits)

lemma ValidateNode_wg_host:
  assumes "ValidateNode node entry = None"
  shows "\<exists>ip. wg_host node = Some ip \<and> length ip = 16 \<and> wg_key node = Some (ip_String ip)"
  using assms
  by (rule ValidateNode_NoneE)
    (auto simp: wg_host_def wg_key_def normalizeWGIPKey_def dest: ParseHostInCIDR_length)

lemma BuildPeer_validated:
  assumes "ValidateNode node entry = None"
  shows "\<exists>p. BuildPeer mn entry node extras ka = Inr p"
  using assms
proof (rule ValidateNode_NoneE)
  fix pc rest n wg ip net ep
  assume "node_PodCIDRs node = pc # rest"
    "map_of (node_Annotations node) AnnotationWireguardIP = Some wg" "wg \<noteq> ''''"
    "ParseHostInCIDR wg = Inr (ip, net)"
    "map_get (node_Annotations node) AnnotationPublicKey \<noteq> ''''"
    "ResolveEndpoint node (entry_WireguardPort entry) = Inr ep"
  with resolvePeerEndpoint_total [of node "entry_WireguardPort entry" ep] show ?thesis
    by (auto simp: BuildPeer_Inr_iff wg_host_def)
qed

text \<open>What a built Peer says.\<close>

lemma BuildPeer_content:
  assumes "BuildPeer meshName entry node extras keepalive = Inr p"
  shows "PublicKey (peer_Spec p) = map_get (node_Annotations node) AnnotationPublicKey \<and>
     PublicKey (peer_Spec p) \<noteq> '''' \<and>
     peer_Name p = Name meshName (entry_Name entry) (node_Name node) \<and>
     map_of (peer_Labels p) LabelMesh = Some meshName \<and>
     map_of (peer_Labels p) LabelSourceCluster = Some (entry_Name entry) \<and>
     PersistentKeepalive (peer_Spec p) = max (entry_PersistentKeepalive entry) keepalive \<and>
     distinct (AllowedIPs (peer_Spec p)) \<and>
     hd (AllowedIPs (peer_Spec p)) = hd (node_PodCIDRs node) \<and>
     set (AllowedIPs (peer_Spec p)) =
       {hd (node_PodCIDRs node)} \<union> (HostRoute ` set_option (wg_host node)) \<union>
       {HostRoute ip | ip a. a \<in> set (node_Addresses node) \<and> addr_Type a = NodeInternalIP \<and>
          ParseIP (addr_Address a) = Some ip} \<union> set extras"
proof -
  obtain ip pc rest where w: "wg_host node = Some ip" "node_PodCIDRs node = pc # rest"
    and a: "AllowedIPs (peer_Spec p) =
        dedupeStrings (pc # HostRoute ip # nodeOwnInternalIPHostRoutes node @ extras)"
    using assms by (auto simp: BuildPeer_Inr_iff)
  have "set (AllowedIPs (peer_Spec p)) =
      {pc} \<union> {HostRoute ip} \<union> set (internal_routes (node_Addresses node)) \<union> set extras"
    unfolding a set_dedupeStrings by (auto simp: nodeOwnInternalIPHostRoutes_def)
  moreover have "distinct (AllowedIPs (peer_Spec p))" "hd (AllowedIPs (peer_Spec p)) = pc"
    unfolding a by (rule distinct_dedupeStrings) (simp add: dedupeStrings_first)
  moreover have "PublicKey (peer_Spec p) = map_get (node_Annotations node) AnnotationPublicKey"
    "PublicKey (peer_Spec p) \<noteq> ''''" "peer_Name p = Name meshName (entry_Name entry) (node_Name node)"
    "peer_Labels p = Labels meshName (entry_Name entry)"
    "PersistentKeepalive (peer_Spec p) = max (entry_PersistentKeepalive entry) keepalive"
    using assms by (auto simp: BuildPeer_Inr_iff)
  ultimately show ?thesis using w by (simp add: set_internal_routes Labels_def)
qed

section \<open>Properties\<close>

text \<open>
  C16. Validation is sufficient for building: for every node that passes \<^verbatim>\<open>ValidateNode\<close>,
  \<^verbatim>\<open>BuildPeer\<close> returns a Peer, never an error, whatever the extra CIDRs and the keepalive are.
  The Peer roams (it has no endpoint) exactly when the node offers no endpoint source.
\<close>

theorem validated_node_builds:
  assumes "ValidateNode node entry = None"
  shows "\<exists>p. BuildPeer meshName entry node extras keepalive = Inr p \<and>
     (Endpoint (peer_Spec p) = None \<longleftrightarrow>
        ResolveEndpoint node (entry_WireguardPort entry) = Inr None)"
proof -
  obtain p where p: "BuildPeer meshName entry node extras keepalive = Inr p"
    using BuildPeer_validated [OF assms] by blast
  obtain ep where ep: "ResolveEndpoint node (entry_WireguardPort entry) = Inr ep"
    using assms by (rule ValidateNode_NoneE)
  obtain e where "resolvePeerEndpoint node (entry_WireguardPort entry) = Inr e" "e = None \<longleftrightarrow> ep = None"
    using resolvePeerEndpoint_total [OF ep] by blast
  with p ep show ?thesis by (auto simp: BuildPeer_Inr_iff)
qed

theorem validated_node_builds_witness:
  "\<exists>p. BuildPeer ''m'' example_entry example_node [''10.96.0.0/12''] 25 = Inr p \<and>
     (Endpoint (peer_Spec p) = None \<longleftrightarrow>
        ResolveEndpoint example_node (entry_WireguardPort example_entry) = Inr None)"
  by (rule validated_node_builds [OF example_node_valid])

text \<open>
  C17. What a built Peer says: the node's public key, the mesh and cluster labels, the maximum of
  the cluster's and the mesh's keepalive, and as AllowedIPs, each exactly once and headed by the
  PodCIDR, the node's first PodCIDR, the host route of its WireGuard address, a host route for
  every internal address that parses, and the extra CIDRs; nothing else.
\<close>

theorem BuildPeer_spec:
  assumes "BuildPeer meshName entry node extras keepalive = Inr p"
  shows "PublicKey (peer_Spec p) = map_get (node_Annotations node) AnnotationPublicKey \<and>
     PublicKey (peer_Spec p) \<noteq> '''' \<and>
     peer_Name p = Name meshName (entry_Name entry) (node_Name node) \<and>
     map_of (peer_Labels p) LabelMesh = Some meshName \<and>
     map_of (peer_Labels p) LabelSourceCluster = Some (entry_Name entry) \<and>
     PersistentKeepalive (peer_Spec p) = max (entry_PersistentKeepalive entry) keepalive \<and>
     distinct (AllowedIPs (peer_Spec p)) \<and>
     hd (AllowedIPs (peer_Spec p)) = hd (node_PodCIDRs node) \<and>
     set (AllowedIPs (peer_Spec p)) =
       {hd (node_PodCIDRs node)} \<union> (HostRoute ` set_option (wg_host node)) \<union>
       {HostRoute ip | ip a. a \<in> set (node_Addresses node) \<and> addr_Type a = NodeInternalIP \<and>
          ParseIP (addr_Address a) = Some ip} \<union> set extras"
  using assms by (rule BuildPeer_content)

definition example_peer :: Peer where
  "example_peer = \<lparr>peer_Name = ''m--a--n1'', peer_Labels = Labels ''m'' ''a'', peer_ResourceVersion = '''',
     peer_Spec = \<lparr>AllowedIPs = [''10.244.1.0/24'', ''100.66.0.3/32'', ''192.168.1.5/32'', ''10.96.0.0/12''],
       Endpoint = None, PersistentKeepalive = 25, PresharedKey = '''', PublicKey = ''K1''\<rparr>\<rparr>"

lemma example_peer_built: "BuildPeer ''m'' example_entry example_node [''10.96.0.0/12''] 25 = Inr example_peer"
  by code_simp

theorem BuildPeer_spec_witness:
  "PublicKey (peer_Spec example_peer) = ''K1'' \<and> distinct (AllowedIPs (peer_Spec example_peer)) \<and>
   hd (AllowedIPs (peer_Spec example_peer)) = ''10.244.1.0/24'' \<and>
   PersistentKeepalive (peer_Spec example_peer) = max (entry_PersistentKeepalive example_entry) 25"
  using BuildPeer_spec [OF example_peer_built]
  by (simp add: example_node_def map_get_def AnnotationWireguardIP_def AnnotationPublicKey_def)

text \<open>
  C26. The two endpoint parsers agree: an endpoint accepted by \<^verbatim>\<open>validateHostPort\<close> (which splits
  with \<^verbatim>\<open>net.SplitHostPort\<close>) is parsed by \<^verbatim>\<open>parseEndpoint\<close> (which cuts at the last colon and trims
  brackets) into the same host, as an IP if it parses as one and as a DNS name otherwise, and
  the same port, which is between 1 and 65535.
\<close>

theorem parseEndpoint_agrees:
  assumes "validateHostPort s = None"
  shows "\<exists>host portStr port. SplitHostPort s = Inr (host, portStr) \<and> ParseUint portStr 16 = Inr port \<and>
     0 < port \<and> port < 65536 \<and>
     parseEndpoint s = Inr
       \<lparr>ep_DNSOrIP = (if ParseIP host \<noteq> None then \<lparr>ep_DNS = '''', ep_IP = host\<rparr>
                       else \<lparr>ep_DNS = host, ep_IP = ''''\<rparr>),
        ep_Port = of_nat port\<rparr>"
proof -
  obtain host portStr port where h: "SplitHostPort s = Inr (host, portStr)"
    and p: "ParseUint portStr 16 = Inr port" "port \<noteq> 0"
    using assms by (auto simp: validateHostPort_None_iff)
  have "CHR ''['' \<notin> set host" "CHR '']'' \<notin> set host"
    using SplitHostPort_InrD [OF h] by metis+
  then have "Trim host ''[]'' = host"
    by (intro Trim_id) (cases "host = []", auto dest: hd_in_set last_in_set)
  then have "buildDNSOrIP host =
      (if ParseIP host \<noteq> None then \<lparr>ep_DNS = '''', ep_IP = host\<rparr> else \<lparr>ep_DNS = host, ep_IP = ''''\<rparr>)"
    by (simp add: buildDNSOrIP_def split: option.splits)
  with h p parseEndpoint_valid [OF h p(1)] ParseUint_InrD [OF p(1)] show ?thesis by auto
qed

theorem parseEndpoint_agrees_witness:
  "\<exists>host portStr port. SplitHostPort ''[2001:db8::7]:51820'' = Inr (host, portStr) \<and>
     ParseUint portStr 16 = Inr port \<and> 0 < port \<and> port < 65536 \<and>
     parseEndpoint ''[2001:db8::7]:51820'' = Inr
       \<lparr>ep_DNSOrIP = (if ParseIP host \<noteq> None then \<lparr>ep_DNS = '''', ep_IP = host\<rparr>
                       else \<lparr>ep_DNS = host, ep_IP = ''''\<rparr>),
        ep_Port = of_nat port\<rparr>"
  by (rule parseEndpoint_agrees) code_simp

end
