(* ===== verification/MeshPlan.thy ===== *)
theory MeshPlan
  imports PeerBuilder
begin

text \<open>
  The pure part of \<^verbatim>\<open>internal/controller/clustermesh_controller.go\<close>: which nodes of a source cluster are
  peered, the Peers desired for them, the keepalive floor of a mesh, and the choice of the next
  requeue from the outcome of a reconcile.
\<close>

section \<open>Filtering the nodes\<close>

text \<open>
  \<^verbatim>\<open>filterNodes\<close> returns the valid nodes, the number of skipped nodes and how many of the skips are
  transient. The warning events it records (the reason and the note) are its last result.
\<close>

type_synonym event = "NodeSkipReason \<times> error"

fun filter_loop ::
  "(string \<times> NodeSkipReason) list \<Rightarrow> ClusterEntry \<Rightarrow> Node list \<Rightarrow> Node list \<times> nat \<times> nat \<times> event list" where
  "filter_loop duplicates entry [] = ([], 0, 0, [])"
| "filter_loop duplicates entry (node # nodes) =
     (case filter_loop duplicates entry nodes of (valid, skipped, transientSkipped, events) \<Rightarrow>
       (case map_of duplicates (node_Name node) of
          Some reason \<Rightarrow>
            (valid, skipped + 1, transientSkipped,
             (reason, Newf ''node %s has duplicate WireGuard IP'' [node_Name node]) # events)
        | None \<Rightarrow>
            (case ValidateNode node entry of
               Some (reason, msg) \<Rightarrow>
                 (valid, skipped + 1,
                  (if IsTransient reason then transientSkipped + 1 else transientSkipped),
                  (reason, msg) # events)
             | None \<Rightarrow> (node # valid, skipped, transientSkipped, events))))"

definition filterNodes :: "Node list \<Rightarrow> ClusterEntry \<Rightarrow> Node list \<times> nat \<times> nat \<times> event list" where
  "filterNodes nodes entry = filter_loop (FindDuplicateWGIPs nodes) entry nodes"

section \<open>Desired Peers\<close>

fun build_loop ::
  "string \<Rightarrow> ClusterEntry \<Rightarrow> int \<Rightarrow> string list \<Rightarrow> nat \<Rightarrow> Node list \<Rightarrow> error + Peer list" where
  "build_loop meshName entry meshKeepalive anchorExtras i [] = Inr []"
| "build_loop meshName entry meshKeepalive anchorExtras i (node # nodes) =
     (let extras = (if i = 0 then anchorExtras else [])
      in case BuildPeer meshName entry node extras meshKeepalive of
        Inl err \<Rightarrow> Inl (Wrapf err ''building peer for node %q'' [node_Name node])
      | Inr p \<Rightarrow>
          (case build_loop meshName entry meshKeepalive anchorExtras (Suc i) nodes of
             Inl err \<Rightarrow> Inl err
           | Inr peers \<Rightarrow> Inr (p # peers)))"

definition buildDesiredPeers ::
  "string \<Rightarrow> ClusterEntry \<Rightarrow> Node list \<Rightarrow> int \<Rightarrow> error + Peer list" where
  "buildDesiredPeers meshName entry nodes meshKeepalive =
     (let anchorExtras = CollectAnchorCIDRs entry nodes
      in build_loop meshName entry meshKeepalive anchorExtras 0 nodes)"

fun keepalive_loop :: "int \<Rightarrow> ClusterEntry list \<Rightarrow> int" where
  "keepalive_loop keepalive [] = keepalive"
| "keepalive_loop keepalive (entry # entries) =
     keepalive_loop (max keepalive (entry_PersistentKeepalive entry)) entries"

definition meshPersistentKeepalive :: "ClusterMesh \<Rightarrow> int" where
  "meshPersistentKeepalive mesh = keepalive_loop 0 (mesh_Clusters mesh)"

section \<open>Requeueing\<close>

datatype reconcileState = reconcileStateDone | reconcileStateBootstrap | reconcileStateSynced

text \<open>A \<^verbatim>\<open>ctrl.Result\<close> by its \<^verbatim>\<open>RequeueAfter\<close> in seconds; zero is no requeue.\<close>

definition bootstrapRequeueAfter :: nat where "bootstrapRequeueAfter = 30"

definition syncRequeueAfter :: nat where "syncRequeueAfter = 5 * 60"

definition selectResult :: "reconcileState \<Rightarrow> error option \<Rightarrow> nat \<times> error option" where
  "selectResult state err =
     (case err of
        Some e \<Rightarrow> (0, Some e)
      | None \<Rightarrow>
          (if state = reconcileStateBootstrap then (bootstrapRequeueAfter, None)
           else if state = reconcileStateSynced then (syncRequeueAfter, None)
           else (0, None)))"

section \<open>Discovered endpoints\<close>

definition parseDiscoveredEndpoint :: "string \<Rightarrow> error + PeerEndpoint" where
  "parseDiscoveredEndpoint hostPort =
     (case SplitHostPort hostPort of
        Inl splitErr \<Rightarrow> Inl (Wrapf splitErr ''splitting discovered endpoint host:port'' [])
      | Inr (host, portStr) \<Rightarrow>
          (case ParseUint portStr 16 of
             Inl parseErr \<Rightarrow> Inl (Wrapf parseErr ''parsing port in discovered endpoint %q'' [hostPort])
           | Inr port \<Rightarrow> Inr \<lparr>ep_DNSOrIP = \<lparr>ep_DNS = '''', ep_IP = host\<rparr>, ep_Port = of_nat port\<rparr>))"

section \<open>Facts\<close>

definition peerable :: "Node list \<Rightarrow> ClusterEntry \<Rightarrow> Node \<Rightarrow> bool" where
  "peerable nodes entry node \<longleftrightarrow>
     map_of (FindDuplicateWGIPs nodes) (node_Name node) = None \<and> ValidateNode node entry = None"

lemma filter_loop_valid:
  "fst (filter_loop dups entry nodes) =
     filter (\<lambda>n. map_of dups (node_Name n) = None \<and> ValidateNode n entry = None) nodes"
  by (induction nodes) (auto split: prod.splits option.splits)

lemma filterNodes_valid: "fst (filterNodes nodes entry) = filter (peerable nodes entry) nodes"
  by (simp add: filterNodes_def filter_loop_valid peerable_def [abs_def])

lemma build_loop_Inr_iff:
  "build_loop m entry ka extras i nodes = Inr peers \<longleftrightarrow>
     length peers = length nodes \<and>
     (\<forall>k < length nodes. BuildPeer m entry (nodes ! k) (if i + k = 0 then extras else []) ka = Inr (peers ! k))"
proof (induction nodes arbitrary: i peers)
  case (Cons node nodes)
  show ?case
  proof (cases peers)
    case (Cons p ps)
    then show ?thesis
      by (auto simp: Cons.IH Let_def All_less_Suc2 split: sum.splits)
  qed (auto simp: Let_def split: sum.splits)
qed auto

lemma buildDesiredPeers_Inr_iff:
  "buildDesiredPeers m entry nodes ka = Inr peers \<longleftrightarrow>
     length peers = length nodes \<and>
     (\<forall>k < length nodes. BuildPeer m entry (nodes ! k)
        (if k = 0 then CollectAnchorCIDRs entry nodes else []) ka = Inr (peers ! k))"
  by (simp add: buildDesiredPeers_def build_loop_Inr_iff)

lemma buildDesiredPeers_validated:
  assumes "\<And>n. n \<in> set nodes \<Longrightarrow> ValidateNode n entry = None"
  shows "\<exists>peers. buildDesiredPeers m entry nodes ka = Inr peers"
proof -
  have "\<exists>p. BuildPeer m entry (nodes ! k) (if k = 0 then CollectAnchorCIDRs entry nodes else []) ka = Inr p"
    if "k < length nodes" for k
    using that assms [of "nodes ! k"] by (intro BuildPeer_validated) simp
  then obtain f where "\<forall>k < length nodes. BuildPeer m entry (nodes ! k)
      (if k = 0 then CollectAnchorCIDRs entry nodes else []) ka = Inr (f k)" by metis
  then show ?thesis
    by (intro exI [of _ "map f [0..<length nodes]"]) (simp add: buildDesiredPeers_Inr_iff)
qed

lemma filterNodes_builds:
  "\<exists>peers. buildDesiredPeers m entry (fst (filterNodes nodes entry)) ka = Inr peers"
  by (rule buildDesiredPeers_validated) (auto simp: filterNodes_valid peerable_def)

lemma buildDesiredPeers_nth:
  assumes "buildDesiredPeers m entry nodes ka = Inr peers" "k < length nodes"
  shows "BuildPeer m entry (nodes ! k) (if k = 0 then CollectAnchorCIDRs entry nodes else []) ka = Inr (peers ! k)"
  using assms by (simp add: buildDesiredPeers_Inr_iff)

lemma nodeCoversNetwork_cases:
  assumes "nodeCoversNetwork n node" "wg_host node \<noteq> None"
  obtains (pod) pc rest c where "node_PodCIDRs node = pc # rest" "ParseCIDR pc = Inr c" "CIDRContains n c"
  | (route) ip where "Contains n ip"
      "wg_host node = Some ip \<or> (\<exists>a \<in> set (node_Addresses node). addr_Type a = NodeInternalIP \<and> ParseIP (addr_Address a) = Some ip)"
  using assms
  by (fastforce simp: nodeCoversNetwork_def nodeCoversAddresses_iff wg_host_def Let_def
      split: if_splits list.splits sum.splits)

lemma keepalive_loop_eq: "keepalive_loop k es = Max (insert k (entry_PersistentKeepalive ` set es))"
proof (induction es arbitrary: k)
  case (Cons e es)
  have "Max (insert (max k (entry_PersistentKeepalive e)) (entry_PersistentKeepalive ` set es)) =
      Max (insert k (insert (entry_PersistentKeepalive e) (entry_PersistentKeepalive ` set es)))"
    by (cases "set es = {}") (simp_all add: Max_insert max.assoc)
  with Cons.IH show ?case by simp
qed simp

lemma meshPersistentKeepalive_ge:
  "0 \<le> meshPersistentKeepalive mesh"
  "e \<in> set (mesh_Clusters mesh) \<Longrightarrow> entry_PersistentKeepalive e \<le> meshPersistentKeepalive mesh"
  by (simp_all add: meshPersistentKeepalive_def keepalive_loop_eq)

section \<open>Properties\<close>

text \<open>
  No two Peers of a source cluster claim the same WireGuard address: for nodes with distinct names
  (as a cluster has them), the nodes kept by \<^verbatim>\<open>filterNodes\<close> have pairwise different WireGuard host addresses.
\<close>

lemma filterNodes_distinct_wg:
  assumes "distinct (map node_Name nodes)"
  shows "distinct (map wg_host (fst (filterNodes nodes entry)))"
proof -
  have "a = b" if a: "a \<in> set nodes" "peerable nodes entry a" and b: "b \<in> set nodes" "peerable nodes entry b"
    and eq: "wg_host a = wg_host b" for a b
  proof -
    obtain key where "wg_key a = Some key" "wg_key b = Some key"
      using ValidateNode_wg_host [of a entry] ValidateNode_wg_host [of b entry] a(2) b(2) eq
      by (auto simp: peerable_def)
    with a b show ?thesis
      using non_duplicates_distinct_keys [OF assms] by (auto simp: peerable_def)
  qed
  moreover have "distinct nodes" using assms by (simp add: distinct_map)
  ultimately show ?thesis by (auto simp: filterNodes_valid distinct_map inj_on_def)
qed

text \<open>
  Position \<^verbatim>\<open>i\<close> of the node list holds a later duplicate: its node has a WireGuard annotation, and so has a
  node before it, with the same normalised value (the printed host address, or the annotation
  itself where it does not parse).
\<close>

definition wg_duplicate :: "Node list \<Rightarrow> nat \<Rightarrow> bool" where
  "wg_duplicate nodes i \<longleftrightarrow>
     wg_key (nodes ! i) \<noteq> None \<and> (\<exists>j < i. wg_key (nodes ! j) = wg_key (nodes ! i))"

text \<open>The event recorded for position \<^verbatim>\<open>i\<close>, none for a node that is kept.\<close>

definition skip_event :: "Node list \<Rightarrow> ClusterEntry \<Rightarrow> nat \<Rightarrow> event option" where
  "skip_event nodes entry i =
     (if wg_duplicate nodes i
      then Some (ReasonWGIPDuplicate, Newf ''node %s has duplicate WireGuard IP'' [node_Name (nodes ! i)])
      else ValidateNode (nodes ! i) entry)"

lemma duplicates_at:
  assumes "distinct (map node_Name nodes)" and "i < length nodes"
  shows "map_of (FindDuplicateWGIPs nodes) (node_Name (nodes ! i)) =
     (if wg_duplicate nodes i then Some ReasonWGIPDuplicate else None)"
  using FindDuplicateWGIPs_exact [OF assms] FindDuplicateWGIPs_reason [of nodes "node_Name (nodes ! i)"]
  unfolding wg_duplicate_def by (cases "map_of (FindDuplicateWGIPs nodes) (node_Name (nodes ! i))") auto

definition skip_of :: "(string \<times> NodeSkipReason) list \<Rightarrow> ClusterEntry \<Rightarrow> Node \<Rightarrow> event option" where
  "skip_of duplicates entry node =
     (case map_of duplicates (node_Name node) of
        Some r \<Rightarrow> Some (r, Newf ''node %s has duplicate WireGuard IP'' [node_Name node])
      | None \<Rightarrow> ValidateNode node entry)"

lemma filter_loop_result:
  assumes "\<And>n r. map_of dups n = Some r \<Longrightarrow> \<not> IsTransient r"
  shows "filter_loop dups entry nodes =
     (let events = List.map_filter (skip_of dups entry) nodes
      in (filter (\<lambda>n. skip_of dups entry n = None) nodes, length events,
          length (filter (\<lambda>ev. IsTransient (fst ev)) events), events))"
  using assms
  by (induction nodes) (auto simp: Let_def skip_of_def split: option.splits)

lemma map_filter_length: "length (filter (\<lambda>x. f x = None) xs) + length (List.map_filter f xs) = length xs"
  by (induction xs) (auto split: option.splits)

lemma skip_of_nth:
  assumes "distinct (map node_Name nodes)" and "i < length nodes"
  shows "skip_of (FindDuplicateWGIPs nodes) entry (nodes ! i) = skip_event nodes entry i"
  by (simp add: skip_of_def skip_event_def duplicates_at [OF assms])

lemma nths_skip:
  assumes "distinct (map node_Name nodes)"
  shows "List.map_filter (skip_of (FindDuplicateWGIPs nodes) entry) nodes =
      List.map_filter (skip_event nodes entry) [0..<length nodes]"
    and "filter (\<lambda>n. skip_of (FindDuplicateWGIPs nodes) entry n = None) nodes =
      map (nth nodes) (filter (\<lambda>i. skip_event nodes entry i = None) [0..<length nodes])"
proof -
  have eq: "filter (\<lambda>n. P (skip_of (FindDuplicateWGIPs nodes) entry n)) nodes =
      map (nth nodes) (filter (\<lambda>i. P (skip_event nodes entry i)) [0..<length nodes])" for P
  proof -
    have "filter (\<lambda>n. P (skip_of (FindDuplicateWGIPs nodes) entry n)) (map (nth nodes) [0..<length nodes]) =
        map (nth nodes) (filter (\<lambda>i. P (skip_event nodes entry i)) [0..<length nodes])"
      using skip_of_nth [OF assms] by (auto simp: filter_map comp_def intro!: arg_cong [of _ _ "map _"] filter_cong)
    then show ?thesis by (simp add: map_nth)
  qed
  show "filter (\<lambda>n. skip_of (FindDuplicateWGIPs nodes) entry n = None) nodes =
      map (nth nodes) (filter (\<lambda>i. skip_event nodes entry i = None) [0..<length nodes])"
    by (rule eq)
  show "List.map_filter (skip_of (FindDuplicateWGIPs nodes) entry) nodes =
      List.map_filter (skip_event nodes entry) [0..<length nodes]"
    using skip_of_nth [OF assms] by (simp add: List.map_filter_def eq [of "\<lambda>x. x \<noteq> None"] del: not_None_eq)
qed

lemma skip_event_None_iff:
  "skip_event nodes entry i = None \<longleftrightarrow>
     ValidateNode (nodes ! i) entry = None \<and> (\<forall>j < i. wg_key (nodes ! j) \<noteq> wg_key (nodes ! i))"
  using ValidateNode_wg_host [of "nodes ! i" entry] by (auto simp: skip_event_def wg_duplicate_def)

text \<open>
  C19. \<^verbatim>\<open>filterNodes\<close> is exact. For nodes with distinct names (as a cluster has them) it keeps, in their order,
  exactly the nodes that pass \<^verbatim>\<open>ValidateNode\<close> and that have no node before them in the list with the same
  normalised WireGuard address; the kept nodes have pairwise different WireGuard host addresses.
  Every other node is counted as skipped and gives one event, in order: the duplicate reason for a
  later holder of an address, otherwise the reason of \<^verbatim>\<open>ValidateNode\<close>. The transient count is the number of
  those events with a transient reason.
\<close>

theorem filterNodes_spec:
  assumes "distinct (map node_Name nodes)"
  shows "case filterNodes nodes entry of (valid, skipped, transientSkipped, events) \<Rightarrow>
     valid = map (nth nodes) (filter (\<lambda>i. ValidateNode (nodes ! i) entry = None \<and>
       (\<forall>j < i. wg_key (nodes ! j) \<noteq> wg_key (nodes ! i))) [0..<length nodes]) \<and>
     distinct (map wg_host valid) \<and>
     events = List.map_filter (skip_event nodes entry) [0..<length nodes] \<and>
     skipped = length events \<and> length valid + skipped = length nodes \<and>
     transientSkipped = length (filter (\<lambda>ev. IsTransient (fst ev)) events)"
proof -
  have "\<not> IsTransient r" if "map_of (FindDuplicateWGIPs nodes) n = Some r" for n r
    using FindDuplicateWGIPs_reason [OF that] by simp
  then have "filterNodes nodes entry =
      (let events = List.map_filter (skip_event nodes entry) [0..<length nodes]
       in (map (nth nodes) (filter (\<lambda>i. skip_event nodes entry i = None) [0..<length nodes]),
           length events, length (filter (\<lambda>ev. IsTransient (fst ev)) events), events))"
    by (simp add: filterNodes_def filter_loop_result nths_skip [OF assms])
  then show ?thesis
    using filterNodes_distinct_wg [OF assms, of entry]
      map_filter_length [of "skip_event nodes entry" "[0..<length nodes]"]
    by (simp add: Let_def flip: skip_event_None_iff)
qed

definition example_node3 :: Node where
  "example_node3 = \<lparr>node_Name = ''n3'',
     node_Annotations = [(AnnotationWireguardIP, ''100.66.0.4/16''), (AnnotationPublicKey, ''K3'')],
     node_PodCIDRs = [''10.244.3.0/24''], node_Addresses = []\<rparr>"

lemma example_filter:
  "filterNodes [example_node, example_node2, example_node3] example_entry =
     ([example_node, example_node3], 1, 0,
      [(ReasonWGIPDuplicate, Newf ''node %s has duplicate WireGuard IP'' [''n2''])])"
  by code_simp

theorem filterNodes_spec_witness:
  "filterNodes [example_node, example_node2, example_node3] example_entry =
     ([example_node, example_node3], 1, 0,
      [(ReasonWGIPDuplicate, Newf ''node %s has duplicate WireGuard IP'' [''n2''])]) \<and>
   distinct (map wg_host [example_node, example_node3])"
proof -
  have "distinct (map node_Name [example_node, example_node2, example_node3])"
    by (simp add: example_node_def example_node2_def example_node3_def)
  from filterNodes_spec [OF this, of example_entry, unfolded example_filter prod.case]
  show ?thesis unfolding example_filter by blast
qed

text \<open>
  An unreadable annotation can shadow a valid node: the raw text of an annotation without prefix
  length is the very key of a valid annotation with that host address, so a node that is skipped
  for its annotation makes a later, valid node a duplicate.
\<close>

definition bare_address_node :: Node where
  "bare_address_node = \<lparr>node_Name = ''n0'',
     node_Annotations = [(AnnotationWireguardIP, ''100.66.0.3''), (AnnotationPublicKey, ''K0'')],
     node_PodCIDRs = [''10.244.0.0/24''], node_Addresses = []\<rparr>"

lemma raw_address_shadows:
  "fst (filterNodes [bare_address_node, example_node] example_entry) = [] \<and>
   fst (filterNodes [example_node] example_entry) = [example_node]"
  by code_simp

text \<open>
  Building the Peers of a source cluster never fails: for whatever nodes the cluster has,
  \<^verbatim>\<open>buildDesiredPeers\<close> of the nodes that \<^verbatim>\<open>filterNodes\<close> keeps returns one Peer per node, in their order, each with the
  name and the public key of its node. So the error branches of \<^verbatim>\<open>BuildPeer\<close> are unreachable in the controller.
\<close>

theorem filtered_nodes_build:
  "\<exists>peers. buildDesiredPeers meshName entry (fst (filterNodes nodes entry)) keepalive = Inr peers \<and>
     map peer_Name peers = map (\<lambda>n. Name meshName (entry_Name entry) (node_Name n)) (fst (filterNodes nodes entry)) \<and>
     map (\<lambda>p. PublicKey (peer_Spec p)) peers =
       map (\<lambda>n. map_get (node_Annotations n) AnnotationPublicKey) (fst (filterNodes nodes entry))"
proof -
  obtain peers where p: "buildDesiredPeers meshName entry (fst (filterNodes nodes entry)) keepalive = Inr peers"
    using filterNodes_builds by blast
  then have "length peers = length (fst (filterNodes nodes entry))" by (simp add: buildDesiredPeers_Inr_iff)
  with p show ?thesis
    by (auto intro!: nth_equalityI dest: BuildPeer_content [OF buildDesiredPeers_nth])
qed

text \<open>
  C18. Every declared network stays routed: if a source cluster has a valid node, each entry of its AllowedNetworks
  is either carried verbatim by the first Peer, or it parses and some Peer already routes part of it: a PodCIDR
  inside it, or the host route of an address inside it.
\<close>

theorem anchor_coverage:
  assumes "buildDesiredPeers meshName entry nodes keepalive = Inr peers" and "nodes \<noteq> []"
    and "s \<in> set (entry_AllowedNetworks entry)"
  shows "s \<in> set (AllowedIPs (peer_Spec (peers ! 0))) \<or>
     (\<exists>n. ParseCIDR s = Inr n \<and> (\<exists>p \<in> set peers.
        (\<exists>pc c. pc \<in> set (AllowedIPs (peer_Spec p)) \<and> ParseCIDR pc = Inr c \<and> CIDRContains n c) \<or>
        (\<exists>ip. HostRoute ip \<in> set (AllowedIPs (peer_Spec p)) \<and> Contains n ip)))"
proof (cases "s \<in> set (CollectAnchorCIDRs entry nodes)")
  case True
  with buildDesiredPeers_nth [OF assms(1), of 0] assms(2) show ?thesis
    by (auto dest: BuildPeer_content)
next
  case False
  then obtain n node where n: "ParseCIDR s = Inr n" "node \<in> set nodes" "nodeCoversNetwork n node"
    using assms(3) by (auto simp: CollectAnchorCIDRs_def anchor_residual_eq networkCoveredByAnyNode_iff split: sum.splits)
  then obtain k where k: "k < length nodes" "nodes ! k = node" by (auto simp: in_set_conv_nth)
  note built = buildDesiredPeers_nth [OF assms(1) k(1), unfolded k(2)]
  have "peers ! k \<in> set peers" using assms(1) k(1) by (simp add: buildDesiredPeers_Inr_iff)
  moreover have "wg_host node \<noteq> None" using built by (auto simp: BuildPeer_Inr_iff)
  from n(3) this have "(\<exists>pc c. pc \<in> set (AllowedIPs (peer_Spec (peers ! k))) \<and> ParseCIDR pc = Inr c \<and> CIDRContains n c) \<or>
      (\<exists>ip. HostRoute ip \<in> set (AllowedIPs (peer_Spec (peers ! k))) \<and> Contains n ip)"
    using BuildPeer_content [OF built]
    by (cases rule: nodeCoversNetwork_cases) (auto, blast+)
  ultimately show ?thesis using n(1) by blast
qed

lemma example_plan:
  "\<exists>peers. buildDesiredPeers ''m'' example_entry [example_node, example_node3] 25 = Inr peers"
proof -
  have "[example_node, example_node3] = fst (filterNodes [example_node, example_node2, example_node3] example_entry)"
    by (simp add: example_filter)
  then show ?thesis using filterNodes_builds by metis
qed

theorem anchor_coverage_witness:
  "\<exists>peers. buildDesiredPeers ''m'' example_entry [example_node, example_node3] 25 = Inr peers \<and>
    (''10.96.0.0/12'' \<in> set (AllowedIPs (peer_Spec (peers ! 0))) \<or>
     (\<exists>n. ParseCIDR ''10.96.0.0/12'' = Inr n \<and> (\<exists>p \<in> set peers.
        (\<exists>pc c. pc \<in> set (AllowedIPs (peer_Spec p)) \<and> ParseCIDR pc = Inr c \<and> CIDRContains n c) \<or>
        (\<exists>ip. HostRoute ip \<in> set (AllowedIPs (peer_Spec p)) \<and> Contains n ip))))"
proof -
  obtain peers where p: "buildDesiredPeers ''m'' example_entry [example_node, example_node3] 25 = Inr peers"
    using example_plan by blast
  from anchor_coverage [OF p, of "''10.96.0.0/12''"] p show ?thesis by (simp add: example_entry_def)
qed

text \<open>
  Only the first Peer carries cluster-wide networks: every other Peer routes exactly the PodCIDR, the
  WireGuard address and the internal addresses of its own node.
\<close>

theorem anchor_exclusive:
  assumes "buildDesiredPeers meshName entry nodes keepalive = Inr peers" and "0 < k" and "k < length nodes"
  shows "set (AllowedIPs (peer_Spec (peers ! k))) =
     {hd (node_PodCIDRs (nodes ! k))} \<union> (HostRoute ` set_option (wg_host (nodes ! k))) \<union>
     {HostRoute ip | ip a. a \<in> set (node_Addresses (nodes ! k)) \<and> addr_Type a = NodeInternalIP \<and>
        ParseIP (addr_Address a) = Some ip}"
proof -
  have "BuildPeer meshName entry (nodes ! k) [] keepalive = Inr (peers ! k)"
    using buildDesiredPeers_nth [OF assms(1,3)] assms(2) by simp
  from BuildPeer_content [OF this] show ?thesis by simp
qed

theorem anchor_exclusive_witness:
  "\<exists>peers. buildDesiredPeers ''m'' example_entry [example_node, example_node3] 25 = Inr peers \<and>
     set (AllowedIPs (peer_Spec (peers ! 1))) = {''10.244.3.0/24''} \<union> (HostRoute ` set_option (wg_host example_node3))"
proof -
  obtain peers where p: "buildDesiredPeers ''m'' example_entry [example_node, example_node3] 25 = Inr peers"
    using example_plan by blast
  from anchor_exclusive [OF p, of 1] p show ?thesis by (simp add: example_node3_def)
qed

text \<open>
  C29. The keepalive floor: every Peer built for an entry of a mesh has the greatest keepalive that any entry of
  the mesh declares (and not less than zero), so both ends of a tunnel refresh a NAT mapping.
\<close>

theorem keepalive_floor:
  assumes "buildDesiredPeers (mesh_Name mesh) entry nodes (meshPersistentKeepalive mesh) = Inr peers"
    and "entry \<in> set (mesh_Clusters mesh)" and "p \<in> set peers"
  shows "PersistentKeepalive (peer_Spec p) =
     Max (insert 0 (entry_PersistentKeepalive ` set (mesh_Clusters mesh)))"
proof -
  obtain k where k: "k < length nodes" "p = peers ! k"
    using assms(1,3) by (auto simp: in_set_conv_nth buildDesiredPeers_Inr_iff)
  have "PersistentKeepalive (peer_Spec p) = max (entry_PersistentKeepalive entry) (meshPersistentKeepalive mesh)"
    using BuildPeer_content [OF buildDesiredPeers_nth [OF assms(1) k(1)]] k(2) by simp
  also have "\<dots> = meshPersistentKeepalive mesh" using meshPersistentKeepalive_ge(2) [OF assms(2)] by simp
  finally show ?thesis by (simp add: meshPersistentKeepalive_def keepalive_loop_eq)
qed

definition example_mesh :: ClusterMesh where
  "example_mesh = new_mesh ''m'' ''ns''
     [example_entry, example_entry\<lparr>entry_Name := ''b'', entry_PersistentKeepalive := 25\<rparr>]"

theorem keepalive_floor_witness:
  "\<exists>p peers. buildDesiredPeers ''m'' example_entry [example_node, example_node3] 25 = Inr peers \<and> p \<in> set peers \<and>
     PersistentKeepalive (peer_Spec p) = 25"
proof -
  obtain peers where p: "buildDesiredPeers ''m'' example_entry [example_node, example_node3] 25 = Inr peers"
    using example_plan by blast
  have ka: "mesh_Name example_mesh = ''m''" "meshPersistentKeepalive example_mesh = 25" by code_simp+
  have mem: "peers ! 0 \<in> set peers" using p by (simp add: buildDesiredPeers_Inr_iff)
  have "PersistentKeepalive (peer_Spec (peers ! 0)) =
      Max (insert 0 (entry_PersistentKeepalive ` set (mesh_Clusters example_mesh)))"
    by (rule keepalive_floor [of example_mesh example_entry "[example_node, example_node3]" peers, unfolded ka, OF p _ mem])
      (simp add: example_mesh_def)
  with p mem show ?thesis by (auto simp: example_mesh_def example_entry_def)
qed

text \<open>
  A discovered endpoint survives its round trip: an endpoint written with \<^verbatim>\<open>net.JoinHostPort\<close> from an address
  that parses and a port below 65536 is read back by \<^verbatim>\<open>parseDiscoveredEndpoint\<close> as that address and that port, with IPv6
  addresses bracketed and unbracketed on the way.
\<close>

theorem parseDiscoveredEndpoint_roundtrip:
  assumes "ParseIP host = Some ip" and "0 \<le> port" and "port < 65536"
  shows "parseDiscoveredEndpoint (JoinHostPort host (Itoa port)) =
     Inr \<lparr>ep_DNSOrIP = \<lparr>ep_DNS = '''', ep_IP = host\<rparr>, ep_Port = of_int port\<rparr>"
proof -
  have i: "Itoa port = dec_string (nat port)" "nat port < 2 ^ 16" "of_nat (nat port) = (of_int port :: 32 word)"
    using assms(2,3) by (simp_all add: Itoa_def)
  have "SplitHostPort (JoinHostPort host (dec_string (nat port))) = Inr (host, dec_string (nat port))"
    using ParseIP_no_brackets [OF assms(1)] dec_string_digits by (simp add: SplitHostPort_JoinHostPort)
  then show ?thesis unfolding i(1)
    using i(2,3) by (simp add: parseDiscoveredEndpoint_def ParseUint_dec_string)
qed

theorem parseDiscoveredEndpoint_roundtrip_witness:
  "parseDiscoveredEndpoint (JoinHostPort ''2001:db8::7'' (Itoa 51820)) =
     Inr \<lparr>ep_DNSOrIP = \<lparr>ep_DNS = '''', ep_IP = ''2001:db8::7''\<rparr>, ep_Port = of_int 51820\<rparr>"
proof -
  have "ParseIP ''2001:db8::7'' \<noteq> None" by code_simp
  then obtain ip where "ParseIP ''2001:db8::7'' = Some ip" by blast
  then show ?thesis by (rule parseDiscoveredEndpoint_roundtrip) simp_all
qed

end
