(* ===== verification/MeshValidation.thy ===== *)
theory MeshValidation
  imports MeshTypes
begin

text \<open>
  Package \<^verbatim>\<open>internal/validation\<close>, file \<^verbatim>\<open>mesh.go\<close>: the CIDRs of a mesh, and of all meshes of a
  namespace, must not overlap, but for a cluster that several meshes share.
\<close>

section \<open>Operations\<close>

record parsedCIDR =
  pc_cluster :: string
  pc_raw :: string
  pc_net :: IPNet

fun parse_entry_cidrs :: "string \<Rightarrow> string list \<Rightarrow> error + parsedCIDR list" where
  "parse_entry_cidrs cluster [] = Inr []"
| "parse_entry_cidrs cluster (raw # raws) =
     (case ParseCIDR raw of
        Inl err \<Rightarrow> Inl (Wrapf err ''cluster %q'' [cluster])
      | Inr parsed \<Rightarrow>
          (case parse_entry_cidrs cluster raws of
             Inl err \<Rightarrow> Inl err
           | Inr result \<Rightarrow> Inr (\<lparr>pc_cluster = cluster, pc_raw = raw, pc_net = parsed\<rparr> # result)))"

fun parseClusters :: "ClusterEntry list \<Rightarrow> error + parsedCIDR list" where
  "parseClusters [] = Inr []"
| "parseClusters (c # clusters) =
     (case parse_entry_cidrs (entry_Name c) (AllCIDRs c) of
        Inl err \<Rightarrow> Inl err
      | Inr xs \<Rightarrow>
          (case parseClusters clusters of
             Inl err \<Rightarrow> Inl err
           | Inr ys \<Rightarrow> Inr (xs @ ys)))"

definition overlap_error :: "string \<Rightarrow> string \<Rightarrow> parsedCIDR \<Rightarrow> parsedCIDR \<Rightarrow> error" where
  "overlap_error meshA meshB cidrA cidrB =
     (if meshA \<noteq> '''' \<and> meshA \<noteq> meshB
      then Newf ''CIDR overlap between mesh %q (cluster %q, %s) and mesh %q (cluster %q, %s)''
        [meshA, pc_cluster cidrA, pc_raw cidrA, meshB, pc_cluster cidrB, pc_raw cidrB]
      else Newf ''CIDR overlap between cluster %q (%s) and cluster %q (%s)''
        [pc_cluster cidrA, pc_raw cidrA, pc_cluster cidrB, pc_raw cidrB])"

text \<open>The inner loop, over the CIDRs after \<^verbatim>\<open>cidrA\<close>, and the outer loop.\<close>

fun check_against :: "parsedCIDR \<Rightarrow> string \<Rightarrow> string \<Rightarrow> parsedCIDR list \<Rightarrow> error option" where
  "check_against cidrA meshA meshB [] = None"
| "check_against cidrA meshA meshB (cidrB # rest) =
     (if (meshA \<noteq> '''' \<and> meshA \<noteq> meshB) \<and> pc_cluster cidrA = pc_cluster cidrB
      then check_against cidrA meshA meshB rest
      else if \<not> CIDROverlaps (pc_net cidrA) (pc_net cidrB)
      then check_against cidrA meshA meshB rest
      else Some (overlap_error meshA meshB cidrA cidrB))"

fun checkOverlaps :: "parsedCIDR list \<Rightarrow> string \<Rightarrow> string \<Rightarrow> error option" where
  "checkOverlaps [] meshA meshB = None"
| "checkOverlaps (c # cidrs) meshA meshB =
     (case check_against c meshA meshB cidrs of
        Some err \<Rightarrow> Some err
      | None \<Rightarrow> checkOverlaps cidrs meshA meshB)"

definition ValidateClusterNetworks :: "ClusterEntry list \<Rightarrow> error option" where
  "ValidateClusterNetworks clusters =
     (case parseClusters clusters of
        Inl err \<Rightarrow> Some err
      | Inr cidrs \<Rightarrow> checkOverlaps cidrs '''' '''')"

text \<open>The three loops of \<^verbatim>\<open>ValidateMeshNetworks\<close>.\<close>

fun validate_each_mesh :: "ClusterMesh list \<Rightarrow> error option" where
  "validate_each_mesh [] = None"
| "validate_each_mesh (m # meshes) =
     (case ValidateClusterNetworks (mesh_Clusters m) of
        Some err \<Rightarrow> Some (Wrapf err ''mesh %q'' [mesh_Name m])
      | None \<Rightarrow> validate_each_mesh meshes)"

fun parse_each_mesh :: "ClusterMesh list \<Rightarrow> error + (string \<times> parsedCIDR list) list" where
  "parse_each_mesh [] = Inr []"
| "parse_each_mesh (m # meshes) =
     (case parseClusters (mesh_Clusters m) of
        Inl err \<Rightarrow> Inl (Wrapf err ''mesh %q'' [mesh_Name m])
      | Inr cidrs \<Rightarrow>
          (case parse_each_mesh meshes of
             Inl err \<Rightarrow> Inl err
           | Inr rest \<Rightarrow> Inr ((mesh_Name m, cidrs) # rest)))"

fun check_mesh_against ::
  "string \<times> parsedCIDR list \<Rightarrow> (string \<times> parsedCIDR list) list \<Rightarrow> error option" where
  "check_mesh_against m [] = None"
| "check_mesh_against m (n # rest) =
     (case checkOverlaps (snd m @ snd n) (fst m) (fst n) of
        Some err \<Rightarrow> Some err
      | None \<Rightarrow> check_mesh_against m rest)"

fun check_mesh_pairs :: "(string \<times> parsedCIDR list) list \<Rightarrow> error option" where
  "check_mesh_pairs [] = None"
| "check_mesh_pairs (m # ms) =
     (case check_mesh_against m ms of
        Some err \<Rightarrow> Some err
      | None \<Rightarrow> check_mesh_pairs ms)"

definition ValidateMeshNetworks :: "ClusterMesh list \<Rightarrow> error option" where
  "ValidateMeshNetworks meshes =
     (case validate_each_mesh meshes of
        Some err \<Rightarrow> Some err
      | None \<Rightarrow>
          (case parse_each_mesh meshes of
             Inl err \<Rightarrow> Some err
           | Inr perMesh \<Rightarrow> check_mesh_pairs perMesh))"

section \<open>Facts\<close>

text \<open>The CIDRs of a mesh that parses: cluster name and text, in order.\<close>

definition declared_cidrs :: "ClusterEntry list \<Rightarrow> (string \<times> string) list" where
  "declared_cidrs cs = concat (map (\<lambda>c. map (Pair (entry_Name c)) (entry_AllowedNetworks c)) cs)"

definition parsed_of :: "string \<times> string \<Rightarrow> parsedCIDR option" where
  "parsed_of x = (case ParseCIDR (snd x) of
       Inl _ \<Rightarrow> None
     | Inr n \<Rightarrow> Some \<lparr>pc_cluster = fst x, pc_raw = snd x, pc_net = n\<rparr>)"

lemma parse_entry_cidrs_Inr_iff:
  "parse_entry_cidrs c raws = Inr ps \<longleftrightarrow> map (\<lambda>r. parsed_of (c, r)) raws = map Some ps"
proof (induction raws arbitrary: ps)
  case (Cons raw raws)
  show ?case
  proof (cases "ParseCIDR raw")
    case (Inl e)
    then show ?thesis by (cases ps) (auto simp: parsed_of_def)
  next
    case (Inr n)
    then have "parsed_of (c, raw) = Some \<lparr>pc_cluster = c, pc_raw = raw, pc_net = n\<rparr>"
      by (simp add: parsed_of_def)
    with Inr show ?thesis
      using Cons.IH by (cases ps) auto
  qed
qed auto

lemma parseClusters_Inr_iff:
  "parseClusters cs = Inr ps \<longleftrightarrow> map parsed_of (declared_cidrs cs) = map Some ps"
proof (induction cs arbitrary: ps)
  case Nil
  then show ?case by (auto simp: declared_cidrs_def)
next
  case (Cons c cs)
  have "map parsed_of (declared_cidrs (c # cs)) =
      map (\<lambda>r. parsed_of (entry_Name c, r)) (AllCIDRs c) @ map parsed_of (declared_cidrs cs)"
    by (simp add: declared_cidrs_def AllCIDRs_def comp_def)
  moreover have "parseClusters (c # cs) = Inr ps \<longleftrightarrow>
      (\<exists>xs ys. ps = xs @ ys \<and> parse_entry_cidrs (entry_Name c) (AllCIDRs c) = Inr xs \<and>
        parseClusters cs = Inr ys)"
    by auto
  ultimately show ?case
    by (auto simp: Cons.IH parse_entry_cidrs_Inr_iff map_eq_append_conv append_eq_map_conv
        dest: sym)
qed

lemma check_against_None_iff:
  "check_against a ma mb cs = None \<longleftrightarrow>
     (\<forall>b \<in> set cs. (ma \<noteq> '''' \<and> ma \<noteq> mb \<and> pc_cluster a = pc_cluster b) \<or>
        \<not> CIDROverlaps (pc_net a) (pc_net b))"
  by (induction cs) auto

lemma checkOverlaps_None_iff:
  "checkOverlaps cs ma mb = None \<longleftrightarrow>
     sorted_wrt (\<lambda>a b. (ma \<noteq> '''' \<and> ma \<noteq> mb \<and> pc_cluster a = pc_cluster b) \<or>
        \<not> CIDROverlaps (pc_net a) (pc_net b)) cs"
  by (induction cs) (simp_all add: check_against_None_iff)

text \<open>Two declared CIDRs are disjoint when both parse and no address lies in both.\<close>

definition cidrs_disjoint :: "string \<Rightarrow> string \<Rightarrow> bool" where
  "cidrs_disjoint s t \<longleftrightarrow> (\<exists>a b. ParseCIDR s = Inr a \<and> ParseCIDR t = Inr b \<and>
     {ip. Contains a ip} \<inter> {ip. Contains b ip} = {})"

definition parses :: "string \<Rightarrow> bool" where
  "parses s \<longleftrightarrow> (\<exists>n. ParseCIDR s = Inr n)"

lemma parsed_of_Some_iff:
  "parsed_of x = Some p \<longleftrightarrow>
     ParseCIDR (snd x) = Inr (pc_net p) \<and> pc_cluster p = fst x \<and> pc_raw p = snd x"
  by (auto simp: parsed_of_def split: sum.splits)

lemma parsed_of_disjoint:
  assumes "parsed_of x = Some p" "parsed_of y = Some q"
  shows "cidrs_disjoint (snd x) (snd y) \<longleftrightarrow> \<not> CIDROverlaps (pc_net p) (pc_net q)"
  using assms CIDROverlaps_shared [of "pc_net p" "pc_net q"]
  by (auto simp: parsed_of_Some_iff cidrs_disjoint_def ParseCIDR_wf)

lemma all_parse_iff: "(\<exists>ps. map parsed_of xs = map Some ps) \<longleftrightarrow> (\<forall>x \<in> set xs. parses (snd x))"
proof (induction xs)
  case (Cons x xs)
  have "(\<exists>p. parsed_of x = Some p) \<longleftrightarrow> parses (snd x)"
    by (auto simp: parsed_of_def parses_def split: sum.splits)
  moreover have "(\<exists>ps. map parsed_of (x # xs) = map Some ps) \<longleftrightarrow>
      (\<exists>p. parsed_of x = Some p) \<and> (\<exists>ps. map parsed_of xs = map Some ps)"
    by (auto simp: Cons_eq_map_conv)
  ultimately show ?case using Cons.IH by simp
qed simp

lemma sorted_wrt_map_Some:
  assumes "map f xs = map Some ps"
    and "\<And>x y p q. f x = Some p \<Longrightarrow> f y = Some q \<Longrightarrow> P p q \<longleftrightarrow> Q x y"
  shows "sorted_wrt P ps \<longleftrightarrow> sorted_wrt Q xs"
  using assms(1)
proof (induction xs arbitrary: ps)
  case (Cons x xs)
  then obtain p qs where ps: "ps = p # qs" "f x = Some p" "map f xs = map Some qs"
    by (auto simp: Cons_eq_map_conv)
  have "(\<forall>q \<in> set qs. P p q) \<longleftrightarrow> (\<forall>y \<in> set xs. Q x y)"
  proof -
    have "f ` set xs = Some ` set qs" using arg_cong [OF ps(3), of set] by simp
    then have "\<forall>y \<in> set xs. \<exists>q \<in> set qs. f y = Some q" "\<forall>q \<in> set qs. \<exists>y \<in> set xs. f y = Some q"
      by (auto dest: equalityD1 equalityD2 simp: image_subset_iff image_iff set_eq_iff) metis+
    then show ?thesis using assms(2) [OF ps(2)] by blast
  qed
  with Cons.IH [OF ps(3)] ps show ?case by simp
qed simp

text \<open>
  A list of meshes whose CIDRs all parse passes the pairwise check when the CIDRs of different
  clusters, across every two meshes joined in order, are disjoint.
\<close>

definition disjoint_across :: "string \<times> string \<Rightarrow> string \<times> string \<Rightarrow> bool" where
  "disjoint_across x y \<longleftrightarrow> fst x = fst y \<or> cidrs_disjoint (snd x) (snd y)"

lemma checkOverlaps_intra:
  assumes "map parsed_of xs = map Some ps"
  shows "checkOverlaps ps '''' '''' = None \<longleftrightarrow> sorted_wrt (\<lambda>x y. cidrs_disjoint (snd x) (snd y)) xs"
  unfolding checkOverlaps_None_iff
  by (rule sorted_wrt_map_Some [OF assms]) (simp add: parsed_of_disjoint)

lemma checkOverlaps_cross:
  assumes "map parsed_of xs = map Some ps" and "ma \<noteq> ''''" and "ma \<noteq> mb"
  shows "checkOverlaps ps ma mb = None \<longleftrightarrow> sorted_wrt disjoint_across xs"
  unfolding checkOverlaps_None_iff
proof (rule sorted_wrt_map_Some [OF assms(1)])
  fix x y p q assume "parsed_of x = Some p" "parsed_of y = Some q"
  with assms(2,3) show "((ma \<noteq> '''' \<and> ma \<noteq> mb \<and> pc_cluster p = pc_cluster q) \<or>
      \<not> CIDROverlaps (pc_net p) (pc_net q)) \<longleftrightarrow> disjoint_across x y"
    using parsed_of_disjoint [of x p y q] by (auto simp: disjoint_across_def parsed_of_Some_iff)
qed

lemma ValidateClusterNetworks_None_iff:
  "ValidateClusterNetworks cs = None \<longleftrightarrow>
     (\<forall>x \<in> set (declared_cidrs cs). parses (snd x)) \<and>
     sorted_wrt (\<lambda>x y. cidrs_disjoint (snd x) (snd y)) (declared_cidrs cs)"
proof (cases "parseClusters cs")
  case (Inl e)
  then have "\<not> (\<exists>ps. map parsed_of (declared_cidrs cs) = map Some ps)"
    using parseClusters_Inr_iff [of cs] by auto
  with Inl show ?thesis by (auto simp: ValidateClusterNetworks_def all_parse_iff)
next
  case (Inr ps)
  then have "map parsed_of (declared_cidrs cs) = map Some ps" by (simp add: parseClusters_Inr_iff)
  then show ?thesis
    using Inr checkOverlaps_intra all_parse_iff [of "declared_cidrs cs"]
    by (auto simp: ValidateClusterNetworks_def)
qed

lemma validate_each_mesh_None_iff:
  "validate_each_mesh ms = None \<longleftrightarrow> (\<forall>m \<in> set ms. ValidateClusterNetworks (mesh_Clusters m) = None)"
  by (induction ms) (auto split: option.splits)

lemma parse_each_mesh_valid:
  assumes "\<forall>m \<in> set ms. ValidateClusterNetworks (mesh_Clusters m) = None"
  shows "\<exists>qs. parse_each_mesh ms = Inr qs \<and> map fst qs = map mesh_Name ms \<and>
    list_all2 (\<lambda>m q. map parsed_of (declared_cidrs (mesh_Clusters m)) = map Some (snd q)) ms qs"
  using assms
proof (induction ms)
  case (Cons m ms)
  then obtain qs where "parse_each_mesh ms = Inr qs" "map fst qs = map mesh_Name ms"
    "list_all2 (\<lambda>m q. map parsed_of (declared_cidrs (mesh_Clusters m)) = map Some (snd q)) ms qs"
    by auto
  moreover obtain ps where ps: "parseClusters (mesh_Clusters m) = Inr ps"
    using Cons.prems by (auto simp: ValidateClusterNetworks_def split: sum.splits)
  moreover have "map parsed_of (declared_cidrs (mesh_Clusters m)) = map Some ps"
    using ps by (simp only: parseClusters_Inr_iff)
  ultimately show ?case by auto
qed simp

text \<open>The CIDRs of one mesh against those of another one.\<close>

definition meshes_disjoint :: "ClusterMesh \<Rightarrow> ClusterMesh \<Rightarrow> bool" where
  "meshes_disjoint m n \<longleftrightarrow>
     (\<forall>x \<in> set (declared_cidrs (mesh_Clusters m)). \<forall>y \<in> set (declared_cidrs (mesh_Clusters n)).
        fst x \<noteq> fst y \<longrightarrow> cidrs_disjoint (snd x) (snd y))"

lemma sorted_wrt_across:
  assumes "ValidateClusterNetworks (mesh_Clusters m) = None"
    and "ValidateClusterNetworks (mesh_Clusters n) = None"
  shows "sorted_wrt disjoint_across
       (declared_cidrs (mesh_Clusters m) @ declared_cidrs (mesh_Clusters n)) \<longleftrightarrow> meshes_disjoint m n"
proof -
  have "sorted_wrt disjoint_across (declared_cidrs (mesh_Clusters k))"
    if "ValidateClusterNetworks (mesh_Clusters k) = None" for k
    using that by (auto simp: ValidateClusterNetworks_None_iff disjoint_across_def
        elim: sorted_wrt_mono_rel [rotated])
  with assms show ?thesis
    by (auto simp: sorted_wrt_append meshes_disjoint_def disjoint_across_def)
qed

lemma check_mesh_against_None_iff:
  assumes "list_all2 (\<lambda>m q. map parsed_of (declared_cidrs (mesh_Clusters m)) = map Some (snd q)) (m # ms) (q # qs)"
    and "map fst (q # qs) = map mesh_Name (m # ms)"
    and "\<forall>k \<in> set (m # ms). ValidateClusterNetworks (mesh_Clusters k) = None"
    and "mesh_Name m \<noteq> ''''" "mesh_Name m \<notin> mesh_Name ` set ms"
  shows "check_mesh_against q qs = None \<longleftrightarrow> (\<forall>n \<in> set ms. meshes_disjoint m n)"
  using assms
proof (induction ms arbitrary: qs)
  case (Cons n ms)
  then obtain r rs where qs: "qs = r # rs" by (cases qs) auto
  have "map parsed_of (declared_cidrs (mesh_Clusters m) @ declared_cidrs (mesh_Clusters n)) =
      map Some (snd q @ snd r)"
    using Cons.prems qs by simp
  then have "checkOverlaps (snd q @ snd r) (fst q) (fst r) = None \<longleftrightarrow> meshes_disjoint m n"
    using checkOverlaps_cross [of _ _ "fst q" "fst r"] sorted_wrt_across [of m n] Cons.prems qs
    by (simp del: map_append)
  with Cons qs show ?case by auto
qed simp

lemma check_mesh_pairs_None_iff:
  assumes "list_all2 (\<lambda>m q. map parsed_of (declared_cidrs (mesh_Clusters m)) = map Some (snd q)) ms qs"
    and "map fst qs = map mesh_Name ms"
    and "\<forall>k \<in> set ms. ValidateClusterNetworks (mesh_Clusters k) = None"
    and "distinct (map mesh_Name ms)" "'''' \<notin> set (map mesh_Name ms)"
  shows "check_mesh_pairs qs = None \<longleftrightarrow> sorted_wrt meshes_disjoint ms"
  using assms
proof (induction ms arbitrary: qs)
  case (Cons m ms)
  then obtain q rs where qs: "qs = q # rs" by (cases qs) auto
  have "check_mesh_against q rs = None \<longleftrightarrow> (\<forall>n \<in> set ms. meshes_disjoint m n)"
    using Cons.prems qs by (intro check_mesh_against_None_iff) auto
  with Cons qs show ?case by auto
qed simp

text \<open>
  Within one mesh the validation is exact: \<^verbatim>\<open>ValidateClusterNetworks\<close> accepts the clusters
  if and only if every declared CIDR parses and the declared CIDRs, taken pairwise over the
  whole mesh (those of one cluster included), have no address in common.
\<close>

definition networks_valid :: "ClusterEntry list \<Rightarrow> bool" where
  "networks_valid clusters \<longleftrightarrow>
     (let cidrs = concat (map entry_AllowedNetworks clusters)
      in list_all parses cidrs \<and> sorted_wrt cidrs_disjoint cidrs)"

lemma declared_cidrs_snd: "map snd (declared_cidrs cs) = concat (map entry_AllowedNetworks cs)"
  by (simp add: declared_cidrs_def map_concat comp_def)

lemma ValidateClusterNetworks_exact:
  "ValidateClusterNetworks clusters = None \<longleftrightarrow> networks_valid clusters"
proof -
  have "sorted_wrt cidrs_disjoint (map snd (declared_cidrs clusters)) \<longleftrightarrow>
      sorted_wrt (\<lambda>x y. cidrs_disjoint (snd x) (snd y)) (declared_cidrs clusters)"
    by (simp only: sorted_wrt_map)
  moreover have "list_all parses (map snd (declared_cidrs clusters)) \<longleftrightarrow>
      (\<forall>x \<in> set (declared_cidrs clusters). parses (snd x))"
    by (simp add: list_all_iff)
  ultimately show ?thesis
    by (simp add: ValidateClusterNetworks_None_iff networks_valid_def Let_def
        flip: declared_cidrs_snd)
qed

lemma ValidateMeshNetworks_None_iff:
  assumes "distinct (map mesh_Name meshes)" and "'''' \<notin> set (map mesh_Name meshes)"
  shows "ValidateMeshNetworks meshes = None \<longleftrightarrow>
     (\<forall>m \<in> set meshes. ValidateClusterNetworks (mesh_Clusters m) = None) \<and>
     sorted_wrt meshes_disjoint meshes"
proof (cases "\<forall>m \<in> set meshes. ValidateClusterNetworks (mesh_Clusters m) = None")
  case True
  then obtain qs where "parse_each_mesh meshes = Inr qs" and q: "map fst qs = map mesh_Name meshes"
    "list_all2 (\<lambda>m q. map parsed_of (declared_cidrs (mesh_Clusters m)) = map Some (snd q)) meshes qs"
    using parse_each_mesh_valid by blast
  moreover have "validate_each_mesh meshes = None" using True by (simp only: validate_each_mesh_None_iff)
  ultimately have "ValidateMeshNetworks meshes = check_mesh_pairs qs"
    by (simp add: ValidateMeshNetworks_def)
  with check_mesh_pairs_None_iff [OF q(2) q(1) True assms] True show ?thesis by simp
next
  case False
  then have "validate_each_mesh meshes \<noteq> None" using validate_each_mesh_None_iff by blast
  with False show ?thesis by (auto simp: ValidateMeshNetworks_def)
qed

section \<open>Properties\<close>

text \<open>
  C14. The validation of all meshes is exact. For meshes with distinct, non-empty names (as
  Kubernetes gives them in a namespace), \<^verbatim>\<open>ValidateMeshNetworks\<close> accepts if and only if
  (1) every CIDR of every mesh parses, (2) within each mesh the CIDRs, taken pairwise over all
  its clusters (two CIDRs of one cluster included), have no address in common, and (3) for
  every two meshes, a CIDR of the one and a CIDR of the other whose clusters have different
  names have no address in common. CIDRs that two meshes declare for a cluster of the same
  name are not compared with each other, whatever they are.
\<close>

theorem ValidateMeshNetworks_exact:
  assumes "distinct (map mesh_Name meshes)" and "'''' \<notin> set (map mesh_Name meshes)"
  shows "ValidateMeshNetworks meshes = None \<longleftrightarrow>
     (\<forall>m \<in> set meshes.
        (let cidrs = concat (map entry_AllowedNetworks (mesh_Clusters m))
         in (\<forall>s \<in> set cidrs. \<exists>n. ParseCIDR s = Inr n) \<and> sorted_wrt cidrs_disjoint cidrs)) \<and>
     sorted_wrt (\<lambda>m n. \<forall>c \<in> set (mesh_Clusters m). \<forall>d \<in> set (mesh_Clusters n).
        entry_Name c \<noteq> entry_Name d \<longrightarrow>
          (\<forall>s \<in> set (entry_AllowedNetworks c). \<forall>t \<in> set (entry_AllowedNetworks d). cidrs_disjoint s t))
       meshes"
proof -
  have "meshes_disjoint = (\<lambda>m n. \<forall>c \<in> set (mesh_Clusters m). \<forall>d \<in> set (mesh_Clusters n).
      entry_Name c \<noteq> entry_Name d \<longrightarrow>
        (\<forall>s \<in> set (entry_AllowedNetworks c). \<forall>t \<in> set (entry_AllowedNetworks d). cidrs_disjoint s t))"
    by (intro ext) (auto simp: meshes_disjoint_def declared_cidrs_def)
  then show ?thesis
    unfolding ValidateMeshNetworks_None_iff [OF assms] ValidateClusterNetworks_exact
      networks_valid_def list_all_iff parses_def by (simp only:)
qed

definition hub_mesh :: "string \<Rightarrow> string \<Rightarrow> string \<Rightarrow> ClusterMesh" where
  "hub_mesh name spoke cidr = new_mesh name ''ns''
     [\<lparr>entry_Name = ''ceph'', entry_Local = True, entry_KubeconfigSecretRef = None,
        entry_AllowedNetworks = [''10.1.0.0/16''], entry_WireguardPort = 0, entry_PersistentKeepalive = 0\<rparr>,
      \<lparr>entry_Name = spoke, entry_Local = False, entry_KubeconfigSecretRef = None,
        entry_AllowedNetworks = [cidr], entry_WireguardPort = 0, entry_PersistentKeepalive = 0\<rparr>]"

definition hub_meshes :: "ClusterMesh list" where
  "hub_meshes = [hub_mesh ''m1'' ''t1'' ''10.2.0.0/16'', hub_mesh ''m2'' ''t2'' ''10.3.0.0/16'']"

theorem ValidateMeshNetworks_exact_witness:
  "ValidateMeshNetworks hub_meshes = None \<and>
   cidrs_disjoint ''10.1.0.0/16'' ''10.2.0.0/16'' \<and> cidrs_disjoint ''10.2.0.0/16'' ''10.3.0.0/16''"
proof -
  have "distinct (map mesh_Name hub_meshes)" "'''' \<notin> set (map mesh_Name hub_meshes)"
    by (simp_all add: hub_meshes_def hub_mesh_def)
  moreover have "ValidateMeshNetworks hub_meshes = None" by code_simp
  ultimately show ?thesis
    using ValidateMeshNetworks_exact [of hub_meshes] by (simp add: hub_meshes_def hub_mesh_def)
qed

end
