(* ===== verification/PeerClient.thy ===== *)
theory PeerClient
  imports PeerNaming
begin

text \<open>
  The client of a remote cluster, as the Peer reconciler uses it. The client library is not part
  of the repository, so a client is a value of the record \<open>peer_client\<close>: one function per call,
  each threading the state of the outside world, and the order in which a Go \<^verbatim>\<open>range\<close> over a map
  visits the keys (Go leaves it unspecified). What the operator relies on is stated as locales:
  the effect of writes, that lists are up to date, and that a healthy server accepts valid
  requests. An API server that keeps the Peers in a list satisfies all of them.
\<close>

section \<open>The interface\<close>

record 'w peer_client =
  cl_List :: "selector \<Rightarrow> 'w \<Rightarrow> (error + Peer list) \<times> 'w"
  cl_Create :: "Peer \<Rightarrow> 'w \<Rightarrow> error option \<times> 'w"
  cl_Update :: "Peer \<Rightarrow> 'w \<Rightarrow> error option \<times> 'w"
  cl_Delete :: "Peer \<Rightarrow> 'w \<Rightarrow> error option \<times> 'w"
  cl_order :: "'w \<Rightarrow> string list \<Rightarrow> string list"

text \<open>The client of a cluster also lists its Nodes.\<close>

record 'w cluster_client =
  cc_Peers :: "'w peer_client"
  cc_ListNodes :: "'w \<Rightarrow> (error + Node list) \<times> 'w"

text \<open>An object matches a selector when it carries every required label with its value.\<close>

definition selects :: "selector \<Rightarrow> Peer \<Rightarrow> bool" where
  "selects sel p \<longleftrightarrow> list_all (\<lambda>(k, v). map_of (peer_Labels p) k = Some v) sel"

lemma selects_Nil [simp]: "selects [] p"
  by (simp add: selects_def)

lemma selects_OrphanSelector:
  "selects (OrphanSelector m s) p \<longleftrightarrow>
     map_of (peer_Labels p) LabelMesh = Some m \<and> map_of (peer_Labels p) LabelSourceCluster = Some s"
  by (simp add: selects_def OrphanSelector_def Labels_def)

text \<open>Iterating over a Go map: its entries, the keys visited in the client's order.\<close>

definition ranged :: "'w peer_client \<Rightarrow> 'w \<Rightarrow> (string \<times> 'v) list \<Rightarrow> (string \<times> 'v) list" where
  "ranged C w m = map (\<lambda>k. (k, the (map_of m k))) (cl_order C w (map fst m))"

text \<open>
  The laws of the writes. \<open>view\<close> is the set of Peers stored in the remote cluster. A write touches
  only the named object, whatever its result (a failed request may or may not have been applied).
  A successful create found the name free; a successful update found the object at the version
  the caller had read, and the stored version changes unless the update changed nothing; a delete, whatever
  its result, leaves the object as it was or removes it, and after a successful one, or one that reports NotFound,
  the object is gone.
\<close>

locale peer_writes =
  fixes C :: "'w peer_client" and view :: "'w \<Rightarrow> string \<Rightarrow> Peer option"
  assumes view_name: "view w n = Some p \<Longrightarrow> peer_Name p = n"
    and list_frame: "cl_List C sel w = (r, w') \<Longrightarrow> view w' = view w"
    and create_frame: "cl_Create C p w = (e, w') \<Longrightarrow> n \<noteq> peer_Name p \<Longrightarrow> view w' n = view w n"
    and create_ok: "cl_Create C p w = (None, w') \<Longrightarrow>
      view w (peer_Name p) = None \<and> (\<exists>rv. view w' (peer_Name p) = Some (p\<lparr>peer_ResourceVersion := rv\<rparr>))"
    and update_frame: "cl_Update C p w = (e, w') \<Longrightarrow> n \<noteq> peer_Name p \<Longrightarrow> view w' n = view w n"
    and update_ok: "cl_Update C p w = (None, w') \<Longrightarrow>
      \<exists>q rv. view w (peer_Name p) = Some q \<and> peer_ResourceVersion q = peer_ResourceVersion p \<and>
        view w' (peer_Name p) = Some (p\<lparr>peer_ResourceVersion := rv\<rparr>) \<and>
        (rv = peer_ResourceVersion p \<longrightarrow> p = q)"
    and delete_frame: "cl_Delete C p w = (e, w') \<Longrightarrow> n \<noteq> peer_Name p \<Longrightarrow> view w' n = view w n"
    and delete_ok: "cl_Delete C p w = (None, w') \<Longrightarrow> view w' (peer_Name p) = None"
    and delete_any: "cl_Delete C p w = (e, w') \<Longrightarrow>
      view w' (peer_Name p) = None \<or> view w' (peer_Name p) = view w (peer_Name p)"
    and delete_not_found: "cl_Delete C p w = (Some err, w') \<Longrightarrow> is_not_found err \<Longrightarrow> view w' (peer_Name p) = None"
    and order_mset: "mset (cl_order C w ks) = mset ks"
begin

lemma ranged_mset:
  assumes "distinct (map fst m)"
  shows "mset (ranged C w m) = mset m"
proof -
  have "mset (ranged C w m) = image_mset (\<lambda>k. (k, the (map_of m k))) (mset (map fst m))"
    by (simp add: ranged_def order_mset)
  also have "\<dots> = mset (map (\<lambda>x. (fst x, the (map_of m (fst x)))) m)" by (simp add: multiset.map_comp comp_def)
  also have "map (\<lambda>x. (fst x, the (map_of m (fst x)))) m = map id m"
    using assms by (intro map_cong refl) (auto simp: map_of_eq_Some_iff)
  finally show ?thesis by simp
qed

lemma ranged_facts:
  assumes "distinct (map fst m)"
  shows "set (ranged C w m) = set m" and "distinct (map fst (ranged C w m))"
proof -
  show "set (ranged C w m) = set m" using ranged_mset [OF assms] by (rule mset_eq_setD)
  have "mset (map fst (ranged C w m)) = mset (map fst m)" using ranged_mset [OF assms] by simp
  then show "distinct (map fst (ranged C w m))" using assms by (metis mset_eq_imp_distinct_iff)
qed

end

text \<open>Lists are up to date: they return exactly the stored Peers that match, each once.\<close>

locale peer_api = peer_writes +
  assumes list_names: "cl_List C sel w = (Inr ps, w') \<Longrightarrow> distinct (map peer_Name ps)"
    and list_exact: "cl_List C sel w = (Inr ps, w') \<Longrightarrow>
      p \<in> set ps \<longleftrightarrow> view w (peer_Name p) = Some p \<and> selects sel p"

text \<open>A healthy server without concurrent writers: valid requests succeed.\<close>

locale reliable_api = peer_api +
  assumes list_total: "\<exists>ps w'. cl_List C sel w = (Inr ps, w')"
    and create_total: "view w (peer_Name p) = None \<Longrightarrow> peer_ResourceVersion p = '''' \<Longrightarrow>
      \<exists>w'. cl_Create C p w = (None, w')"
    and update_total: "view w (peer_Name p) = Some q \<Longrightarrow> peer_ResourceVersion q = peer_ResourceVersion p \<Longrightarrow>
      \<exists>w'. cl_Update C p w = (None, w')"
    and delete_total: "view w (peer_Name p) = Some q \<Longrightarrow> \<exists>w'. cl_Delete C p w = (None, w')"

section \<open>An API server that keeps the Peers in a list\<close>

type_synonym peer_store = "Peer list"

definition mem_view :: "peer_store \<Rightarrow> string \<Rightarrow> Peer option" where
  "mem_view ps n = find (\<lambda>p. peer_Name p = n) ps"

definition mem_List :: "selector \<Rightarrow> peer_store \<Rightarrow> (error + Peer list) \<times> peer_store" where
  "mem_List sel ps =
     (Inr (filter (selects sel) (map (\<lambda>n. the (mem_view ps n)) (remdups (map peer_Name ps)))), ps)"

definition mem_Create :: "Peer \<Rightarrow> peer_store \<Rightarrow> error option \<times> peer_store" where
  "mem_Create p ps =
     (if peer_ResourceVersion p \<noteq> '''' then (Some (APIError (OtherReason ''Invalid'')), ps)
      else if mem_view ps (peer_Name p) \<noteq> None then (Some (APIError AlreadyExists), ps)
      else (None, ps @ [p\<lparr>peer_ResourceVersion := ''1''\<rparr>]))"

definition mem_Update :: "Peer \<Rightarrow> peer_store \<Rightarrow> error option \<times> peer_store" where
  "mem_Update p ps =
     (case mem_view ps (peer_Name p) of
        None \<Rightarrow> (Some (APIError NotFound), ps)
      | Some q \<Rightarrow>
          (if peer_ResourceVersion q \<noteq> peer_ResourceVersion p then (Some (APIError Conflict), ps)
           else if p = q then (None, ps)
           else (None, map (\<lambda>r. if peer_Name r = peer_Name p
                                then p\<lparr>peer_ResourceVersion := CHR ''1'' # peer_ResourceVersion p\<rparr>
                                else r) ps)))"

definition mem_Delete :: "Peer \<Rightarrow> peer_store \<Rightarrow> error option \<times> peer_store" where
  "mem_Delete p ps =
     (if mem_view ps (peer_Name p) = None then (Some (APIError NotFound), ps)
      else (None, filter (\<lambda>r. peer_Name r \<noteq> peer_Name p) ps))"

definition mem_client :: "peer_store peer_client" where
  "mem_client = \<lparr>cl_List = mem_List, cl_Create = mem_Create, cl_Update = mem_Update,
     cl_Delete = mem_Delete, cl_order = (\<lambda>_ ks. ks)\<rparr>"

lemma mem_client_simps [simp]:
  "cl_List mem_client = mem_List" "cl_Create mem_client = mem_Create"
  "cl_Update mem_client = mem_Update" "cl_Delete mem_client = mem_Delete"
  "cl_order mem_client = (\<lambda>_ ks. ks)"
  by (simp_all add: mem_client_def)

lemma mem_view_simps [simp]:
  "mem_view [] n = None"
  "mem_view (p # ps) n = (if peer_Name p = n then Some p else mem_view ps n)"
  by (simp_all add: mem_view_def)

lemma mem_view_name: "mem_view ps n = Some p \<Longrightarrow> peer_Name p = n"
  by (induction ps) (auto split: if_splits)

lemma mem_view_None_iff: "mem_view ps n = None \<longleftrightarrow> n \<notin> peer_Name ` set ps"
  by (induction ps) auto

lemma mem_view_append: "mem_view (ps @ qs) n = (case mem_view ps n of None \<Rightarrow> mem_view qs n | Some p \<Rightarrow> Some p)"
  by (induction ps) auto

lemma mem_view_filter:
  "mem_view (filter (\<lambda>r. peer_Name r \<noteq> k) ps) n = (if n = k then None else mem_view ps n)"
  by (induction ps) auto

lemma mem_view_replace:
  assumes "peer_Name q = k"
  shows "mem_view (map (\<lambda>r. if peer_Name r = k then q else r) ps) n =
     (if n = k \<and> mem_view ps n \<noteq> None then Some q else mem_view ps n)"
  using assms by (induction ps) auto

lemma mem_List_items:
  "p \<in> (\<lambda>n. the (mem_view ps n)) ` peer_Name ` set ps \<longleftrightarrow> mem_view ps (peer_Name p) = Some p"
  (is "?l \<longleftrightarrow> ?r")
proof
  assume ?l
  then obtain n where n: "n \<in> peer_Name ` set ps" "p = the (mem_view ps n)" by (rule imageE) simp
  then have "mem_view ps n \<noteq> None" by (simp add: mem_view_None_iff)
  with n(2) have "mem_view ps n = Some p" by simp
  with mem_view_name [OF this] show ?r by simp
next
  assume r: ?r
  then have "peer_Name p \<in> peer_Name ` set ps" using mem_view_None_iff [of ps "peer_Name p"] by simp
  moreover from r have "p = the (mem_view ps (peer_Name p))" by simp
  ultimately show ?l by (rule rev_image_eqI)
qed

lemma mem_List_names:
  "map peer_Name (map (\<lambda>n. the (mem_view ps n)) (remdups (map peer_Name ps))) = remdups (map peer_Name ps)"
proof -
  have "peer_Name (the (mem_view ps n)) = n" if "n \<in> set (remdups (map peer_Name ps))" for n
    using that mem_view_name [of ps n] by (cases "mem_view ps n") (auto simp: mem_view_None_iff)
  then show ?thesis unfolding map_map by (intro map_idI) simp
qed

lemma mem_List_facts:
  assumes "mem_List sel w = (Inr ps, w')"
  shows "distinct (map peer_Name ps)"
    and "p \<in> set ps \<longleftrightarrow> mem_view w (peer_Name p) = Some p \<and> selects sel p"
proof -
  define all where "all = map (\<lambda>n. the (mem_view w n)) (remdups (map peer_Name w))"
  have ps: "ps = filter (selects sel) all" using assms by (auto simp: mem_List_def all_def)
  have "distinct (map peer_Name all)" unfolding all_def mem_List_names by simp
  then show "distinct (map peer_Name ps)" unfolding ps by (rule distinct_map_filter)
  have "p \<in> set all \<longleftrightarrow> mem_view w (peer_Name p) = Some p"
    by (simp add: all_def mem_List_items)
  then show "p \<in> set ps \<longleftrightarrow> mem_view w (peer_Name p) = Some p \<and> selects sel p" unfolding ps by auto
qed

lemma mem_Create_view:
  "mem_Create p w = (e, w') \<Longrightarrow>
     mem_view w' = (if e = None then (mem_view w)(peer_Name p \<mapsto> p\<lparr>peer_ResourceVersion := ''1''\<rparr>)
                    else mem_view w) \<and>
     (e = None \<longleftrightarrow> mem_view w (peer_Name p) = None \<and> peer_ResourceVersion p = '''')"
  by (auto simp: mem_Create_def mem_view_append fun_eq_iff split: if_splits option.splits)

lemma mem_Update_view:
  assumes "mem_Update p w = (e, w')"
  shows "e = None \<longleftrightarrow> (\<exists>q. mem_view w (peer_Name p) = Some q \<and> peer_ResourceVersion q = peer_ResourceVersion p)"
    and "mem_view w' =
      (if e = None \<and> mem_view w (peer_Name p) \<noteq> Some p
       then (mem_view w)(peer_Name p \<mapsto> p\<lparr>peer_ResourceVersion := CHR ''1'' # peer_ResourceVersion p\<rparr>)
       else mem_view w)"
  using assms
  by (auto simp: mem_Update_def mem_view_replace fun_eq_iff split: if_splits option.splits)

lemma mem_Delete_view:
  "mem_Delete p w = (e, w') \<Longrightarrow>
     mem_view w' = (mem_view w)(peer_Name p := None) \<and> (e = None \<longleftrightarrow> mem_view w (peer_Name p) \<noteq> None)"
  by (auto simp: mem_Delete_def mem_view_filter fun_eq_iff split: if_splits)

lemma mem_Update_law:
  assumes u: "mem_Update p w = (None, w')"
  shows "\<exists>q rv. mem_view w (peer_Name p) = Some q \<and> peer_ResourceVersion q = peer_ResourceVersion p \<and>
      mem_view w' (peer_Name p) = Some (p\<lparr>peer_ResourceVersion := rv\<rparr>) \<and>
      (rv = peer_ResourceVersion p \<longrightarrow> p = q)"
proof (cases "mem_view w (peer_Name p) = Some p")
  case True
  with u mem_Update_view(2) [of p w None w'] show ?thesis
    by (intro exI [of _ p] exI [of _ "peer_ResourceVersion p"]) simp
next
  case False
  with u mem_Update_view [of p w None w'] show ?thesis
    by (auto intro!: exI [of _ "CHR ''1'' # peer_ResourceVersion p"])
qed

interpretation mem: reliable_api mem_client mem_view
proof (unfold_locales, unfold mem_client_simps)
  fix p q :: Peer and w w' :: peer_store and e err n sel r ps
  show "mem_view w n = Some p \<Longrightarrow> peer_Name p = n" by (rule mem_view_name)
  show "mem_List sel w = (r, w') \<Longrightarrow> mem_view w' = mem_view w" by (auto simp: mem_List_def)
  show "mem_List sel w = (Inr ps, w') \<Longrightarrow> distinct (map peer_Name ps)" by (rule mem_List_facts)
  show "mem_List sel w = (Inr ps, w') \<Longrightarrow>
      (p \<in> set ps) = (mem_view w (peer_Name p) = Some p \<and> selects sel p)" by (rule mem_List_facts)
  show "\<exists>ps w'. mem_List sel w = (Inr ps, w')" by (simp add: mem_List_def)
  show "mem_Create p w = (e, w') \<Longrightarrow> n \<noteq> peer_Name p \<Longrightarrow> mem_view w' n = mem_view w n"
    using mem_Create_view [of p w e w'] by simp
  show "mem_Create p w = (None, w') \<Longrightarrow> mem_view w (peer_Name p) = None \<and>
      (\<exists>rv. mem_view w' (peer_Name p) = Some (p\<lparr>peer_ResourceVersion := rv\<rparr>))"
    using mem_Create_view [of p w None w'] by auto
  show "mem_view w (peer_Name p) = None \<Longrightarrow> peer_ResourceVersion p = '''' \<Longrightarrow>
      \<exists>w'. mem_Create p w = (None, w')" by (simp add: mem_Create_def)
  show "mem_Update p w = (e, w') \<Longrightarrow> n \<noteq> peer_Name p \<Longrightarrow> mem_view w' n = mem_view w n"
    using mem_Update_view(2) [of p w e w'] by simp
  show "mem_Update p w = (None, w') \<Longrightarrow>
      \<exists>q rv. mem_view w (peer_Name p) = Some q \<and> peer_ResourceVersion q = peer_ResourceVersion p \<and>
        mem_view w' (peer_Name p) = Some (p\<lparr>peer_ResourceVersion := rv\<rparr>) \<and>
        (rv = peer_ResourceVersion p \<longrightarrow> p = q)" by (rule mem_Update_law)
  show "mem_view w (peer_Name p) = Some q \<Longrightarrow> peer_ResourceVersion q = peer_ResourceVersion p \<Longrightarrow>
      \<exists>w'. mem_Update p w = (None, w')" by (auto simp: mem_Update_def)
  show "mem_Delete p w = (e, w') \<Longrightarrow> n \<noteq> peer_Name p \<Longrightarrow> mem_view w' n = mem_view w n"
    using mem_Delete_view [of p w e w'] by simp
  show "mem_Delete p w = (None, w') \<Longrightarrow> mem_view w' (peer_Name p) = None"
    using mem_Delete_view [of p w None w'] by simp
  show "mem_Delete p w = (e, w') \<Longrightarrow>
      mem_view w' (peer_Name p) = None \<or> mem_view w' (peer_Name p) = mem_view w (peer_Name p)"
    using mem_Delete_view [of p w e w'] by simp
  show "mem_Delete p w = (Some err, w') \<Longrightarrow> is_not_found err \<Longrightarrow> mem_view w' (peer_Name p) = None"
    using mem_Delete_view [of p w "Some err" w'] by simp
  show "mem_view w (peer_Name p) = Some q \<Longrightarrow> \<exists>w'. mem_Delete p w = (None, w')"
    by (simp add: mem_Delete_def)
qed simp

end
