(* ===== verification/PeerReconciler.thy ===== *)
theory PeerReconciler
  imports PeerClient
begin

text \<open>
  \<^verbatim>\<open>internal/peer/reconciler.go\<close>: the routine that makes a remote cluster hold exactly the desired
  Peers of one mesh and one source cluster, and the sweep of Peers of removed source clusters.
  Every function threads the state of the world through the client calls in program order;
  a function that returns \<^verbatim>\<open>[]error\<close> returns the list of errors.
\<close>

section \<open>Data\<close>

type_synonym peer_map = "(string \<times> Peer) list"

section \<open>Comparing and merging AllowedIPs\<close>

definition allowedIPsEqual :: "string list \<Rightarrow> string list \<Rightarrow> bool" where
  "allowedIPsEqual ipsA ipsB =
     (if length ipsA \<noteq> length ipsB then False else sort ipsA = sort ipsB)"

definition peerSpecEqual :: "PeerSpec \<Rightarrow> PeerSpec \<Rightarrow> bool" where
  "peerSpecEqual specA specB =
     (if PublicKey specA \<noteq> PublicKey specB then False
      else if PersistentKeepalive specA \<noteq> PersistentKeepalive specB then False
      else if PresharedKey specA \<noteq> PresharedKey specB then False
      else if Endpoint specA \<noteq> Endpoint specB then False
      else allowedIPsEqual (AllowedIPs specA) (AllowedIPs specB))"

text \<open>The keys of the set \<^verbatim>\<open>seen\<close> are visited in the order given by the first argument.\<close>

definition mergeAllowedIPs :: "(string list \<Rightarrow> string list) \<Rightarrow> string list \<Rightarrow> string list \<Rightarrow> string list" where
  "mergeAllowedIPs order a b =
     (let seen = foldl (\<lambda>s ip. AList.update ip () s) [] a;
          seen = foldl (\<lambda>s ip. AList.update ip () s) seen b;
          merged = order (map fst seen)
      in sort merged)"

section \<open>The maps\<close>

definition buildDesiredMap :: "Peer list \<Rightarrow> peer_map" where
  "buildDesiredMap desired = foldl (\<lambda>result peer. AList.update (peer_Name peer) peer result) [] desired"

definition buildExistingMap :: "Peer list \<Rightarrow> peer_map" where
  "buildExistingMap items = foldl (\<lambda>result peer. AList.update (peer_Name peer) peer result) [] items"

fun byPublicKey_loop :: "peer_map \<Rightarrow> Peer list \<Rightarrow> peer_map" where
  "byPublicKey_loop result [] = result"
| "byPublicKey_loop result (p # items) =
     byPublicKey_loop
       (case map_of result (PublicKey (peer_Spec p)) of
          None \<Rightarrow> AList.update (PublicKey (peer_Spec p)) p result
        | Some existing \<Rightarrow>
            (if peer_Name p < peer_Name existing then AList.update (PublicKey (peer_Spec p)) p result
             else result))
       items"

definition buildAllPeersByPublicKey :: "'w peer_client \<Rightarrow> 'w \<Rightarrow> (error + peer_map) \<times> 'w" where
  "buildAllPeersByPublicKey C w =
     (case cl_List C [] w of
        (Inl err, w) \<Rightarrow> (Inl (Wrapf err ''listing all peers'' []), w)
      | (Inr items, w) \<Rightarrow> (Inr (byPublicKey_loop [] items), w))"

section \<open>Writing\<close>

definition mergeIntoCanonical ::
  "'w peer_client \<Rightarrow> Peer \<Rightarrow> string list \<Rightarrow> string \<Rightarrow> 'w \<Rightarrow> error list \<times> 'w" where
  "mergeIntoCanonical C canonical newIPs collidingName w =
     (let merged = mergeAllowedIPs (cl_order C w) (AllowedIPs (peer_Spec canonical)) newIPs
      in if allowedIPsEqual merged (AllowedIPs (peer_Spec canonical)) then ([], w)
      else let updated = canonical\<lparr>peer_Spec := (peer_Spec canonical)\<lparr>AllowedIPs := merged\<rparr>\<rparr>
      in case cl_Update C updated w of
        (Some err, w) \<Rightarrow>
          ([Wrapf err ''merging AllowedIPs into canonical peer %s (publicKey collision with %s)''
              [peer_Name canonical, collidingName]], w)
      | (None, w) \<Rightarrow> ([], w))"

definition createOrMerge ::
  "'w peer_client \<Rightarrow> string \<Rightarrow> Peer \<Rightarrow> peer_map \<Rightarrow> 'w \<Rightarrow> error list \<times> 'w" where
  "createOrMerge C name desiredPeer allByPubKey w =
     (let create = (case cl_Create C desiredPeer w of
                      (Some err, w) \<Rightarrow> ([Wrapf err ''creating peer %s'' [name]], w)
                    | (None, w) \<Rightarrow> ([], w))
      in case map_of allByPubKey (PublicKey (peer_Spec desiredPeer)) of
        Some canonical \<Rightarrow>
          (if peer_Name canonical \<noteq> name
           then mergeIntoCanonical C canonical (AllowedIPs (peer_Spec desiredPeer)) name w
           else create)
      | None \<Rightarrow> create)"

text \<open>The body of the loop of \<^verbatim>\<open>reconcileDesired\<close>, and the loop over the entries it visits.\<close>

definition reconcile_entry ::
  "'w peer_client \<Rightarrow> peer_map \<Rightarrow> peer_map \<Rightarrow> string \<times> Peer \<Rightarrow> 'w \<Rightarrow> error list \<times> 'w" where
  "reconcile_entry C existingByName allByPubKey x w =
     (case x of (name, desiredPeer) \<Rightarrow>
       (case map_of existingByName name of
          None \<Rightarrow> createOrMerge C name desiredPeer allByPubKey w
        | Some existingPeer \<Rightarrow>
            (if peerSpecEqual (peer_Spec existingPeer) (peer_Spec desiredPeer) then ([], w)
             else case cl_Update C (existingPeer\<lparr>peer_Spec := peer_Spec desiredPeer\<rparr>) w of
               (Some err, w) \<Rightarrow> ([Wrapf err ''updating peer %s'' [name]], w)
             | (None, w) \<Rightarrow> ([], w))))"

fun each :: "('a \<Rightarrow> 'w \<Rightarrow> error list \<times> 'w) \<Rightarrow> 'a list \<Rightarrow> 'w \<Rightarrow> error list \<times> 'w" where
  "each f [] w = ([], w)"
| "each f (x # xs) w =
     (case f x w of (errs, w) \<Rightarrow> (case each f xs w of (errs', w) \<Rightarrow> (errs @ errs', w)))"

definition reconcileDesired ::
  "'w peer_client \<Rightarrow> peer_map \<Rightarrow> peer_map \<Rightarrow> peer_map \<Rightarrow> 'w \<Rightarrow> error list \<times> 'w" where
  "reconcileDesired C desiredByName existingByName allByPubKey w =
     each (reconcile_entry C existingByName allByPubKey) (ranged C w desiredByName) w"

definition orphan_entry ::
  "'w peer_client \<Rightarrow> peer_map \<Rightarrow> string \<times> Peer \<Rightarrow> 'w \<Rightarrow> error list \<times> 'w" where
  "orphan_entry C desiredByName x w =
     (case x of (name, existingPeer) \<Rightarrow>
       (if map_of desiredByName name = None then
          (case cl_Delete C existingPeer w of
             (Some err, w) \<Rightarrow> ([Wrapf err ''deleting orphan peer %s'' [name]], w)
           | (None, w) \<Rightarrow> ([], w))
        else ([], w)))"

definition deleteOrphans :: "'w peer_client \<Rightarrow> peer_map \<Rightarrow> peer_map \<Rightarrow> 'w \<Rightarrow> error list \<times> 'w" where
  "deleteOrphans C desiredByName existingByName w =
     each (orphan_entry C desiredByName) (ranged C w existingByName) w"

section \<open>The two entry points\<close>

definition ReconcilePeers ::
  "'w peer_client \<Rightarrow> string \<Rightarrow> string \<Rightarrow> Peer list \<Rightarrow> 'w \<Rightarrow> error option \<times> 'w" where
  "ReconcilePeers C meshName sourceCluster desired w =
     (case buildAllPeersByPublicKey C w of
        (Inl err, w) \<Rightarrow> (Some (Wrapf err ''listing all peers for publicKey deduplication'' []), w)
      | (Inr allByPubKey, w) \<Rightarrow>
          (case cl_List C (OrphanSelector meshName sourceCluster) w of
             (Inl err, w) \<Rightarrow> (Some (Wrapf err ''listing existing peers'' []), w)
           | (Inr existing, w) \<Rightarrow>
               (let desiredByName = buildDesiredMap desired;
                    existingByName = buildExistingMap existing
                in case reconcileDesired C desiredByName existingByName allByPubKey w of
                     (errs, w) \<Rightarrow>
                       (case deleteOrphans C desiredByName existingByName w of
                          (errs', w) \<Rightarrow> (join_errors (errs @ errs'), w)))))"

definition stale_entry ::
  "'w peer_client \<Rightarrow> string list \<Rightarrow> Peer \<Rightarrow> 'w \<Rightarrow> error list \<times> 'w" where
  "stale_entry C valid item w =
     (let src = map_get (peer_Labels item) LabelSourceCluster
      in if src \<in> set valid then ([], w)
      else case cl_Delete C item w of
        (None, w) \<Rightarrow> ([], w)
      | (Some err, w) \<Rightarrow>
          (if \<not> is_not_found err
           then ([Wrapf err ''deleting stale peer %q (source=%q)'' [peer_Name item, src]], w)
           else ([], w)))"

definition DeleteStaleSourceClusters ::
  "'w peer_client \<Rightarrow> string \<Rightarrow> string list \<Rightarrow> 'w \<Rightarrow> error option \<times> 'w" where
  "DeleteStaleSourceClusters C meshName validSourceClusters w =
     (case cl_List C [(LabelMesh, meshName)] w of
        (Inl err, w) \<Rightarrow> (Some (Wrapf err ''listing peers for mesh %q'' [meshName]), w)
      | (Inr items, w) \<Rightarrow>
          (case each (stale_entry C validSourceClusters) items w of
             (errs, w) \<Rightarrow> (join_errors errs, w)))"

section \<open>Facts about AllowedIPs\<close>

lemma sort_eq_iff_mset: "sort xs = sort ys \<longleftrightarrow> mset xs = mset (ys :: 'a :: linorder list)"
  by (metis mset_sort properties_for_sort sorted_sort)

lemma allowedIPsEqual_iff: "allowedIPsEqual a b \<longleftrightarrow> mset a = mset b"
  by (auto simp: allowedIPsEqual_def sort_eq_iff_mset dest: mset_eq_length)

lemma peerSpecEqual_iff:
  "peerSpecEqual a b \<longleftrightarrow> a\<lparr>AllowedIPs := []\<rparr> = b\<lparr>AllowedIPs := []\<rparr> \<and> mset (AllowedIPs a) = mset (AllowedIPs b)"
  by (cases a; cases b) (auto simp: peerSpecEqual_def allowedIPsEqual_iff)

lemma peerSpecEqual_refl [simp]: "peerSpecEqual a a"
  by (simp add: peerSpecEqual_iff)

lemma foldl_update_unit:
  assumes "distinct (map fst s)"
  shows "distinct (map fst (foldl (\<lambda>s ip. AList.update ip () s) s a)) \<and>
     set (map fst (foldl (\<lambda>s ip. AList.update ip () s) s a)) = set (map fst s) \<union> set a"
  using assms
proof (induction a arbitrary: s)
  case (Cons x a)
  have "distinct (map fst (AList.update x () s))" using Cons.prems by (rule distinct_update)
  from Cons.IH [OF this] show ?case by (auto simp: dom_update)
qed simp

lemma mergeAllowedIPs_eq:
  assumes "\<And>ks. mset (order ks) = mset ks"
  shows "mergeAllowedIPs order a b = sorted_list_of_set (set a \<union> set b)"
proof -
  define seen where "seen = foldl (\<lambda>s ip. AList.update ip () s) (foldl (\<lambda>s ip. AList.update ip () s) [] a) b"
  have k: "distinct (map fst seen)" "set (map fst seen) = set a \<union> set b"
    using foldl_update_unit [of "[]" a] foldl_update_unit [of "foldl (\<lambda>s ip. AList.update ip () s) [] a" b]
    by (auto simp: seen_def)
  have "mset (order (map fst seen)) = mset (map fst seen)" by (rule assms)
  then have "sort (order (map fst seen)) = sort (map fst seen)" by (simp only: sort_eq_iff_mset)
  also have "\<dots> = sorted_list_of_set (set a \<union> set b)"
    using k by (metis sorted_list_of_set_sort_remdups distinct_remdups_id)
  finally show ?thesis by (simp add: mergeAllowedIPs_def seen_def)
qed

section \<open>Facts about the maps\<close>

definition named :: "peer_map \<Rightarrow> bool" where
  "named m \<longleftrightarrow> distinct (map fst m) \<and> (\<forall>(n, p) \<in> set m. peer_Name p = n)"

lemma foldl_update_map:
  "map_of (foldl (\<lambda>r p. AList.update (peer_Name p) p r) m ps) n =
     (case find (\<lambda>p. peer_Name p = n) (rev ps) of None \<Rightarrow> map_of m n | Some p \<Rightarrow> Some p)"
  by (induction ps rule: rev_induct) (auto simp: update_conv')

lemma distinct_foldl_update:
  "distinct (map fst m) \<Longrightarrow> distinct (map fst (foldl (\<lambda>r p. AList.update (peer_Name p) p r) m ps))"
  by (induction ps arbitrary: m) (simp_all add: distinct_update)

lemma buildExistingMap_eq: "buildExistingMap = buildDesiredMap"
  by (rule ext) (simp add: buildExistingMap_def buildDesiredMap_def)

lemma map_of_buildDesiredMap: "map_of (buildDesiredMap ps) n = find (\<lambda>p. peer_Name p = n) (rev ps)"
  by (simp add: buildDesiredMap_def foldl_update_map split: option.splits)

lemma named_buildDesiredMap [simp]: "named (buildDesiredMap ps)"
proof -
  have d: "distinct (map fst (buildDesiredMap ps))" by (simp add: buildDesiredMap_def distinct_foldl_update)
  moreover have "peer_Name p = n" if "(n, p) \<in> set (buildDesiredMap ps)" for n p
    using that d by (auto simp: map_of_eq_Some_iff [symmetric] map_of_buildDesiredMap find_Some_iff)
  ultimately show ?thesis by (auto simp: named_def)
qed

lemma find_rev_names:
  "distinct (map peer_Name ps) \<Longrightarrow>
     find (\<lambda>p. peer_Name p = n) (rev ps) = Some p \<longleftrightarrow> p \<in> set ps \<and> peer_Name p = n"
  by (induction ps rule: rev_induct) (auto simp: image_iff)

lemma find_None_names: "find (\<lambda>p. peer_Name p = n) ps = None \<longleftrightarrow> n \<notin> peer_Name ` set ps"
  by (induction ps) auto

lemma map_of_buildDesiredMap_Some:
  "distinct (map peer_Name ps) \<Longrightarrow>
     map_of (buildDesiredMap ps) n = Some p \<longleftrightarrow> p \<in> set ps \<and> peer_Name p = n"
  by (simp add: map_of_buildDesiredMap find_rev_names)

lemma buildDesiredMap_mem:
  assumes "x \<in> set (buildDesiredMap ps)"
  shows "snd x \<in> set ps" "fst x = peer_Name (snd x)"
proof -
  have "map_of (buildDesiredMap ps) (fst x) = Some (snd x)"
    using assms named_buildDesiredMap [of ps] by (simp add: named_def)
  then have "find (\<lambda>p. peer_Name p = fst x) (rev ps) = Some (snd x)" by (simp add: map_of_buildDesiredMap)
  then show "snd x \<in> set ps" "fst x = peer_Name (snd x)"
    by (auto simp: find_Some_iff) (metis nth_mem length_rev set_rev)
qed

lemma map_of_buildDesiredMap_None: "map_of (buildDesiredMap ps) n = None \<longleftrightarrow> n \<notin> peer_Name ` set ps"
  by (simp add: map_of_buildDesiredMap find_None_names)

text \<open>The canonical Peer of a public key: the one with the least name.\<close>

definition is_canonical :: "Peer set \<Rightarrow> string \<Rightarrow> Peer \<Rightarrow> bool" where
  "is_canonical ps key c \<longleftrightarrow> c \<in> ps \<and> PublicKey (peer_Spec c) = key \<and>
     (\<forall>p \<in> ps. PublicKey (peer_Spec p) = key \<longrightarrow> peer_Name c \<le> peer_Name p)"

lemma is_canonical_name:
  assumes "is_canonical ps key c" "is_canonical ps key c'"
  shows "peer_Name c = peer_Name c'"
  using assms unfolding is_canonical_def by (intro antisym) blast+

definition canonical_map :: "peer_map \<Rightarrow> Peer set \<Rightarrow> bool" where
  "canonical_map m ps \<longleftrightarrow>
     (\<forall>key c. map_of m key = Some c \<longrightarrow> is_canonical ps key c) \<and>
     (\<forall>key. map_of m key = None \<longrightarrow> (\<forall>p \<in> ps. PublicKey (peer_Spec p) \<noteq> key))"

lemma byPublicKey_loop_canonical:
  "canonical_map m ps \<Longrightarrow> canonical_map (byPublicKey_loop m items) (ps \<union> set items)"
proof (induction m items arbitrary: ps rule: byPublicKey_loop.induct)
  case (2 m p items)
  let ?k = "PublicKey (peer_Spec p)"
  let ?m = "case map_of m ?k of None \<Rightarrow> AList.update ?k p m
      | Some e \<Rightarrow> if peer_Name p < peer_Name e then AList.update ?k p m else m"
  have "canonical_map ?m (insert p ps)"
    using 2 (2) unfolding canonical_map_def is_canonical_def
    by (fastforce simp: update_conv' split: option.splits if_splits)
  from 2 (1) [OF this] show ?case by simp
qed simp

lemma canonical_map_byPublicKey: "canonical_map (byPublicKey_loop [] items) (set items)"
  using byPublicKey_loop_canonical [of "[]" "{}" items] by (simp add: canonical_map_def is_canonical_def)

section \<open>Loops of independent steps\<close>

lemma each_Nil_iff:
  "each f (x # xs) w = ([], w') \<longleftrightarrow> (\<exists>w1. f x w = ([], w1) \<and> each f xs w1 = ([], w'))"
  by (auto split: prod.splits)

lemma each_preserves:
  assumes "each f xs w = (errs, w')"
    and "\<And>x w es w'. x \<in> set xs \<Longrightarrow> f x w = (es, w') \<Longrightarrow> g w' = g w"
  shows "g w' = g w"
  using assms
proof (induction xs arbitrary: w errs)
  case (Cons x xs)
  obtain es1 w1 es2 where s: "f x w = (es1, w1)" "each f xs w1 = (es2, w')"
    using Cons.prems(1) by (auto split: prod.splits)
  have "g w' = g w1" by (rule Cons.IH [OF s(2)]) (rule Cons.prems(2), auto)
  moreover have "g w1 = g w" using Cons.prems(2) [OF _ s(1)] by simp
  ultimately show ?case by simp
qed simp

text \<open>
  A run without errors establishes what the step at \<open>x\<close> establishes, when the other steps leave
  the relevant part \<open>g\<close> of the world alone.
\<close>

lemma each_establishes:
  assumes "each f xs w = ([], w')" and "x \<in> set xs" and "distinct xs"
    and other: "\<And>y w es w'. y \<in> set xs \<Longrightarrow> y \<noteq> x \<Longrightarrow> f y w = (es, w') \<Longrightarrow> g w' = g w"
    and this_one: "\<And>v v'. g v = g w \<Longrightarrow> f x v = ([], v') \<Longrightarrow> P (g v')"
  shows "P (g w')"
  using assms
proof (induction xs arbitrary: w)
  case (Cons y ys)
  obtain w1 where s: "f y w = ([], w1)" "each f ys w1 = ([], w')"
    using Cons.prems(1) by (auto simp: each_Nil_iff simp del: each.simps)
  show ?case
  proof (cases "y = x")
    case True
    have "g w' = g w1"
      by (rule each_preserves [OF s(2)]) (use Cons.prems(3,4) True in auto)
    then show ?thesis using Cons.prems(5) [of w w1] s(1) True by simp
  next
    case False
    then have eq: "g w1 = g w" using Cons.prems(4) [OF _ _ s(1)] by simp
    show ?thesis
    proof (rule Cons.IH [OF s(2)])
      show "x \<in> set ys" "distinct ys" using Cons.prems(2,3) False by auto
      show "g v' = g v" if "z \<in> set ys" "z \<noteq> x" "f z v = (es, v')" for z v es v'
        using Cons.prems(4) [OF _ that(2,3)] that(1) by simp
      show "P (g v')" if "g v = g w1" "f x v = ([], v')" for v v'
        using Cons.prems(5) [of v v'] that eq by simp
    qed
  qed
qed simp

lemma each_noop: "(\<And>x. x \<in> set xs \<Longrightarrow> f x w = ([], w)) \<Longrightarrow> each f xs w = ([], w)"
  by (induction xs) auto

text \<open>A loop succeeds when each step does from its own precondition, which the others keep.\<close>

lemma each_succeeds:
  assumes "distinct xs" and "\<And>x. x \<in> set xs \<Longrightarrow> Q x w"
    and "\<And>x y w es w'. x \<in> set xs \<Longrightarrow> y \<in> set xs \<Longrightarrow> x \<noteq> y \<Longrightarrow> f y w = (es, w') \<Longrightarrow> Q x w \<Longrightarrow> Q x w'"
    and "\<And>x w. x \<in> set xs \<Longrightarrow> Q x w \<Longrightarrow> \<exists>w'. f x w = ([], w')"
  shows "\<exists>w'. each f xs w = ([], w')"
  using assms
proof (induction xs arbitrary: w)
  case (Cons x xs)
  obtain w1 where s: "f x w = ([], w1)" using Cons.prems(4) [OF _ Cons.prems(2)] by auto
  have "\<exists>w'. each f xs w1 = ([], w')"
  proof (rule Cons.IH)
    show "distinct xs" using Cons.prems(1) by simp
    show "Q y w1" if "y \<in> set xs" for y
      using that Cons.prems(1) by (intro Cons.prems(3) [OF _ _ _ s Cons.prems(2)]) auto
    show "Q y v'" if "y \<in> set xs" "z \<in> set xs" "y \<noteq> z" "f z v = (es, v')" "Q y v" for y z v es v'
      using Cons.prems(3) [OF _ _ that(3,4,5)] that(1,2) by simp
    show "\<exists>v'. f y v = ([], v')" if "y \<in> set xs" "Q y v" for y v
      using Cons.prems(4) [OF _ that(2)] that(1) by simp
  qed
  with s show ?case by auto
qed simp

section \<open>Steps\<close>

text \<open>
  A desired entry that has no Peer of its own under the selector, and whose public key another
  Peer already carries, is merged into that canonical Peer; every other entry is written under
  its own name.
\<close>

definition merge_target :: "peer_map \<Rightarrow> peer_map \<Rightarrow> string \<times> Peer \<Rightarrow> Peer option" where
  "merge_target E K x =
     (if map_of E (fst x) \<noteq> None then None
      else case map_of K (PublicKey (peer_Spec (snd x))) of
        None \<Rightarrow> None
      | Some c \<Rightarrow> if peer_Name c = fst x then None else Some c)"

definition written :: "peer_map \<Rightarrow> peer_map \<Rightarrow> string \<times> Peer \<Rightarrow> string" where
  "written E K x = (case merge_target E K x of None \<Rightarrow> fst x | Some c \<Rightarrow> peer_Name c)"

lemma named_map_ofD: "named m \<Longrightarrow> map_of m n = Some p \<Longrightarrow> peer_Name p = n"
  by (auto simp: named_def dest: map_of_SomeD)

lemma reconcile_entry_merge:
  "merge_target E K (n, p) = Some c \<Longrightarrow>
     reconcile_entry C E K (n, p) w = mergeIntoCanonical C c (AllowedIPs (peer_Spec p)) n w"
  by (auto simp: merge_target_def reconcile_entry_def createOrMerge_def split: option.splits if_splits)

lemma reconcile_entry_own:
  assumes "merge_target E K (n, p) = None"
  shows "reconcile_entry C E K (n, p) w =
    (case map_of E n of
       None \<Rightarrow> (case cl_Create C p w of (Some err, w) \<Rightarrow> ([Wrapf err ''creating peer %s'' [n]], w)
                  | (None, w) \<Rightarrow> ([], w))
     | Some e \<Rightarrow>
         (if peerSpecEqual (peer_Spec e) (peer_Spec p) then ([], w)
          else case cl_Update C (e\<lparr>peer_Spec := peer_Spec p\<rparr>) w of
            (Some err, w) \<Rightarrow> ([Wrapf err ''updating peer %s'' [n]], w)
          | (None, w) \<Rightarrow> ([], w)))"
  using assms
  by (simp add: reconcile_entry_def createOrMerge_def merge_target_def split: option.splits if_splits)

text \<open>The stored Peer \<open>r\<close> carries the content of the desired Peer \<open>p\<close>, under its old labels if it existed.\<close>

definition holds :: "peer_map \<Rightarrow> Peer \<Rightarrow> Peer option \<Rightarrow> bool" where
  "holds E p r \<longleftrightarrow> (\<exists>q. r = Some q \<and> peerSpecEqual (peer_Spec q) (peer_Spec p) \<and>
     peer_Labels q = (case map_of E (peer_Name p) of None \<Rightarrow> peer_Labels p | Some e \<Rightarrow> peer_Labels e))"

text \<open>The canonical Peer \<open>c\<close> as stored, after the AllowedIPs \<open>ips\<close> were merged into it.\<close>

definition absorbed :: "Peer \<Rightarrow> string set \<Rightarrow> Peer option \<Rightarrow> bool" where
  "absorbed c ips r \<longleftrightarrow> (\<exists>q. r = Some q \<and> (q = c \<or> peer_ResourceVersion q \<noteq> peer_ResourceVersion c) \<and>
     peer_Spec q = (peer_Spec c)\<lparr>AllowedIPs := AllowedIPs (peer_Spec q)\<rparr> \<and>
     set (AllowedIPs (peer_Spec c)) \<union> ips \<subseteq> set (AllowedIPs (peer_Spec q)))"

lemma absorbed_mono: "absorbed c A r \<Longrightarrow> B \<subseteq> A \<Longrightarrow> absorbed c B r"
  by (auto simp: absorbed_def)

context peer_writes
begin

lemma order_mset' [simp]: "mset (cl_order C w ks) = mset ks"
  by (rule order_mset)

lemma mergeIntoCanonical_frame:
  assumes "mergeIntoCanonical C c ips n w = (es, w')" and "k \<noteq> peer_Name c"
  shows "view w' k = view w k"
  using assms
  by (auto simp: mergeIntoCanonical_def Let_def split: if_splits prod.splits option.splits
      dest: update_frame [where n = k])

lemma reconcile_entry_frame:
  assumes "named E" and "peer_Name p = n" and "reconcile_entry C E K (n, p) w = (es, w')"
    and "k \<noteq> written E K (n, p)"
  shows "view w' k = view w k"
proof (cases "merge_target E K (n, p)")
  case None
  then have "k \<noteq> n" using assms(4) by (simp add: written_def)
  then show ?thesis
    using assms(1-3) None
    by (auto simp: reconcile_entry_own named_map_ofD split: option.splits if_splits prod.splits
        dest: create_frame [where n = k] update_frame [where n = k])
next
  case (Some c)
  then show ?thesis
    using assms(3,4) by (auto simp: reconcile_entry_merge written_def dest: mergeIntoCanonical_frame)
qed

lemma reconcile_entry_holds:
  assumes "named E" and "peer_Name p = n" and "merge_target E K (n, p) = None"
    and "map_of E n \<noteq> None \<Longrightarrow> view w n = map_of E n" and "reconcile_entry C E K (n, p) w = ([], w')"
  shows "holds E p (view w' n)"
proof (cases "map_of E n")
  case None
  with assms have "cl_Create C p w = (None, w')"
    by (auto simp: reconcile_entry_own split: option.splits prod.splits)
  with create_ok [OF this] None assms(2) show ?thesis by (auto simp: holds_def)
next
  case (Some e)
  then have name: "peer_Name e = n" using assms(1) by (rule named_map_ofD [rotated])
  show ?thesis
  proof (cases "peerSpecEqual (peer_Spec e) (peer_Spec p)")
    case True
    with Some assms have "view w' n = Some e" by (auto simp: reconcile_entry_own)
    with True Some assms(2) show ?thesis by (simp add: holds_def)
  next
    case False
    with Some assms have "cl_Update C (e\<lparr>peer_Spec := peer_Spec p\<rparr>) w = (None, w')"
      by (auto simp: reconcile_entry_own split: option.splits prod.splits)
    from update_ok [OF this] name Some assms(2) show ?thesis by (auto simp: holds_def)
  qed
qed

lemma namedD:
  assumes "named D"
  shows "set (ranged C w D) = set D" "distinct (ranged C w D)" "(n, p) \<in> set D \<Longrightarrow> peer_Name p = n"
    "(n, p) \<in> set D \<longleftrightarrow> map_of D n = Some p"
proof -
  have d: "distinct (map fst D)" using assms by (simp add: named_def)
  show "set (ranged C w D) = set D" by (rule ranged_facts [OF d])
  show "distinct (ranged C w D)" using ranged_facts(2) [OF d] by (simp add: distinct_map)
  show "(n, p) \<in> set D \<Longrightarrow> peer_Name p = n" using assms by (auto simp: named_def)
  show "(n, p) \<in> set D \<longleftrightarrow> map_of D n = Some p" using d by (simp add: map_of_eq_Some_iff)
qed

lemma reconcileDesired_frame:
  assumes "named D" "named E" "reconcileDesired C D E K w = (es, w')" "k \<notin> written E K ` set D"
  shows "view w' k = view w k"
proof (rule each_preserves [where g = "\<lambda>w. view w k"])
  show "each (reconcile_entry C E K) (ranged C w D) w = (es, w')"
    using assms(3) by (simp add: reconcileDesired_def)
  show "view v' k = view v k" if "x \<in> set (ranged C w D)" "reconcile_entry C E K x v = (es', v')" for x v es' v'
  proof -
    obtain n p where x: "x = (n, p)" by fastforce
    with that(1) assms(1) have D: "(n, p) \<in> set D" by (simp add: namedD)
    then have "k \<noteq> written E K (n, p)" using assms(4) by blast
    with x that(2) assms(2) namedD(3) [OF assms(1) D] show ?thesis by (metis reconcile_entry_frame)
  qed
qed

lemma reconcileDesired_holds:
  assumes "named D" "named E" "reconcileDesired C D E K w = ([], w')"
    and n: "map_of D n = Some p" "merge_target E K (n, p) = None"
    and alone: "\<And>y. y \<in> set D \<Longrightarrow> y \<noteq> (n, p) \<Longrightarrow> written E K y \<noteq> n"
    and pre: "map_of E n \<noteq> None \<Longrightarrow> view w n = map_of E n"
  shows "holds E p (view w' n)"
proof (rule each_establishes [where g = "\<lambda>w. view w n"])
  show "each (reconcile_entry C E K) (ranged C w D) w = ([], w')"
    using assms(3) by (simp add: reconcileDesired_def)
  show "(n, p) \<in> set (ranged C w D)" "distinct (ranged C w D)"
    using assms(1) n(1) by (auto simp: namedD)
  show "view v' n = view v n"
    if "y \<in> set (ranged C w D)" "y \<noteq> (n, p)" "reconcile_entry C E K y v = (es, v')" for y v es v'
  proof -
    obtain m q where y: "y = (m, q)" by fastforce
    with that(1) assms(1) have "(m, q) \<in> set D" by (simp add: namedD)
    with y that(2,3) alone assms(1,2) show ?thesis
      by (metis reconcile_entry_frame namedD(3))
  qed
  show "holds E p (view v' n)" if "view v n = view w n" "reconcile_entry C E K (n, p) v = ([], v')" for v v'
    using reconcile_entry_holds [OF assms(2) named_map_ofD [OF assms(1) n(1)] n(2) _ that(2)] that(1) pre by metis
qed

lemma orphan_entry_frame:
  assumes "named E" "(n, e) \<in> set E" "orphan_entry C D (n, e) w = (es, w')" "k \<noteq> n \<or> map_of D n \<noteq> None"
  shows "view w' k = view w k"
  using assms
  by (auto simp: orphan_entry_def namedD split: if_splits prod.splits option.splits
      dest: delete_frame [where n = k])

lemma deleteOrphans_frame:
  assumes "named E" "deleteOrphans C D E w = (es, w')" "map_of D k \<noteq> None \<or> map_of E k = None"
  shows "view w' k = view w k"
proof (rule each_preserves [where g = "\<lambda>w. view w k"])
  show "each (orphan_entry C D) (ranged C w E) w = (es, w')" using assms(2) by (simp add: deleteOrphans_def)
  show "view v' k = view v k" if "x \<in> set (ranged C w E)" "orphan_entry C D x v = (es', v')" for x v es' v'
  proof -
    obtain n e where x: "x = (n, e)" by fastforce
    with that(1) assms(1) have "(n, e) \<in> set E" by (simp add: namedD)
    with x that(2) assms(1,3) show ?thesis
      by (cases "k = n") (auto intro: orphan_entry_frame simp: namedD)
  qed
qed

lemma deleteOrphans_gone:
  assumes "named E" "deleteOrphans C D E w = ([], w')" "map_of E n = Some e" "map_of D n = None"
  shows "view w' n = None"
proof (rule each_establishes [where g = "\<lambda>w. view w n" and x = "(n, e)" and P = "\<lambda>r. r = None"])
  show "each (orphan_entry C D) (ranged C w E) w = ([], w')" using assms(2) by (simp add: deleteOrphans_def)
  show "(n, e) \<in> set (ranged C w E)" "distinct (ranged C w E)" using assms(1,3) by (auto simp: namedD)
  show "view v' n = view v n"
    if "y \<in> set (ranged C w E)" "y \<noteq> (n, e)" "orphan_entry C D y v = (es, v')" for y v es v'
  proof -
    obtain m q where y: "y = (m, q)" by fastforce
    with that(1) assms(1) have q: "(m, q) \<in> set E" by (simp add: namedD)
    with y that(2) assms(1,3) have "n \<noteq> m" by (auto simp: namedD)
    with q y that(3) assms(1) show ?thesis by (auto intro: orphan_entry_frame)
  qed
  show "view v' n = None" if "orphan_entry C D (n, e) v = ([], v')" for v v'
    using that assms(4) delete_ok [of e v v'] named_map_ofD [OF assms(1,3)]
    by (auto simp: orphan_entry_def split: prod.splits option.splits)
qed

lemma mergeIntoCanonical_absorbs:
  assumes "mergeIntoCanonical C c new n w = ([], w')" and "absorbed c ips (view w (peer_Name c))"
  shows "absorbed c (ips \<union> set new) (view w' (peer_Name c))"
proof -
  define merged where "merged = mergeAllowedIPs (cl_order C w) (AllowedIPs (peer_Spec c)) new"
  have set_merged: "set merged = set (AllowedIPs (peer_Spec c)) \<union> set new"
    by (simp add: merged_def mergeAllowedIPs_eq)
  show ?thesis
  proof (cases "allowedIPsEqual merged (AllowedIPs (peer_Spec c))")
    case True
    then have "set merged = set (AllowedIPs (peer_Spec c))"
      by (metis allowedIPsEqual_iff set_mset_mset)
    moreover have "w' = w" using True assms(1) by (simp add: mergeIntoCanonical_def merged_def [symmetric])
    ultimately show ?thesis using assms(2) set_merged by (fastforce simp: absorbed_def)
  next
    case False
    define u where "u = c\<lparr>peer_Spec := (peer_Spec c)\<lparr>AllowedIPs := merged\<rparr>\<rparr>"
    have "cl_Update C u w = (None, w')"
      using False assms(1)
      by (auto simp: mergeIntoCanonical_def merged_def [symmetric] u_def [symmetric] split: prod.splits option.splits)
    then obtain q rv where q: "view w (peer_Name c) = Some q" "peer_ResourceVersion q = peer_ResourceVersion c"
      "view w' (peer_Name c) = Some (u\<lparr>peer_ResourceVersion := rv\<rparr>)" "rv = peer_ResourceVersion c \<longrightarrow> u = q"
      using update_ok [of u w w'] by (auto simp: u_def)
    then have "q = c" "set (AllowedIPs (peer_Spec c)) \<union> ips \<subseteq> set (AllowedIPs (peer_Spec c))"
      using assms(2) by (auto simp: absorbed_def)
    moreover have "u \<noteq> c" using False by (metis u_def PeerSpec.select_convs(1) PeerSpec.surjective
        PeerSpec.update_convs(1) Peer.select_convs(4) Peer.surjective Peer.update_convs(4) allowedIPsEqual_iff)
    ultimately show ?thesis using q set_merged by (auto simp: absorbed_def u_def)
  qed
qed

lemma reconcile_entries_absorb:
  assumes "named E" "\<forall>(n, p) \<in> set xs. peer_Name p = n"
    and "\<And>x. x \<in> set xs \<Longrightarrow> merge_target E K x = Some c \<or> written E K x \<noteq> peer_Name c"
    and "each (reconcile_entry C E K) xs w = ([], w')" "absorbed c ips (view w (peer_Name c))"
  shows "absorbed c (ips \<union> \<Union>{set (AllowedIPs (peer_Spec p)) | n p. (n, p) \<in> set xs \<and> merge_target E K (n, p) = Some c})
     (view w' (peer_Name c))"
  using assms(2-)
proof (induction xs arbitrary: w ips)
  case Nil
  then show ?case by simp
next
  case (Cons x xs)
  obtain n p where x: "x = (n, p)" by fastforce
  obtain w1 where s: "reconcile_entry C E K x w = ([], w1)" "each (reconcile_entry C E K) xs w1 = ([], w')"
    using Cons.prems(3) by (auto simp: each_Nil_iff simp del: each.simps)
  let ?U = "\<lambda>xs. \<Union>{set (AllowedIPs (peer_Spec p)) | n p. (n, p) \<in> set xs \<and> merge_target E K (n, p) = Some c}"
  show ?case
  proof (cases "merge_target E K x = Some c")
    case True
    have "absorbed c (ips \<union> set (AllowedIPs (peer_Spec p))) (view w1 (peer_Name c))"
      using s(1) True Cons.prems(4) x by (auto simp: reconcile_entry_merge dest: mergeIntoCanonical_absorbs)
    from Cons.IH [OF _ _ s(2) this] Cons.prems(1,2)
    have "absorbed c (ips \<union> set (AllowedIPs (peer_Spec p)) \<union> ?U xs) (view w' (peer_Name c))" by simp
    moreover have "?U (x # xs) = set (AllowedIPs (peer_Spec p)) \<union> ?U xs" using x True by auto
    ultimately show ?thesis by (simp add: Un_assoc)
  next
    case False
    then have "peer_Name c \<noteq> written E K (n, p)" using Cons.prems(2) [of x] x by auto
    then have "view w1 (peer_Name c) = view w (peer_Name c)"
      using s(1) x Cons.prems(1) assms(1) by (auto intro: reconcile_entry_frame)
    with Cons.IH [OF _ _ s(2), of ips] Cons.prems(1,2,4)
    have "absorbed c (ips \<union> ?U xs) (view w' (peer_Name c))" by simp
    moreover have "?U (x # xs) = ?U xs" using False x by auto
    ultimately show ?thesis by simp
  qed
qed

end

section \<open>The contract of the reconciler\<close>

text \<open>
  The abstract specification, over the Peers stored in the remote cluster. \<open>synced\<close>: the Peers
  labelled with the mesh and the source cluster are exactly the desired ones, each with the desired
  content. \<open>no_collision\<close>: every desired Peer is already there, or brings a public key that no
  stored Peer has.
\<close>

definition owned :: "string \<Rightarrow> string \<Rightarrow> Peer \<Rightarrow> bool" where
  "owned meshName sourceCluster p \<longleftrightarrow> selects (OrphanSelector meshName sourceCluster) p"

definition synced :: "string \<Rightarrow> string \<Rightarrow> Peer list \<Rightarrow> (string \<Rightarrow> Peer option) \<Rightarrow> bool" where
  "synced m s desired v \<longleftrightarrow>
     (\<forall>p \<in> set desired. \<exists>q. v (peer_Name p) = Some q \<and> owned m s q \<and> peerSpecEqual (peer_Spec q) (peer_Spec p)) \<and>
     (\<forall>n q. v n = Some q \<and> owned m s q \<longrightarrow> n \<in> peer_Name ` set desired)"

definition no_collision :: "string \<Rightarrow> string \<Rightarrow> Peer list \<Rightarrow> (string \<Rightarrow> Peer option) \<Rightarrow> bool" where
  "no_collision m s desired v \<longleftrightarrow>
     (\<forall>p \<in> set desired. (\<exists>q. v (peer_Name p) = Some q \<and> owned m s q) \<or>
        (\<forall>n q. v n = Some q \<longrightarrow> PublicKey (peer_Spec q) \<noteq> PublicKey (peer_Spec p)))"

text \<open>The state of a run after the two lists: the listed Peers and the canonical Peers.\<close>

definition snapshot ::
  "string \<Rightarrow> string \<Rightarrow> (string \<Rightarrow> Peer option) \<Rightarrow> peer_map \<Rightarrow> peer_map \<Rightarrow> bool" where
  "snapshot m s v E K \<longleftrightarrow> named E \<and> (\<forall>n q. map_of E n = Some q \<longleftrightarrow> v n = Some q \<and> owned m s q) \<and>
     canonical_map K {p. v (peer_Name p) = Some p}"

lemma no_collision_no_merge:
  assumes "snapshot m s v E K" "no_collision m s desired v" "p \<in> set desired" "peer_Name p = n"
  shows "merge_target E K (n, p) = None"
proof (cases "map_of E n")
  case None
  then have "\<forall>k q. v k = Some q \<longrightarrow> PublicKey (peer_Spec q) \<noteq> PublicKey (peer_Spec p)"
    using assms unfolding no_collision_def snapshot_def by (metis option.distinct(1))
  then have "map_of K (PublicKey (peer_Spec p)) = None"
    using assms(1) unfolding snapshot_def canonical_map_def is_canonical_def
    by (cases "map_of K (PublicKey (peer_Spec p))") (simp, blast)
  then show ?thesis by (simp add: merge_target_def)
qed (simp add: merge_target_def)

context peer_api
begin

lemma view_set: "{p. view w (peer_Name p) = Some p} = {p. \<exists>n. view w n = Some p}"
  using view_name by blast

lemma buildAllPeersByPublicKey_Inr:
  assumes "buildAllPeersByPublicKey C w = (Inr K, w1)"
  shows "canonical_map K {p. view w (peer_Name p) = Some p}" and "view w1 = view w"
proof -
  obtain items where l: "cl_List C [] w = (Inr items, w1)" "K = byPublicKey_loop [] items"
    using assms by (auto simp: buildAllPeersByPublicKey_def split: prod.splits sum.splits)
  have "set items = {p. view w (peer_Name p) = Some p}" using list_exact [OF l(1)] by auto
  with l(2) show "canonical_map K {p. view w (peer_Name p) = Some p}"
    using canonical_map_byPublicKey [of items] by simp
  show "view w1 = view w" using l(1) by (rule list_frame)
qed

lemma buildExistingMap_list:
  assumes "cl_List C (OrphanSelector m s) w = (Inr items, w1)"
  shows "named (buildExistingMap items) \<and>
     (\<forall>n q. map_of (buildExistingMap items) n = Some q \<longleftrightarrow> view w n = Some q \<and> owned m s q)"
  using list_exact [OF assms] list_names [OF assms] view_name
  by (auto simp: buildExistingMap_eq map_of_buildDesiredMap_Some owned_def)

lemma ReconcilePeers_run:
  assumes "ReconcilePeers C m s desired w = (r, w')"
  obtains (failed) e where "r = Some e" "view w' = view w"
  | (ran) E K w2 es w3 es' where "snapshot m s (view w) E K" "view w2 = view w"
      "reconcileDesired C (buildDesiredMap desired) E K w2 = (es, w3)"
      "deleteOrphans C (buildDesiredMap desired) E w3 = (es', w')" "join_errors (es @ es') = r"
proof (cases "buildAllPeersByPublicKey C w")
  case (Pair rk w1)
  show thesis
  proof (cases rk)
    case (Inl e)
    then have "view w' = view w" using assms Pair
      by (auto simp: ReconcilePeers_def buildAllPeersByPublicKey_def split: prod.splits sum.splits dest: list_frame)
    with Inl Pair assms show thesis by (intro failed) (auto simp: ReconcilePeers_def)
  next
    case (Inr K)
    then have K: "canonical_map K {p. view w (peer_Name p) = Some p}" "view w1 = view w"
      using Pair buildAllPeersByPublicKey_Inr by auto
    obtain rl w2 where l: "cl_List C (OrphanSelector m s) w1 = (rl, w2)" by fastforce
    have v2: "view w2 = view w" using list_frame [OF l] K(2) by simp
    show thesis
    proof (cases rl)
      case (Inl e)
      with l v2 Inr Pair assms show thesis by (intro failed) (auto simp: ReconcilePeers_def)
    next
      case (Inr items)
      let ?E = "buildExistingMap items"
      obtain es w3 es' where r: "reconcileDesired C (buildDesiredMap desired) ?E K w2 = (es, w3)"
        "deleteOrphans C (buildDesiredMap desired) ?E w3 = (es', w')" "join_errors (es @ es') = r"
        using assms Pair \<open>rk = Inr K\<close> l Inr by (auto simp: ReconcilePeers_def Let_def split: prod.splits)
      have "snapshot m s (view w) ?E K"
        using buildExistingMap_list [of m s w1 items w2] l Inr K by (simp add: snapshot_def)
      from ran [OF this v2 r] show thesis .
    qed
  qed
qed

text \<open>Whatever the outcome, only desired names, owned Peers and canonical Peers are written.\<close>

lemma ReconcilePeers_frame:
  assumes "ReconcilePeers C m s desired w = (r, w')"
    and "n \<notin> peer_Name ` set desired" "\<And>q. view w n = Some q \<Longrightarrow> \<not> owned m s q"
    and "\<And>p q. p \<in> set desired \<Longrightarrow> view w n = Some q \<Longrightarrow> PublicKey (peer_Spec q) \<noteq> PublicKey (peer_Spec p)"
  shows "view w' n = view w n"
  using assms(1)
proof (cases rule: ReconcilePeers_run)
  case (ran E K w2 es w3 es')
  let ?D = "buildDesiredMap desired"
  have E: "named E" "map_of E n = None"
    using ran(1) assms(3) by (auto simp: snapshot_def) (metis option.exhaust)
  have "n \<noteq> written E K x" if "x \<in> set ?D" for x
  proof (cases "merge_target E K x")
    case None
    with buildDesiredMap_mem [OF that] assms(2) show ?thesis by (auto simp: written_def)
  next
    case (Some c)
    then have "map_of K (PublicKey (peer_Spec (snd x))) = Some c"
      by (auto simp: merge_target_def split: if_splits option.splits)
    then have "is_canonical {p. view w (peer_Name p) = Some p} (PublicKey (peer_Spec (snd x))) c"
      using ran(1) by (simp add: snapshot_def canonical_map_def)
    with buildDesiredMap_mem [OF that] show ?thesis
      using assms(4) Some by (auto simp: is_canonical_def written_def)
  qed
  then have "n \<notin> written E K ` set ?D" by blast
  then have "view w3 n = view w2 n" using reconcileDesired_frame [OF _ E(1) ran(3)] by simp
  moreover have "view w' n = view w3 n" using deleteOrphans_frame [OF E(1) ran(4)] E(2) by simp
  ultimately show ?thesis using ran(2) by simp
qed simp

text \<open>A run without errors leaves no owned Peer that is not desired.\<close>

lemma ReconcilePeers_orphans:
  assumes "ReconcilePeers C m s desired w = (None, w')"
    and "view w n = Some q" "owned m s q" "n \<notin> peer_Name ` set desired"
  shows "view w' n = None"
  using assms(1)
proof (cases rule: ReconcilePeers_run)
  case (ran E K w2 es w3 es')
  then have "map_of E n = Some q" "named E" using assms(2,3) by (auto simp: snapshot_def)
  with ran(4,5) assms(4) show ?thesis
    by (auto intro: deleteOrphans_gone simp: map_of_buildDesiredMap_None)
qed simp

lemma written_own:
  assumes "snapshot m s v E K" "no_collision m s desired v" "distinct (map peer_Name desired)"
    "x \<in> set (buildDesiredMap desired)"
  shows "merge_target E K x = None" "written E K x = fst x"
proof -
  show "merge_target E K x = None"
    using no_collision_no_merge [OF assms(1,2)] buildDesiredMap_mem [OF assms(4)] by (cases x) simp
  then show "written E K x = fst x" by (simp add: written_def)
qed

text \<open>A run without errors and without key collisions establishes the specification.\<close>

lemma ReconcilePeers_synced:
  assumes r: "ReconcilePeers C m s desired w = (None, w')"
    and d: "distinct (map peer_Name desired)" and l: "\<And>p. p \<in> set desired \<Longrightarrow> owned m s p"
    and nc: "no_collision m s desired (view w)"
  shows "synced m s desired (view w')"
  using r
proof (cases rule: ReconcilePeers_run)
  case (ran E K w2 es w3 es')
  let ?D = "buildDesiredMap desired"
  have E: "named E" "\<And>n q. map_of E n = Some q \<longleftrightarrow> view w n = Some q \<and> owned m s q"
    using ran(1) by (auto simp: snapshot_def)
  have es: "es = []" "es' = []" using ran(5) by auto
  note own = written_own [OF ran(1) nc d]
  have desired: "\<exists>q. view w' (peer_Name p) = Some q \<and> owned m s q \<and> peerSpecEqual (peer_Spec q) (peer_Spec p)"
    if p: "p \<in> set desired" for p
  proof -
    let ?n = "peer_Name p"
    have D: "map_of ?D ?n = Some p" using p d by (simp add: map_of_buildDesiredMap_Some)
    have "holds E p (view w3 ?n)"
    proof (rule reconcileDesired_holds [OF _ E(1) ran(3) [unfolded es] D])
      show "merge_target E K (?n, p) = None" using own(1) [of "(?n, p)"] D by (simp add: namedD)
      show "view w2 ?n = map_of E ?n" if "map_of E ?n \<noteq> None"
        using that E(2) ran(2) by (metis not_None_eq)
      show "written E K y \<noteq> ?n" if "y \<in> set ?D" "y \<noteq> (?n, p)" for y
      proof -
        obtain k q where y: "y = (k, q)" by fastforce
        with that D have "k \<noteq> ?n" by (auto simp: namedD)
        with own(2) [OF that(1)] y show ?thesis by simp
      qed
    qed simp
    moreover have "view w' ?n = view w3 ?n" using deleteOrphans_frame [OF E(1) ran(4)] D by simp
    ultimately show ?thesis using E(2) l [OF p]
      by (auto simp: holds_def owned_def selects_def split: option.splits)
  qed
  moreover have "n \<in> peer_Name ` set desired" if q: "view w' n = Some q" "owned m s q" for n q
  proof (rule ccontr)
    assume n: "n \<notin> peer_Name ` set desired"
    show False
    proof (cases "map_of E n")
      case (Some e)
      with deleteOrphans_gone [OF E(1) ran(4) [unfolded es]] n q(1) show False
        by (simp add: map_of_buildDesiredMap_None)
    next
      case None
      have "n \<notin> written E K ` set ?D"
        using own(2) n buildDesiredMap_mem by (metis (no_types, lifting) imageE image_eqI)
      then have "view w' n = view w n"
        using deleteOrphans_frame [OF E(1) ran(4)] reconcileDesired_frame [OF _ E(1) ran(3)] None ran(2) by simp
      with q None E(2) [of n q] show False by simp
    qed
  qed
  ultimately show ?thesis by (auto simp: synced_def)
qed simp

text \<open>
  A run without errors merges the AllowedIPs of every colliding desired Peer into the canonical
  Peer, when that one is neither owned nor desired itself.
\<close>

lemma ReconcilePeers_absorbs:
  assumes r: "ReconcilePeers C m s desired w = (None, w')"
    and d: "distinct (map peer_Name desired)"
    and p: "p \<in> set desired" "\<And>q. view w (peer_Name p) = Some q \<Longrightarrow> \<not> owned m s q"
    and c: "is_canonical {q. view w (peer_Name q) = Some q} (PublicKey (peer_Spec p)) c"
      "\<not> owned m s c" "peer_Name c \<notin> peer_Name ` set desired"
  shows "absorbed c (set (AllowedIPs (peer_Spec p))) (view w' (peer_Name c))"
  using r
proof (cases rule: ReconcilePeers_run)
  case (ran E K w2 es w3 es')
  let ?D = "buildDesiredMap desired"
  have view_c: "view w (peer_Name c) = Some c" using c(1) by (simp add: is_canonical_def)
  have imp: "\<And>n q. map_of E n = Some q \<Longrightarrow> view w n = Some q \<and> owned m s q" and E: "named E"
    using ran(1) by (simp_all add: snapshot_def)
  have none: "map_of E (peer_Name p) = None" "map_of E (peer_Name c) = None"
    using imp [of "peer_Name p"] p(2) imp [of "peer_Name c"] c(2) view_c
    by (cases "map_of E (peer_Name p)", auto) (cases "map_of E (peer_Name c)", auto)
  have key: "PublicKey (peer_Spec c) = PublicKey (peer_Spec p)" using c(1) by (simp add: is_canonical_def)
  have canon: "c' = c" if "map_of K (PublicKey (peer_Spec c)) = Some c'" for c'
  proof -
    have c': "is_canonical {q. view w (peer_Name q) = Some q} (PublicKey (peer_Spec p)) c'"
      using ran(1) that key by (simp add: snapshot_def canonical_map_def)
    have "peer_Name c' = peer_Name c" using c' c(1) by (rule is_canonical_name)
    moreover have "view w (peer_Name c') = Some c'" using c' by (simp add: is_canonical_def)
    ultimately show ?thesis using view_c by (metis option.inject)
  qed
  have "map_of K (PublicKey (peer_Spec c)) \<noteq> None"
    using ran(1) view_c by (auto simp: snapshot_def canonical_map_def)
  then have K: "map_of K (PublicKey (peer_Spec c)) = Some c" using canon by auto
  have target: "merge_target E K (peer_Name p, p) = Some c"
    using none(1) K key c(3) p(1) by (auto simp: merge_target_def)
  have "merge_target E K x = Some c \<or> written E K x \<noteq> peer_Name c" if "x \<in> set ?D" for x
  proof (cases "merge_target E K x")
    case None
    moreover have "fst x \<noteq> peer_Name c" using buildDesiredMap_mem [OF that] c(3) by (metis image_eqI)
    ultimately show ?thesis by (simp add: written_def)
  next
    case (Some c')
    then have "map_of K (PublicKey (peer_Spec (snd x))) = Some c'"
      by (auto simp: merge_target_def split: if_splits option.splits)
    then have "view w (peer_Name c') = Some c'"
      using ran(1) by (auto simp: snapshot_def canonical_map_def is_canonical_def)
    with Some view_c show ?thesis by (auto simp: written_def)
  qed
  then have "absorbed c ({} \<union> \<Union>{set (AllowedIPs (peer_Spec p)) | n p. (n, p) \<in> set (ranged C w2 ?D) \<and> merge_target E K (n, p) = Some c})
      (view w3 (peer_Name c))"
    using ran(2,3,5) view_c E
    by (intro reconcile_entries_absorb) (auto simp: namedD reconcileDesired_def absorbed_def dest: named_map_ofD [OF named_buildDesiredMap])
  moreover have "(peer_Name p, p) \<in> set (ranged C w2 ?D)"
    using p(1) d by (simp add: namedD map_of_buildDesiredMap_Some)
  ultimately have "absorbed c (set (AllowedIPs (peer_Spec p))) (view w3 (peer_Name c))"
    using target by (elim absorbed_mono) blast
  moreover have "view w' (peer_Name c) = view w3 (peer_Name c)"
    using deleteOrphans_frame [OF E ran(4)] none(2) by simp
  ultimately show ?thesis by simp
qed simp

text \<open>A desired Peer that is absent and collides is not created.\<close>

lemma ReconcilePeers_not_created:
  assumes r: "ReconcilePeers C m s desired w = (None, w')"
    and d: "distinct (map peer_Name desired)" and p: "p \<in> set desired" "view w (peer_Name p) = None"
    and c: "is_canonical {q. view w (peer_Name q) = Some q} (PublicKey (peer_Spec p)) c"
  shows "view w' (peer_Name p) = None"
  using r
proof (cases rule: ReconcilePeers_run)
  case (ran E K w2 es w3 es')
  let ?D = "buildDesiredMap desired"
  have stored: "view w (peer_Name k) = Some k" if "merge_target E K x = Some k" for x k
    using that ran(1)
    by (auto simp: merge_target_def snapshot_def canonical_map_def is_canonical_def split: if_splits option.splits)
  have E: "named E" "map_of E (peer_Name p) = None"
    using ran(1) p(2) by (auto simp: snapshot_def intro: ccontr)
  have "map_of K (PublicKey (peer_Spec p)) \<noteq> None"
    using ran(1) c by (auto simp: snapshot_def canonical_map_def is_canonical_def)
  then obtain k where k: "map_of K (PublicKey (peer_Spec p)) = Some k" by blast
  then have "view w (peer_Name k) = Some k"
    using ran(1) by (auto simp: snapshot_def canonical_map_def is_canonical_def)
  then have own: "merge_target E K (peer_Name p, p) = Some k"
    using E(2) k p(2) by (auto simp: merge_target_def)
  have "written E K x \<noteq> peer_Name p" if x: "x \<in> set ?D" for x
  proof (cases "merge_target E K x")
    case None
    then have "snd x \<noteq> p" using own buildDesiredMap_mem(2) [OF x] by (cases x) auto
    then have "peer_Name (snd x) \<noteq> peer_Name p"
      using d p(1) buildDesiredMap_mem(1) [OF x] by (auto simp: distinct_map dest: inj_onD)
    with None buildDesiredMap_mem(2) [OF x] show ?thesis by (simp add: written_def)
  next
    case (Some k')
    with stored [OF Some] p(2) show ?thesis by (auto simp: written_def)
  qed
  then have "view w3 (peer_Name p) = None"
    using reconcileDesired_frame [OF _ E(1) ran(3), of "peer_Name p"] p(2) ran(2) by fastforce
  then show ?thesis using deleteOrphans_frame [OF E(1) ran(4)] E(2) by simp
qed simp

lemma DeleteStale_run:
  assumes "DeleteStaleSourceClusters C m valid w = (r, w')"
  obtains (failed) e where "r = Some e" "view w' = view w"
  | (ran) items w1 es where "cl_List C [(LabelMesh, m)] w = (Inr items, w1)"
      "each (stale_entry C valid) items w1 = (es, w')" "join_errors es = r"
  using assms
  by (auto simp: DeleteStaleSourceClusters_def split: prod.splits sum.splits dest: list_frame)

lemma stale_entry_frame:
  assumes "stale_entry C valid q w = (es, w')"
    and "n \<noteq> peer_Name q \<or> map_get (peer_Labels q) LabelSourceCluster \<in> set valid"
  shows "view w' n = view w n"
  using assms
  by (auto simp: stale_entry_def Let_def split: if_splits prod.splits option.splits
      dest: delete_frame [where n = n])

lemma DeleteStale_frame:
  assumes "DeleteStaleSourceClusters C m valid w = (r, w')"
    and "\<And>q. view w n = Some q \<Longrightarrow> map_of (peer_Labels q) LabelMesh \<noteq> Some m \<or>
      map_get (peer_Labels q) LabelSourceCluster \<in> set valid"
  shows "view w' n = view w n"
  using assms(1)
proof (cases rule: DeleteStale_run)
  case (ran items w1 es)
  have "view w' n = view w1 n"
  proof (rule each_preserves [OF ran(2), where g = "\<lambda>w. view w n"])
    fix q v es v' assume q: "q \<in> set items" "stale_entry C valid q v = (es, v')"
    then have "view w (peer_Name q) = Some q" "selects [(LabelMesh, m)] q"
      using list_exact [OF ran(1)] by auto
    with q(2) assms(2) [of q] show "view v' n = view v n"
      by (intro stale_entry_frame) (auto simp: selects_def)
  qed
  with list_frame [OF ran(1)] show ?thesis by simp
qed simp

lemma DeleteStale_gone:
  assumes "DeleteStaleSourceClusters C m valid w = (None, w')"
    and q: "view w n = Some q" "map_of (peer_Labels q) LabelMesh = Some m"
      "map_get (peer_Labels q) LabelSourceCluster \<notin> set valid"
  shows "view w' n = None"
  using assms(1)
proof (cases rule: DeleteStale_run)
  case (ran items w1 es)
  have n: "peer_Name q = n" using q(1) by (rule view_name)
  have mem: "q \<in> set items" using list_exact [OF ran(1), of q] q n by (simp add: selects_def)
  show ?thesis
  proof (rule each_establishes [where g = "\<lambda>w. view w n" and x = q and P = "\<lambda>r. r = None"])
    show "each (stale_entry C valid) items w1 = ([], w')" using ran(2,3) by simp
    show "q \<in> set items" by fact
    show "distinct items" using list_names [OF ran(1)] by (simp add: distinct_map)
    show "view v' n = view v n"
      if "y \<in> set items" "y \<noteq> q" "stale_entry C valid y v = (es, v')" for y v es v'
    proof (rule stale_entry_frame [OF that(3)])
      have "peer_Name y \<noteq> peer_Name q"
        using that(1,2) mem list_names [OF ran(1)] by (auto simp: distinct_map dest: inj_onD)
      then show "n \<noteq> peer_Name y \<or> map_get (peer_Labels y) LabelSourceCluster \<in> set valid" using n by simp
    qed
    show "view v' n = None" if "stale_entry C valid q v = ([], v')" for v v'
      using that q(3) n
      by (auto simp: stale_entry_def Let_def split: prod.splits option.splits if_splits
          dest: delete_ok delete_not_found)
  qed
qed simp

end

context reliable_api
begin

lemma lists_succeed:
  obtains items0 w1 items w2 where "cl_List C [] w = (Inr items0, w1)"
    "cl_List C (OrphanSelector m s) w1 = (Inr items, w2)"
  using list_total by metis

text \<open>In a synced cluster a run succeeds without calling any write.\<close>

lemma ReconcilePeers_noop:
  assumes "synced m s desired (view w)" and d: "distinct (map peer_Name desired)"
  shows "\<exists>w'. view w' = view w \<and>
    (\<forall>f g h. ReconcilePeers (C\<lparr>cl_Create := f, cl_Update := g, cl_Delete := h\<rparr>) m s desired w = (None, w'))"
proof -
  obtain items0 w1 items w2 where l: "cl_List C [] w = (Inr items0, w1)"
    "cl_List C (OrphanSelector m s) w1 = (Inr items, w2)" by (rule lists_succeed)
  have v: "view w1 = view w" "view w2 = view w" using list_frame [OF l(1)] list_frame [OF l(2)] by auto
  let ?D = "buildDesiredMap desired" and ?E = "buildExistingMap items" and ?K = "byPublicKey_loop [] items0"
  have E: "named ?E" "\<And>n q. map_of ?E n = Some q \<longleftrightarrow> view w n = Some q \<and> owned m s q"
    using buildExistingMap_list [OF l(2)] v by auto
  have "ReconcilePeers C' m s desired w = (None, w2)"
    if C': "cl_List C' = cl_List C" "cl_order C' = cl_order C" for C' :: "'a peer_client"
  proof -
    have rng: "ranged C' = ranged C" for m :: peer_map using C'(2) by (simp add: ranged_def fun_eq_iff)
    have "reconcileDesired C' ?D ?E ?K w2 = ([], w2)"
      unfolding reconcileDesired_def rng
    proof (rule each_noop)
      fix x assume "x \<in> set (ranged C w2 ?D)"
      then have "x \<in> set ?D" by (simp add: namedD)
      from buildDesiredMap_mem [OF this] obtain q where "view w (fst x) = Some q" "owned m s q"
        "peerSpecEqual (peer_Spec q) (peer_Spec (snd x))"
        using assms(1) by (auto simp: synced_def)
      then show "reconcile_entry C' ?E ?K x w2 = ([], w2)"
        using E(2) [of "fst x" q] by (cases x) (simp add: reconcile_entry_def)
    qed
    moreover have "deleteOrphans C' ?D ?E w2 = ([], w2)"
      unfolding deleteOrphans_def rng
    proof (rule each_noop)
      fix x assume "x \<in> set (ranged C w2 ?E)"
      then have "x \<in> set ?E" using E(1) by (simp add: namedD)
      then have "map_of ?E (fst x) = Some (snd x)" using E(1) by (simp add: named_def)
      then have "fst x \<in> peer_Name ` set desired" using E(2) assms(1) by (auto simp: synced_def)
      then have "map_of ?D (fst x) \<noteq> None" by (simp add: map_of_buildDesiredMap_None)
      then show "orphan_entry C' ?D x w2 = ([], w2)" by (cases x) (auto simp: orphan_entry_def)
    qed
    ultimately show ?thesis using l C'(1)
      by (simp add: ReconcilePeers_def buildAllPeersByPublicKey_def Let_def)
  qed
  then show ?thesis using v(2) by (intro exI [of _ w2]) simp
qed

lemma reconcile_entry_total:
  assumes "named E" "peer_Name p = n" "merge_target E K (n, p) = None" "view w n = map_of E n"
    "peer_ResourceVersion p = ''''"
  shows "\<exists>w'. reconcile_entry C E K (n, p) w = ([], w')"
proof (cases "map_of E n")
  case None
  then obtain w' where "cl_Create C p w = (None, w')" using create_total [of w p] assms by auto
  with None assms(3) show ?thesis by (simp add: reconcile_entry_own)
next
  case (Some e)
  then have "peer_Name e = n" using assms(1) by (rule named_map_ofD [rotated])
  then obtain w' where "cl_Update C (e\<lparr>peer_Spec := peer_Spec p\<rparr>) w = (None, w')"
    using update_total [of w "e\<lparr>peer_Spec := peer_Spec p\<rparr>" e] assms(4) Some by auto
  with Some assms(3) show ?thesis by (simp add: reconcile_entry_own)
qed

lemma named_keys_apart: "named m \<Longrightarrow> x \<in> set m \<Longrightarrow> y \<in> set m \<Longrightarrow> x \<noteq> y \<Longrightarrow> fst x \<noteq> fst y"
  by (auto simp: named_def distinct_map dest: inj_onD)

lemma reconcileDesired_total:
  assumes D: "named D" and E: "named E" and none: "\<And>x. x \<in> set D \<Longrightarrow> merge_target E K x = None"
    and pre: "\<And>x. x \<in> set D \<Longrightarrow> view w (fst x) = map_of E (fst x) \<and> peer_ResourceVersion (snd x) = ''''"
  shows "\<exists>w'. reconcileDesired C D E K w = ([], w')"
  unfolding reconcileDesired_def
proof (rule each_succeeds [where Q = "\<lambda>x w. view w (fst x) = map_of E (fst x)"], unfold namedD(1) [OF D])
  show "distinct (ranged C w D)" using D by (simp add: namedD)
  show "view w (fst x) = map_of E (fst x)" if "x \<in> set D" for x using pre [OF that] by simp
  show "view u' (fst x) = map_of E (fst x)"
    if a: "x \<in> set D" "y \<in> set D" "x \<noteq> y" "reconcile_entry C E K y u = (es, u')" "view u (fst x) = map_of E (fst x)"
    for x y u es u'
  proof -
    obtain n p where y: "y = (n, p)" by fastforce
    have "fst x \<noteq> written E K (n, p)"
      using named_keys_apart [OF D a(1,2,3)] none [OF a(2)] y by (simp add: written_def)
    with reconcile_entry_frame [OF E _ a(4) [unfolded y]] a(2,5) y D show ?thesis by (simp add: namedD)
  qed
  show "\<exists>u'. reconcile_entry C E K x u = ([], u')" if a: "x \<in> set D" "view u (fst x) = map_of E (fst x)" for x u
  proof -
    obtain n p where x: "x = (n, p)" by fastforce
    show ?thesis unfolding x
      using a none [OF a(1)] pre [OF a(1)] D E x by (intro reconcile_entry_total) (auto simp: namedD(3))
  qed
qed

lemma deleteOrphans_total:
  assumes E: "named E" and pre: "\<And>n. map_of E n \<noteq> None \<Longrightarrow> map_of D n = None \<Longrightarrow> view w n \<noteq> None"
  shows "\<exists>w'. deleteOrphans C D E w = ([], w')"
  unfolding deleteOrphans_def
proof (rule each_succeeds [where Q = "\<lambda>x w. map_of D (fst x) = None \<longrightarrow> view w (fst x) \<noteq> None"],
    unfold namedD(1) [OF E])
  show "distinct (ranged C w E)" using E by (simp add: namedD)
  show "map_of D (fst x) = None \<longrightarrow> view w (fst x) \<noteq> None" if "x \<in> set E" for x
    using pre [of "fst x"] that by (auto simp: map_of_eq_None_iff)
  show "map_of D (fst x) = None \<longrightarrow> view u' (fst x) \<noteq> None"
    if a: "x \<in> set E" "y \<in> set E" "x \<noteq> y" "orphan_entry C D y u = (es, u')"
      "map_of D (fst x) = None \<longrightarrow> view u (fst x) \<noteq> None"
    for x y u es u'
  proof -
    obtain n p where y: "y = (n, p)" by fastforce
    with named_keys_apart [OF E a(1,2,3)] have "view u' (fst x) = view u (fst x)"
      using orphan_entry_frame [OF E _ a(4) [unfolded y]] a(2) by simp
    with a(5) show ?thesis by simp
  qed
  show "\<exists>u'. orphan_entry C D x u = ([], u')"
    if a: "x \<in> set E" "map_of D (fst x) = None \<longrightarrow> view u (fst x) \<noteq> None" for x u
  proof -
    obtain n p where x: "x = (n, p)" by fastforce
    with a(1) E have "peer_Name p = n" by (auto simp: namedD(3))
    with a(2) x delete_total [of u p] show ?thesis by (fastforce simp: orphan_entry_def)
  qed
qed

lemma ReconcilePeers_total:
  assumes d: "distinct (map peer_Name desired)" and rv: "\<And>p. p \<in> set desired \<Longrightarrow> peer_ResourceVersion p = ''''"
    and nc: "no_collision m s desired (view w)"
    and foreign: "\<And>p q. p \<in> set desired \<Longrightarrow> view w (peer_Name p) = Some q \<Longrightarrow> owned m s q"
  shows "\<exists>w'. ReconcilePeers C m s desired w = (None, w')"
proof -
  obtain items0 w1 items w2 where l: "cl_List C [] w = (Inr items0, w1)"
    "cl_List C (OrphanSelector m s) w1 = (Inr items, w2)" by (rule lists_succeed)
  have v: "view w1 = view w" "view w2 = view w" using list_frame [OF l(1)] list_frame [OF l(2)] by auto
  let ?D = "buildDesiredMap desired" and ?E = "buildExistingMap items" and ?K = "byPublicKey_loop [] items0"
  have K: "buildAllPeersByPublicKey C w = (Inr ?K, w1)" using l(1) by (simp add: buildAllPeersByPublicKey_def)
  have E: "named ?E" "\<And>n q. map_of ?E n = Some q \<longleftrightarrow> view w n = Some q \<and> owned m s q"
    using buildExistingMap_list [OF l(2)] v by auto
  then have snap: "snapshot m s (view w) ?E ?K"
    using buildAllPeersByPublicKey_Inr [OF K] by (simp add: snapshot_def)
  note own = written_own [OF snap nc d]
  have "view w2 (fst x) = map_of ?E (fst x) \<and> peer_ResourceVersion (snd x) = ''''" if "x \<in> set ?D" for x
    using foreign [of "snd x"] rv [of "snd x"] buildDesiredMap_mem [OF that] E(2) [of "fst x"] v(2)
    by (metis not_Some_eq)
  then obtain w3 where r1: "reconcileDesired C ?D ?E ?K w2 = ([], w3)"
    using reconcileDesired_total [of ?D ?E ?K w2] own(1) E(1) by auto
  have "view w3 n \<noteq> None" if "map_of ?E n \<noteq> None" "map_of ?D n = None" for n
  proof -
    have "n \<notin> written ?E ?K ` set ?D"
      using own(2) that(2) buildDesiredMap_mem
      by (metis (no_types, lifting) imageE image_eqI map_of_buildDesiredMap_None)
    then show ?thesis using reconcileDesired_frame [OF _ E(1) r1, of n] v(2) that(1) E(2) by auto
  qed
  then obtain w4 where "deleteOrphans C ?D ?E w3 = ([], w4)" using deleteOrphans_total [of ?E ?D w3] E(1) by auto
  with r1 K l(2) show ?thesis by (simp add: ReconcilePeers_def Let_def)
qed

end

section \<open>Properties\<close>

definition simple_peer :: "string \<Rightarrow> string \<Rightarrow> string \<Rightarrow> string \<Rightarrow> string list \<Rightarrow> string \<Rightarrow> Peer" where
  "simple_peer n m s key ips rv = \<lparr>peer_Name = n, peer_Labels = Labels m s, peer_ResourceVersion = rv,
     peer_Spec = \<lparr>AllowedIPs = ips, Endpoint = None, PersistentKeepalive = 0, PresharedKey = '''', PublicKey = key\<rparr>\<rparr>"

lemma simple_peer_simps [simp]:
  "peer_Name (simple_peer n m s key ips rv) = n"
  "peer_ResourceVersion (simple_peer n m s key ips rv) = rv"
  "PublicKey (peer_Spec (simple_peer n m s key ips rv)) = key"
  "AllowedIPs (peer_Spec (simple_peer n m s key ips rv)) = ips"
  "owned m' s' (simple_peer n m s key ips rv) \<longleftrightarrow> m' = m \<and> s' = s"
  "map_of (peer_Labels (simple_peer n m s key ips rv)) LabelMesh = Some m"
  "map_of (peer_Labels (simple_peer n m s key ips rv)) LabelSourceCluster = Some s"
  "map_get (peer_Labels (simple_peer n m s key ips rv)) LabelSourceCluster = s"
  by (auto simp: simple_peer_def owned_def selects_OrphanSelector Labels_def)

text \<open>A cluster with an orphan, an outdated Peer and a Peer of another mesh; and what is desired there.\<close>

definition example_store :: peer_store where
  "example_store =
     [simple_peer ''m--a--gone'' ''m'' ''a'' ''K9'' [''10.1.9.0/24''] ''1'',
      simple_peer ''m--a--n1'' ''m'' ''a'' ''K1'' [''10.1.0.0/24''] ''1'',
      simple_peer ''x--b--n1'' ''x'' ''b'' ''K7'' [''10.7.0.0/24''] ''1'']"

definition example_desired :: "Peer list" where
  "example_desired =
     [simple_peer ''m--a--n1'' ''m'' ''a'' ''K1'' [''10.1.1.0/24''] '''',
      simple_peer ''m--a--n2'' ''m'' ''a'' ''K2'' [''10.1.2.0/24''] '''']"

text \<open>
  C4. Convergence: against a healthy API server, when every desired Peer is already there or
  brings a new public key and no foreign Peer holds a desired name, \<^verbatim>\<open>ReconcilePeers\<close> returns nil
  and afterwards the Peers labelled with the mesh and the source cluster are exactly the desired
  ones, each with the desired content, whatever the order of map iteration.
\<close>

theorem ReconcilePeers_converges:
  assumes "reliable_api C view" and "distinct (map peer_Name desired)"
    and "\<forall>p \<in> set desired. owned m s p \<and> peer_ResourceVersion p = ''''"
    and "no_collision m s desired (view w)"
    and "\<forall>p \<in> set desired. \<forall>q. view w (peer_Name p) = Some q \<longrightarrow> owned m s q"
  shows "\<exists>w'. ReconcilePeers C m s desired w = (None, w') \<and> synced m s desired (view w')"
proof -
  obtain w' where "ReconcilePeers C m s desired w = (None, w')"
    using reliable_api.ReconcilePeers_total [OF assms(1,2)] assms(3-) by blast
  moreover from this have "synced m s desired (view w')"
    using peer_api.ReconcilePeers_synced [OF reliable_api.axioms(1) [OF assms(1)]] assms(2-) by blast
  ultimately show ?thesis by blast
qed

theorem ReconcilePeers_converges_witness:
  "\<exists>w'. ReconcilePeers mem_client ''m'' ''a'' example_desired example_store = (None, w') \<and>
     synced ''m'' ''a'' example_desired (mem_view w')"
  by (rule ReconcilePeers_converges [OF mem.reliable_api_axioms])
    (auto simp: example_desired_def example_store_def no_collision_def split: if_splits)

text \<open>
  C5. A nil result can be trusted: if \<^verbatim>\<open>ReconcilePeers\<close> returns nil, in a run without public key
  collisions, the owned Peers are exactly the desired ones, whatever failures the server can have.
\<close>

theorem ReconcilePeers_nil_exact:
  assumes "peer_api C view" and "ReconcilePeers C m s desired w = (None, w')"
    and "distinct (map peer_Name desired)" and "\<forall>p \<in> set desired. owned m s p"
    and "no_collision m s desired (view w)"
  shows "synced m s desired (view w')"
  using peer_api.ReconcilePeers_synced [OF assms(1-3)] assms(4,5) by blast

definition example_store' :: peer_store where
  "example_store' =
     [simple_peer ''m--a--n1'' ''m'' ''a'' ''K1'' [''10.1.1.0/24''] ''11'',
      simple_peer ''x--b--n1'' ''x'' ''b'' ''K7'' [''10.7.0.0/24''] ''1'',
      simple_peer ''m--a--n2'' ''m'' ''a'' ''K2'' [''10.1.2.0/24''] ''1'']"

lemma example_run: "ReconcilePeers mem_client ''m'' ''a'' example_desired example_store = (None, example_store')"
  by code_simp

theorem ReconcilePeers_nil_exact_witness: "synced ''m'' ''a'' example_desired (mem_view example_store')"
  by (rule ReconcilePeers_nil_exact [OF mem.peer_api_axioms example_run])
    (auto simp: example_desired_def example_store_def no_collision_def split: if_splits)

text \<open>
  C7. Idempotence: in a cluster that already holds the desired Peers, \<^verbatim>\<open>ReconcilePeers\<close> returns nil
  and leaves the cluster as it is, and it issues no write at all: the run is the same whatever
  the create, update and delete calls would do.
\<close>

theorem ReconcilePeers_idempotent:
  assumes "reliable_api C view" and "distinct (map peer_Name desired)" and "synced m s desired (view w)"
  shows "\<exists>w'. view w' = view w \<and>
    (\<forall>f g h. ReconcilePeers (C\<lparr>cl_Create := f, cl_Update := g, cl_Delete := h\<rparr>) m s desired w = (None, w'))"
  using reliable_api.ReconcilePeers_noop [OF assms(1,3,2)] .

lemma example_synced: "synced ''m'' ''a'' example_desired (mem_view example_store')"
  by (auto simp: synced_def example_desired_def example_store'_def simple_peer_def peerSpecEqual_iff
      owned_def selects_OrphanSelector Labels_def split: if_splits)

theorem ReconcilePeers_idempotent_witness:
  "\<exists>w'. mem_view w' = mem_view example_store' \<and>
    (\<forall>f g h. ReconcilePeers (mem_client\<lparr>cl_Create := f, cl_Update := g, cl_Delete := h\<rparr>)
       ''m'' ''a'' example_desired example_store' = (None, w'))"
  by (rule ReconcilePeers_idempotent [OF mem.reliable_api_axioms _ example_synced])
    (simp add: example_desired_def)

text \<open>
  C6. Isolation: whatever \<^verbatim>\<open>ReconcilePeers\<close> returns, and even if every call fails halfway, a Peer
  that is not labelled with this mesh and source cluster, whose name is not desired and whose
  public key no desired Peer has, is left exactly as it was.
\<close>

theorem ReconcilePeers_isolation:
  assumes "peer_api C view" and "ReconcilePeers C m s desired w = (r, w')"
    and "n \<notin> peer_Name ` set desired"
    and "\<forall>q. view w n = Some q \<longrightarrow> \<not> owned m s q \<and>
      (\<forall>p \<in> set desired. PublicKey (peer_Spec q) \<noteq> PublicKey (peer_Spec p))"
  shows "view w' n = view w n"
  using peer_api.ReconcilePeers_frame [OF assms(1-3)] assms(4) by blast

theorem ReconcilePeers_isolation_witness:
  "mem_view example_store' ''x--b--n1'' = mem_view example_store ''x--b--n1''"
  by (rule ReconcilePeers_isolation [OF mem.peer_api_axioms example_run])
    (auto simp: example_desired_def example_store_def)

text \<open>
  Orphans go: if \<^verbatim>\<open>ReconcilePeers\<close> returns nil, every Peer labelled with this mesh and source
  cluster whose name is not desired is gone, key collisions or not. With no desired Peer (as the
  deletion of a mesh calls it) no Peer of the pair is left.
\<close>

theorem ReconcilePeers_removes_orphans:
  assumes "peer_api C view" and "ReconcilePeers C m s desired w = (None, w')"
    and "view w n = Some q" and "owned m s q" and "n \<notin> peer_Name ` set desired"
  shows "view w' n = None"
  using peer_api.ReconcilePeers_orphans [OF assms] .

lemma example_deletion:
  "ReconcilePeers mem_client ''m'' ''a'' [] example_store =
     (None, [simple_peer ''x--b--n1'' ''x'' ''b'' ''K7'' [''10.7.0.0/24''] ''1''])"
  by code_simp

theorem ReconcilePeers_removes_orphans_witness:
  "mem_view [simple_peer ''x--b--n1'' ''x'' ''b'' ''K7'' [''10.7.0.0/24''] ''1''] ''m--a--gone'' = None"
  by (rule ReconcilePeers_removes_orphans [OF mem.peer_api_axioms example_deletion,
      where q = "simple_peer ''m--a--gone'' ''m'' ''a'' ''K9'' [''10.1.9.0/24''] ''1''"])
    (simp_all add: example_store_def)






text \<open>
  C24. A renamed node loses its Peer: if the key of a desired Peer that does not exist yet is carried
  by an orphan of the same mesh and source cluster (the node came back under a new name with its
  key), a run of \<^verbatim>\<open>ReconcilePeers\<close> that returns nil merges the desired AllowedIPs into the orphan, then
  deletes the orphan and never creates the desired Peer.
\<close>

theorem ReconcilePeers_renamed_node_dropped:
  assumes "peer_api C view" and "ReconcilePeers C m s desired w = (None, w')"
    and "distinct (map peer_Name desired)" and "p \<in> set desired" and "view w (peer_Name p) = None"
    and "is_canonical {q. view w (peer_Name q) = Some q} (PublicKey (peer_Spec p)) c"
    and "owned m s c" and "peer_Name c \<notin> peer_Name ` set desired"
  shows "view w' (peer_Name p) = None \<and> view w' (peer_Name c) = None"
  using peer_api.ReconcilePeers_not_created [OF assms(1-6)]
    peer_api.ReconcilePeers_orphans [OF assms(1,2) _ assms(7,8)] assms(4,6,8)
  by (auto simp: is_canonical_def)

definition renamed_store :: peer_store where
  "renamed_store = [simple_peer ''m--a--old'' ''m'' ''a'' ''K1'' [''10.1.1.0/24''] ''1'']"

definition renamed_desired :: "Peer list" where
  "renamed_desired = [simple_peer ''m--a--new'' ''m'' ''a'' ''K1'' [''10.1.2.0/24''] '''']"

lemma renamed_run: "ReconcilePeers mem_client ''m'' ''a'' renamed_desired renamed_store = (None, [])"
  by code_simp

theorem ReconcilePeers_renamed_node_dropped_witness:
  "mem_view [] (peer_Name (hd renamed_desired)) = None \<and> mem_view [] (peer_Name (hd renamed_store)) = None"
  by (rule ReconcilePeers_renamed_node_dropped [OF mem.peer_api_axioms renamed_run])
    (auto simp: renamed_desired_def renamed_store_def is_canonical_def split: if_splits)

text \<open>
  Two desired Peers of one call that share a public key are both created, although the cluster
  then holds two Peers with the same key: the check for duplicate keys sees only the Peers stored
  before the call.
\<close>

theorem ReconcilePeers_duplicate_keys:
  "\<exists>w' p q. ReconcilePeers mem_client ''m'' ''a''
       [simple_peer ''m--a--n1'' ''m'' ''a'' ''K1'' [''10.1.1.0/24''] '''',
        simple_peer ''m--a--n2'' ''m'' ''a'' ''K1'' [''10.1.2.0/24''] ''''] [] = (None, w') \<and>
     mem_view w' ''m--a--n1'' = Some p \<and> mem_view w' ''m--a--n2'' = Some q \<and>
     PublicKey (peer_Spec p) = PublicKey (peer_Spec q)"
proof -
  have "ReconcilePeers mem_client ''m'' ''a''
       [simple_peer ''m--a--n1'' ''m'' ''a'' ''K1'' [''10.1.1.0/24''] '''',
        simple_peer ''m--a--n2'' ''m'' ''a'' ''K1'' [''10.1.2.0/24''] ''''] [] =
     (None, [simple_peer ''m--a--n1'' ''m'' ''a'' ''K1'' [''10.1.1.0/24''] ''1'',
        simple_peer ''m--a--n2'' ''m'' ''a'' ''K1'' [''10.1.2.0/24''] ''1''])"
    by code_simp
  then show ?thesis by simp
qed

text \<open>
  The sweep of removed source clusters is exact: if \<^verbatim>\<open>DeleteStaleSourceClusters\<close> returns nil,
  precisely the Peers of the mesh whose source cluster is not listed are gone, and every other
  Peer is unchanged; an empty list of sources removes every Peer of the mesh.
\<close>

theorem DeleteStaleSourceClusters_exact:
  assumes "peer_api C view" and "DeleteStaleSourceClusters C m valid w = (None, w')"
  shows "view w' = (\<lambda>n. case view w n of None \<Rightarrow> None
     | Some q \<Rightarrow> if map_of (peer_Labels q) LabelMesh = Some m \<and>
          map_get (peer_Labels q) LabelSourceCluster \<notin> set valid then None else Some q)"
proof
  fix n
  show "view w' n = (case view w n of None \<Rightarrow> None
     | Some q \<Rightarrow> if map_of (peer_Labels q) LabelMesh = Some m \<and>
          map_get (peer_Labels q) LabelSourceCluster \<notin> set valid then None else Some q)"
    using peer_api.DeleteStale_frame [OF assms, of n] peer_api.DeleteStale_gone [OF assms, of n]
    by (auto split: option.splits)
qed

lemma example_sweep:
  "DeleteStaleSourceClusters mem_client ''m'' [''b''] example_store =
     (None, [simple_peer ''x--b--n1'' ''x'' ''b'' ''K7'' [''10.7.0.0/24''] ''1''])"
  by code_simp

theorem DeleteStaleSourceClusters_exact_witness:
  "mem_view [simple_peer ''x--b--n1'' ''x'' ''b'' ''K7'' [''10.7.0.0/24''] ''1''] = (\<lambda>n. case mem_view example_store n of None \<Rightarrow> None
     | Some q \<Rightarrow> if map_of (peer_Labels q) LabelMesh = Some ''m'' \<and>
          map_get (peer_Labels q) LabelSourceCluster \<notin> set [''b''] then None else Some q)"
  by (rule DeleteStaleSourceClusters_exact [OF mem.peer_api_axioms example_sweep])

text \<open>
  \<^verbatim>\<open>peerSpecEqual\<close> decides equality of specs up to the order of AllowedIPs, repetitions counted;
  \<^verbatim>\<open>mergeAllowedIPs\<close> is the sorted list of the union without repetition, whatever order the range over
  its set of keys takes.
\<close>

theorem allowedIPs_semantics:
  assumes "\<And>ks. mset (order ks) = mset ks"
  shows "mergeAllowedIPs order a b = sorted_list_of_set (set a \<union> set b) \<and>
     (peerSpecEqual x y \<longleftrightarrow>
        (\<exists>ips. x = y\<lparr>AllowedIPs := ips\<rparr> \<and> mset ips = mset (AllowedIPs y)))"
proof
  show "mergeAllowedIPs order a b = sorted_list_of_set (set a \<union> set b)" using assms by (rule mergeAllowedIPs_eq)
  show "peerSpecEqual x y \<longleftrightarrow> (\<exists>ips. x = y\<lparr>AllowedIPs := ips\<rparr> \<and> mset ips = mset (AllowedIPs y))"
    by (cases x; cases y) (auto simp: peerSpecEqual_iff)
qed

theorem allowedIPs_semantics_witness:
  "mergeAllowedIPs rev [''b'', ''a''] [''c'', ''a''] = sorted_list_of_set (set [''b'', ''a''] \<union> set [''c'', ''a''])"
  using allowedIPs_semantics [of rev] by simp

end
