(* ===== verification/GoJSON.thy ===== *)
theory GoJSON
  imports GoText
begin

text \<open>
  \<^verbatim>\<open>encoding/json\<close> as far as the operator decodes with it: the syntax check of a document and the value
  it denotes. Strings denote bytes: escapes are resolved, and bytes that are no UTF-8 become U+FFFD.
  Numbers keep their text. Objects keep their members in order, repeated names included. A document nested
  deeper than ten thousand levels is refused, as the scanner does.
\<close>

section \<open>Strings\<close>

text \<open>\<^verbatim>\<open>utf8.AppendRune\<close>: surrogates and numbers past the last rune are written as U+FFFD.\<close>

definition EncodeRune :: "nat \<Rightarrow> string" where
  "EncodeRune r0 =
     (let r = (if 55296 \<le> r0 \<and> r0 \<le> 57343 \<or> 1114111 < r0 then RuneError else r0) in
      if r < 128 then [char_of r]
      else if r < 2048 then [char_of (192 + r div 64), char_of (128 + r mod 64)]
      else if r < 65536
        then [char_of (224 + r div 4096), char_of (128 + r div 64 mod 64), char_of (128 + r mod 64)]
      else [char_of (240 + r div 262144), char_of (128 + r div 4096 mod 64),
            char_of (128 + r div 64 mod 64), char_of (128 + r mod 64)])"

definition hex_val :: "char \<Rightarrow> nat option" where
  "hex_val c =
     (let b = (of_char c :: nat) in
      if 48 \<le> b \<and> b \<le> 57 then Some (b - 48)
      else if 97 \<le> b \<and> b \<le> 102 then Some (b - 87)
      else if 65 \<le> b \<and> b \<le> 70 then Some (b - 55) else None)"

text \<open>Four hexadecimal digits at the start of a string.\<close>

definition hex4 :: "string \<Rightarrow> nat option" where
  "hex4 s = (case map hex_val (take 4 s) of
       [Some a, Some b, Some c, Some d] \<Rightarrow> Some (a * 4096 + b * 256 + c * 16 + d)
     | _ \<Rightarrow> None)"

text \<open>The second half of a surrogate pair, if the string goes on with one.\<close>

definition low_surrogate :: "string \<Rightarrow> nat option" where
  "low_surrogate s =
     (if take 2 s = [CHR 0x5C, CHR ''u''] then
        (case hex4 (drop 2 s) of
           Some r \<Rightarrow> (if 56320 \<le> r \<and> r \<le> 57343 then Some r else None)
         | None \<Rightarrow> None)
      else None)"

text \<open>
  The rune written by \<^verbatim>\<open>\u\<close> with its four digits already read, and how many bytes of the rest belong to it.
\<close>

definition unicode_escape :: "nat \<Rightarrow> string \<Rightarrow> nat \<times> nat" where
  "unicode_escape r s =
     (if 55296 \<le> r \<and> r \<le> 57343 then
        (case (if r \<le> 56319 then low_surrogate s else None) of
           Some lo \<Rightarrow> ((r - 55296) * 1024 + (lo - 56320) + 65536, 6)
         | None \<Rightarrow> (RuneError, 0))
      else (r, 0))"

definition simple_escape :: "char \<Rightarrow> char option" where
  "simple_escape c =
     (if c = CHR 0x22 \<or> c = CHR 0x5C \<or> c = CHR ''/'' then Some c
      else if c = CHR ''b'' then Some (CHR 0x08) else if c = CHR ''f'' then Some (CHR 0x0C)
      else if c = CHR ''n'' then Some (CHR 0x0A) else if c = CHR ''r'' then Some (CHR 0x0D)
      else if c = CHR ''t'' then Some (CHR 0x09) else None)"

text \<open>One element of a string, from its first byte and the rest: the bytes it denotes and what follows.\<close>

definition jchar :: "char \<Rightarrow> string \<Rightarrow> (string \<times> string) option" where
  "jchar c r =
     (if c = CHR 0x5C then
        (case r of
           [] \<Rightarrow> None
         | e # u \<Rightarrow>
             (if e = CHR ''u'' then
                (case hex4 u of
                   None \<Rightarrow> None
                 | Some v \<Rightarrow>
                     (case unicode_escape v (drop 4 u) of (rune, k) \<Rightarrow> Some (EncodeRune rune, drop (4 + k) u)))
              else case simple_escape e of
                None \<Rightarrow> None
              | Some b \<Rightarrow> Some ([b], u)))
      else if of_char c < (32 :: nat) then None
      else case DecodeRune c r of (rune, width) \<Rightarrow> Some (EncodeRune rune, drop (width - 1) r))"

lemma jchar_length: "jchar c r = Some (bs, t) \<Longrightarrow> length t \<le> length r"
  by (auto simp: jchar_def split: if_splits list.splits option.splits prod.splits)

text \<open>A string after its opening quote: the bytes it denotes and what follows the closing quote.\<close>

function jstring :: "string \<Rightarrow> (string \<times> string) option" where
  "jstring [] = None"
| "jstring (c # r) =
     (if c = CHR 0x22 then Some ([], r)
      else case jchar c r of
        None \<Rightarrow> None
      | Some (bs, rest) \<Rightarrow> (case jstring rest of None \<Rightarrow> None | Some (t, u) \<Rightarrow> Some (bs @ t, u)))"
  by pat_completeness auto

termination
  by (relation "measure length") (auto dest: jchar_length)

section \<open>Values\<close>

datatype json =
    JNull
  | JBool bool
  | JNum string
  | JStr string
  | JArr "json list"
  | JObj "(string \<times> json) list"

definition is_ws :: "char \<Rightarrow> bool" where
  "is_ws c \<longleftrightarrow> c = CHR '' '' \<or> c = CHR 0x09 \<or> c = CHR 0x0A \<or> c = CHR 0x0D"

definition skip_ws :: "string \<Rightarrow> string" where
  "skip_ws s = dropWhile is_ws s"

text \<open>The number at the start of a string: its text and the rest.\<close>

definition digits1 :: "string \<Rightarrow> (string \<times> string) option" where
  "digits1 s = (let ds = takeWhile is_digit s in if ds = [] then None else Some (ds, dropWhile is_digit s))"

definition jnum_int :: "string \<Rightarrow> (string \<times> string) option" where
  "jnum_int s = (case s of
       [] \<Rightarrow> None
     | c # r \<Rightarrow> if c = CHR ''0'' then Some ([c], r) else digits1 s)"

definition jnum_frac :: "string \<Rightarrow> (string \<times> string) option" where
  "jnum_frac s = (case s of
       [] \<Rightarrow> Some ([], [])
     | c # r \<Rightarrow>
         (if c = CHR ''.'' then (case digits1 r of None \<Rightarrow> None | Some (ds, t) \<Rightarrow> Some (c # ds, t))
          else Some ([], s)))"

definition jnum_exp :: "string \<Rightarrow> (string \<times> string) option" where
  "jnum_exp s = (case s of
       [] \<Rightarrow> Some ([], [])
     | c # r \<Rightarrow>
         (if c = CHR ''e'' \<or> c = CHR ''E'' then
            (let sign = (case r of [] \<Rightarrow> [] | x # _ \<Rightarrow> if x = CHR ''+'' \<or> x = CHR ''-'' then [x] else [])
             in case digits1 (drop (length sign) r) of
               None \<Rightarrow> None
             | Some (ds, t) \<Rightarrow> Some (c # sign @ ds, t))
          else Some ([], s)))"

definition jnumber :: "string \<Rightarrow> (string \<times> string) option" where
  "jnumber s =
     (let sign = (if take 1 s = ''-'' then ''-'' else [])
      in case jnum_int (drop (length sign) s) of
        None \<Rightarrow> None
      | Some (i, s1) \<Rightarrow>
          (case jnum_frac s1 of
             None \<Rightarrow> None
           | Some (f, s2) \<Rightarrow>
               (case jnum_exp s2 of
                  None \<Rightarrow> None
                | Some (e, s3) \<Rightarrow> Some (sign @ i @ f @ e, s3))))"

definition literal :: "string \<Rightarrow> json \<Rightarrow> string \<Rightarrow> (json \<times> string) option" where
  "literal l v s = (if take (length l) s = l then Some (v, drop (length l) s) else None)"

definition maxNestingDepth :: nat where
  "maxNestingDepth = 10000"

text \<open>
  Values, the rest of an array and the rest of an object. The first argument is fuel, the second the
  nesting still allowed. \<open>jfuel\<close> below shows that twice the length of the input and two is always enough fuel.
\<close>

fun jvalue :: "nat \<Rightarrow> nat \<Rightarrow> string \<Rightarrow> (json \<times> string) option"
  and jelems :: "nat \<Rightarrow> nat \<Rightarrow> string \<Rightarrow> (json list \<times> string) option"
  and jmembers :: "nat \<Rightarrow> nat \<Rightarrow> string \<Rightarrow> ((string \<times> json) list \<times> string) option" where
  "jvalue 0 d s = None"
| "jvalue (Suc n) d s =
     (case skip_ws s of
        [] \<Rightarrow> None
      | c # r \<Rightarrow>
          (if c = CHR ''{'' then
             (if d = 0 then None
              else if take 1 (skip_ws r) = ''}'' then Some (JObj [], drop 1 (skip_ws r))
              else case jmembers n (d - 1) (skip_ws r) of None \<Rightarrow> None | Some (ms, t) \<Rightarrow> Some (JObj ms, t))
           else if c = CHR ''['' then
             (if d = 0 then None
              else if take 1 (skip_ws r) = '']'' then Some (JArr [], drop 1 (skip_ws r))
              else case jelems n (d - 1) r of None \<Rightarrow> None | Some (vs, t) \<Rightarrow> Some (JArr vs, t))
           else if c = CHR 0x22 then (case jstring r of None \<Rightarrow> None | Some (b, t) \<Rightarrow> Some (JStr b, t))
           else if c = CHR ''t'' then literal ''true'' (JBool True) (c # r)
           else if c = CHR ''f'' then literal ''false'' (JBool False) (c # r)
           else if c = CHR ''n'' then literal ''null'' JNull (c # r)
           else case jnumber (c # r) of None \<Rightarrow> None | Some (x, t) \<Rightarrow> Some (JNum x, t)))"
| "jelems 0 d s = None"
| "jelems (Suc n) d s =
     (case jvalue n d s of
        None \<Rightarrow> None
      | Some (v, r) \<Rightarrow>
          (case skip_ws r of
             [] \<Rightarrow> None
           | c # t \<Rightarrow>
               (if c = CHR '']'' then Some ([v], t)
                else if c = CHR '','' then
                  (case jelems n d t of None \<Rightarrow> None | Some (vs, u) \<Rightarrow> Some (v # vs, u))
                else None)))"
| "jmembers 0 d s = None"
| "jmembers (Suc n) d s =
     (case s of
        [] \<Rightarrow> None
      | q # r \<Rightarrow>
          (if q \<noteq> CHR 0x22 then None
           else case jstring r of
             None \<Rightarrow> None
           | Some (k, r1) \<Rightarrow>
               (case skip_ws r1 of
                  [] \<Rightarrow> None
                | c # r2 \<Rightarrow>
                    (if c \<noteq> CHR '':'' then None
                     else case jvalue n d r2 of
                       None \<Rightarrow> None
                     | Some (v, r3) \<Rightarrow>
                         (case skip_ws r3 of
                            [] \<Rightarrow> None
                          | x # t \<Rightarrow>
                              (if x = CHR ''}'' then Some ([(k, v)], t)
                               else if x = CHR '','' then
                                 (case jmembers n d (skip_ws t) of
                                    None \<Rightarrow> None
                                  | Some (ms, u) \<Rightarrow> Some ((k, v) # ms, u))
                               else None))))))"

text \<open>A whole document.\<close>

definition json_document :: "string \<Rightarrow> json option" where
  "json_document s =
     (case jvalue (2 * length s + 2) maxNestingDepth s of
        None \<Rightarrow> None
      | Some (v, rest) \<Rightarrow> if skip_ws rest = [] then Some v else None)"

section \<open>Numbers into Go ints\<close>

text \<open>\<^verbatim>\<open>strconv.ParseInt(s, 10, 64)\<close> on the text of a JSON number.\<close>

definition json_int :: "string \<Rightarrow> int option" where
  "json_int t =
     (let neg = (take 1 t = ''-''); ds = drop (if neg then 1 else 0) t
      in if ds = [] \<or> \<not> list_all is_digit ds then None
      else let n = int (foldl (\<lambda>a c. 10 * a + digit_val c) 0 ds)
      in if neg then (if n \<le> 2 ^ 63 then Some (- n) else None)
      else if n < 2 ^ 63 then Some n else None)"

section \<open>The parsers consume their input\<close>

lemma length_skip_ws: "length (skip_ws s) \<le> length s"
  by (simp add: skip_ws_def length_dropWhile_le)

lemma skip_ws_Cons: "skip_ws s = c # r \<Longrightarrow> length r < length s"
  using length_skip_ws [of s] by simp

lemma jstring_length: "jstring s = Some (b, t) \<Longrightarrow> length t < length s"
proof (induction s arbitrary: b t rule: jstring.induct)
  case (2 c r)
  show ?case
  proof (cases "c = CHR 0x22")
    case True
    with 2 show ?thesis by simp
  next
    case False
    with 2(2) obtain bs rest b' where j: "jchar c r = Some (bs, rest)" "jstring rest = Some (b', t)"
      by (auto split: option.splits)
    then have "length t < length rest" using 2(1) [OF False j(1) refl] by simp
    with jchar_length [OF j(1)] show ?thesis by simp
  qed
qed simp

lemma digits1_length: "digits1 s = Some (ds, t) \<Longrightarrow> length t < length s"
proof -
  assume a: "digits1 s = Some (ds, t)"
  then have "s = ds @ t" "ds \<noteq> []" by (auto simp: digits1_def Let_def split: if_splits)
  then show ?thesis by simp
qed

lemma jnum_parts_length:
  "jnum_int s = Some (a, t) \<Longrightarrow> length t < length s"
  "jnum_frac s = Some (a, t) \<Longrightarrow> length t \<le> length s"
  "jnum_exp s = Some (a, t) \<Longrightarrow> length t \<le> length s"
  by (fastforce simp: jnum_int_def jnum_frac_def jnum_exp_def Let_def
      split: list.splits if_splits option.splits dest: digits1_length)+

lemma jnumber_length: "jnumber s = Some (x, t) \<Longrightarrow> length t < length s"
  by (fastforce simp: jnumber_def Let_def split: if_splits option.splits dest: jnum_parts_length)

lemma literal_length: "literal l v s = Some (x, t) \<Longrightarrow> l \<noteq> [] \<Longrightarrow> length t < length s"
  by (auto simp: literal_def split: if_splits) (metis length_drop diff_less length_greater_0_conv take_eq_Nil)

lemma jparse_length:
  "(\<forall>d s v r. jvalue n d s = Some (v, r) \<longrightarrow> length r < length s) \<and>
   (\<forall>d s vs r. jelems n d s = Some (vs, r) \<longrightarrow> length r < length s) \<and>
   (\<forall>d s ms r. jmembers n d s = Some (ms, r) \<longrightarrow> length r < length s)"
proof (induction n)
  case (Suc n)
  then have V: "\<And>d s v r. jvalue n d s = Some (v, r) \<Longrightarrow> length r < length s"
    and E: "\<And>d s v r. jelems n d s = Some (v, r) \<Longrightarrow> length r < length s"
    and M: "\<And>d s v r. jmembers n d s = Some (v, r) \<Longrightarrow> length r < length s" by blast+
  have "length r < length s" if j: "jvalue (Suc n) d s = Some (v, r)" for d s v r
  proof -
    obtain c t where s: "skip_ws s = c # t" using j by (auto split: list.splits)
    have "length r \<le> length t"
      using j s M [of "d - 1" "skip_ws t"] E [of "d - 1" t] length_skip_ws [of t]
        jstring_length [of t] jnumber_length [of "c # t"] literal_length [of _ _ "c # t"]
      by (fastforce split: if_splits option.splits simp: less_Suc_eq_le)
    then show ?thesis using skip_ws_Cons [OF s] by simp
  qed
  moreover have "length r < length s" if "jelems (Suc n) d s = Some (vs, r)" for d s vs r
    using that by (fastforce split: option.splits list.splits if_splits dest!: V E skip_ws_Cons)
  moreover have "length r < length s" if j: "jmembers (Suc n) d s = Some (ms, r)" for d s ms r
  proof -
    obtain q u k r1 c r2 v r3 x t where s: "s = q # u" "jstring u = Some (k, r1)" "skip_ws r1 = c # r2"
      "jvalue n d r2 = Some (v, r3)" "skip_ws r3 = x # t" "r = t \<or> (\<exists>ms. jmembers n d (skip_ws t) = Some (ms, r))"
      using j by (auto split: list.splits if_splits option.splits)
    have "length t < length s"
      using s(1) jstring_length [OF s(2)] skip_ws_Cons [OF s(3)] V [OF s(4)] skip_ws_Cons [OF s(5)] by simp
    moreover have "length r \<le> length t" using s(6) M [of d "skip_ws t"] length_skip_ws [of t] by fastforce
    ultimately show ?thesis by simp
  qed
  ultimately show ?case by blast
qed simp

lemmas jvalue_length = jparse_length [THEN conjunct1, rule_format]

text \<open>More fuel than twice the length of the input changes nothing.\<close>

lemma jfuel_step:
  "(\<forall>d s. 2 * length s < n \<longrightarrow> jvalue (Suc n) d s = jvalue n d s) \<and>
   (\<forall>d s. 2 * length s + 1 < n \<longrightarrow> jelems (Suc n) d s = jelems n d s) \<and>
   (\<forall>d s. 2 * length s < n \<longrightarrow> jmembers (Suc n) d s = jmembers n d s)"
proof (induction n)
  case (Suc n)
  then have V: "\<And>d s. 2 * length s < n \<Longrightarrow> jvalue (Suc n) d s = jvalue n d s"
    and E: "\<And>d s. 2 * length s + 1 < n \<Longrightarrow> jelems (Suc n) d s = jelems n d s"
    and M: "\<And>d s. 2 * length s < n \<Longrightarrow> jmembers (Suc n) d s = jmembers n d s" by blast+
  have "jvalue (Suc (Suc n)) d s = jvalue (Suc n) d s" if l: "2 * length s < Suc n" for d s
  proof (cases "skip_ws s")
    case (Cons c r)
    from skip_ws_Cons [OF Cons] l have r: "2 * length r + 1 < n" by simp
    then have "2 * length (skip_ws r) < n" using length_skip_ws [of r] by simp
    with r show ?thesis
      by (simp only: jvalue.simps(2) [of n] jvalue.simps(2) [of "Suc n"] Cons list.case M E)
  qed simp
  moreover have "jelems (Suc (Suc n)) d s = jelems (Suc n) d s" if l: "2 * length s + 1 < Suc n" for d s
  proof -
    have v: "jvalue (Suc n) d s = jvalue n d s" using l by (intro V) simp
    have "jelems (Suc n) d t = jelems n d t" if "jvalue n d s = Some (x, r)" "skip_ws r = c # t" for x r c t
      using l jvalue_length [OF that(1)] skip_ws_Cons [OF that(2)] by (intro E) simp
    then show ?thesis
      unfolding jelems.simps(2) [of n d s] jelems.simps(2) [of "Suc n" d s] v
      by (cases "jvalue n d s") (auto split: list.split simp del: jvalue.simps jelems.simps jmembers.simps)
  qed
  moreover have "jmembers (Suc (Suc n)) d s = jmembers (Suc n) d s" if l: "2 * length s < Suc n" for d s
  proof (cases s)
    case (Cons q u)
    have v: "jvalue (Suc n) d r2 = jvalue n d r2" if "jstring u = Some (k, r1)" "skip_ws r1 = c # r2" for k r1 c r2
      using l Cons jstring_length [OF that(1)] skip_ws_Cons [OF that(2)] by (intro V) simp
    have m: "jmembers (Suc n) d (skip_ws t) = jmembers n d (skip_ws t)"
      if "jstring u = Some (k, r1)" "skip_ws r1 = c # r2" "jvalue n d r2 = Some (x, r3)" "skip_ws r3 = y # t"
      for k r1 c r2 x r3 y t
      using l Cons jstring_length [OF that(1)] skip_ws_Cons [OF that(2)] jvalue_length [OF that(3)]
        skip_ws_Cons [OF that(4)] length_skip_ws [of t] by (intro M) simp
    show ?thesis
      unfolding Cons jmembers.simps(2) [of n d "q # u"] jmembers.simps(2) [of "Suc n" d "q # u"] list.case
      using v m by (auto split: option.split list.split simp del: jvalue.simps jelems.simps jmembers.simps)
  qed simp
  ultimately show ?case by blast
qed simp

lemma jfuel: "2 * length s < n \<Longrightarrow> jvalue (n + k) d s = jvalue n d s"
proof (induction k)
  case (Suc k)
  then have "jvalue (Suc (n + k)) d s = jvalue (n + k) d s" using jfuel_step [of "n + k"] by simp
  with Suc show ?case by simp
qed simp

end
