(* ===== verification/Discovered.thy ===== *)
theory Discovered
  imports GoJSON Kilonode PeerClient
begin

text \<open>
  \<^verbatim>\<open>internal/kilonode/discovered.go\<close>: the endpoints that the nodes of a cluster observed for WireGuard keys,
  read from a JSON annotation that Kilo writes.
\<close>

section \<open>Decoding the annotation\<close>

record discoveredEndpointEntry =
  de_IP :: string
  de_Port :: int

definition zero_entry :: discoveredEndpointEntry where
  "zero_entry = \<lparr>de_IP = '''', de_Port = 0\<rparr>"

text \<open>
  \<^verbatim>\<open>json.Unmarshal\<close> matches member names with field names without regard to case. No letter of the two
  names folds to a character outside ASCII, so folding is upper-casing of ASCII letters.
\<close>

definition fold_name :: "string \<Rightarrow> string" where
  "fold_name = map (\<lambda>c. if CHR ''a'' \<le> c \<and> c \<le> CHR ''z'' then char_of (of_char c - (32 :: nat)) else c)"

text \<open>
  The members of an entry, in order: null leaves a field as it is, a value of the wrong type is an error
  (\<open>None\<close>), unknown members are ignored.
\<close>

fun decode_fields :: "discoveredEndpointEntry \<Rightarrow> (string \<times> json) list \<Rightarrow> discoveredEndpointEntry option" where
  "decode_fields e [] = Some e"
| "decode_fields e ((k, v) # ms) =
     (if fold_name k = ''IP'' then
        (case v of
           JStr s \<Rightarrow> decode_fields (e\<lparr>de_IP := s\<rparr>) ms
         | JNull \<Rightarrow> decode_fields e ms
         | _ \<Rightarrow> None)
      else if fold_name k = ''PORT'' then
        (case v of
           JNum t \<Rightarrow> (case json_int t of None \<Rightarrow> None | Some i \<Rightarrow> decode_fields (e\<lparr>de_Port := i\<rparr>) ms)
         | JNull \<Rightarrow> decode_fields e ms
         | _ \<Rightarrow> None)
      else decode_fields e ms)"

fun decode_entry :: "json \<Rightarrow> discoveredEndpointEntry option" where
  "decode_entry JNull = Some zero_entry"
| "decode_entry (JObj ms) = decode_fields zero_entry ms"
| "decode_entry _ = None"

type_synonym entry_map = "(string \<times> discoveredEndpointEntry) list"

fun decode_entries :: "entry_map \<Rightarrow> (string \<times> json) list \<Rightarrow> entry_map option" where
  "decode_entries m [] = Some m"
| "decode_entries m ((k, v) # ms) =
     (case decode_entry v of None \<Rightarrow> None | Some e \<Rightarrow> decode_entries (AList.update k e m) ms)"

text \<open>\<^verbatim>\<open>json.Unmarshal\<close> of the annotation into \<^verbatim>\<open>map[string]discoveredEndpointEntry\<close>; \<open>None\<close> is an error.\<close>

definition unmarshal_entries :: "string \<Rightarrow> entry_map option" where
  "unmarshal_entries raw =
     (case json_document raw of
        Some JNull \<Rightarrow> Some []
      | Some (JObj ms) \<Rightarrow> decode_entries [] ms
      | _ \<Rightarrow> None)"

section \<open>Collecting the endpoints\<close>

fun discovered_entries :: "str_map \<Rightarrow> entry_map \<Rightarrow> str_map" where
  "discovered_entries result [] = result"
| "discovered_entries result ((pubKey, entry) # entries) =
     (if de_IP entry = '''' \<or> de_Port entry \<le> 0 then discovered_entries result entries
      else case ParseIP (de_IP entry) of
        None \<Rightarrow> discovered_entries result entries
      | Some ip \<Rightarrow>
          (if IsLoopback ip \<or> IsLinkLocalUnicast ip then discovered_entries result entries
           else if map_of result pubKey \<noteq> None then discovered_entries result entries
           else discovered_entries
             (AList.update pubKey (JoinHostPort (de_IP entry) (Itoa (de_Port entry))) result) entries))"

fun discovered_nodes :: "'w peer_client \<Rightarrow> 'w \<Rightarrow> str_map \<Rightarrow> Node list \<Rightarrow> str_map" where
  "discovered_nodes C w result [] = result"
| "discovered_nodes C w result (node # nodes) =
     (case map_of (node_Annotations node) AnnotationDiscoveredEndpoints of
        None \<Rightarrow> discovered_nodes C w result nodes
      | Some raw \<Rightarrow>
          (if raw = '''' then discovered_nodes C w result nodes
           else case unmarshal_entries raw of
             None \<Rightarrow> discovered_nodes C w result nodes
           | Some entries \<Rightarrow>
               discovered_nodes C w (discovered_entries result (ranged C w entries)) nodes))"

definition DiscoveredEndpointsByKey :: "'w cluster_client \<Rightarrow> 'w \<Rightarrow> (error + str_map) \<times> 'w" where
  "DiscoveredEndpointsByKey K w =
     (case cc_ListNodes K w of
        (Inl err, w) \<Rightarrow> (Inl (Wrapf err ''listing nodes for discovered-endpoint lookup'' []), w)
      | (Inr nodes, w) \<Rightarrow> (Inr (discovered_nodes (cc_Peers K) w [] nodes), w))"

section \<open>Facts\<close>

text \<open>The endpoint an entry stands for, if it is usable; and what a node observed for a key.\<close>

definition entry_endpoint :: "discoveredEndpointEntry \<Rightarrow> string option" where
  "entry_endpoint e =
     (case ParseIP (de_IP e) of
        None \<Rightarrow> None
      | Some ip \<Rightarrow>
          if 0 < de_Port e \<and> \<not> IsLoopback ip \<and> \<not> IsLinkLocalUnicast ip
          then Some (JoinHostPort (de_IP e) (Itoa (de_Port e))) else None)"

definition observed :: "string \<Rightarrow> Node \<Rightarrow> string option" where
  "observed key node =
     (case map_of (node_Annotations node) AnnotationDiscoveredEndpoints of
        None \<Rightarrow> None
      | Some raw \<Rightarrow>
          (case unmarshal_entries raw of
             None \<Rightarrow> None
           | Some entries \<Rightarrow> (case map_of entries key of None \<Rightarrow> None | Some e \<Rightarrow> entry_endpoint e)))"

fun first_some :: "'a option list \<Rightarrow> 'a option" where
  "first_some [] = None"
| "first_some (None # xs) = first_some xs"
| "first_some (Some x # xs) = Some x"

lemma unmarshal_empty: "unmarshal_entries '''' = None"
  by code_simp

lemma decode_entries_distinct:
  "decode_entries m ms = Some m' \<Longrightarrow> distinct (map fst m) \<Longrightarrow> distinct (map fst m')"
  by (induction m ms arbitrary: m' rule: decode_entries.induct)
    (auto simp: distinct_update split: option.splits)

lemma unmarshal_distinct: "unmarshal_entries raw = Some m \<Longrightarrow> distinct (map fst m)"
  by (auto simp: unmarshal_entries_def dest: decode_entries_distinct split: option.splits json.splits)

lemma discovered_entries_Cons:
  "discovered_entries result ((k, e) # es) =
     discovered_entries (case entry_endpoint e of
        None \<Rightarrow> result
      | Some ep \<Rightarrow> if map_of result k = None then AList.update k ep result else result) es"
proof -
  have "ParseIP '''' = None" by code_simp
  then show ?thesis by (cases "de_IP e = ''''") (auto simp: entry_endpoint_def split: option.splits)
qed

lemma map_of_discovered_entries:
  assumes "distinct (map fst es)"
  shows "map_of (discovered_entries result es) key =
     (case map_of result key of
        Some ep \<Rightarrow> Some ep
      | None \<Rightarrow> (case map_of es key of None \<Rightarrow> None | Some e \<Rightarrow> entry_endpoint e))"
  using assms
proof (induction es arbitrary: result)
  case (Cons x es)
  obtain k e where x: "x = (k, e)" by fastforce
  then have "map_of es k = None" using Cons.prems by (auto simp: map_of_eq_None_iff)
  with Cons x show ?case
    by (auto simp: discovered_entries_Cons update_conv' simp del: discovered_entries.simps split: option.splits)
qed (simp split: option.splits)

context peer_writes
begin

lemma map_of_ranged: "distinct (map fst m) \<Longrightarrow> map_of (ranged C w m) k = map_of m k"
  using ranged_facts by (metis map_of_inject_set)

lemma map_of_discovered_nodes:
  "map_of (discovered_nodes C w result nodes) key =
     (case map_of result key of Some ep \<Rightarrow> Some ep | None \<Rightarrow> first_some (map (observed key) nodes))"
proof (induction nodes arbitrary: result)
  case (Cons node nodes)
  show ?case
  proof (cases "\<exists>raw entries. map_of (node_Annotations node) AnnotationDiscoveredEndpoints = Some raw \<and>
      unmarshal_entries raw = Some entries")
    case False
    then have "observed key node = None" by (auto simp: observed_def split: option.splits)
    with False Cons.IH show ?thesis by (auto split: option.splits)
  next
    case True
    then obtain raw entries where r: "map_of (node_Annotations node) AnnotationDiscoveredEndpoints = Some raw"
      "unmarshal_entries raw = Some entries" by blast
    then have "raw \<noteq> ''''" using unmarshal_empty by auto
    moreover have "distinct (map fst entries)" using r(2) by (rule unmarshal_distinct)
    moreover from this have "map_of (discovered_entries result (ranged C w entries)) key =
        (case map_of result key of Some ep \<Rightarrow> Some ep | None \<Rightarrow> observed key node)"
      using r map_of_ranged [of entries w key] by (simp add: map_of_discovered_entries ranged_facts observed_def split: option.split)
    ultimately show ?thesis using r Cons.IH by (auto split: option.splits)
  qed
qed (simp split: option.splits)

end

lemma first_some_SomeD: "first_some xs = Some x \<Longrightarrow> Some x \<in> set xs"
  by (induction xs rule: first_some.induct) auto

lemma observed_SomeD:
  "observed key node = Some ep \<Longrightarrow>
     \<exists>host port ip. ep = JoinHostPort host (Itoa port) \<and> ParseIP host = Some ip \<and> 0 < port \<and>
       \<not> IsLoopback ip \<and> \<not> IsLinkLocalUnicast ip"
  by (fastforce simp: observed_def entry_endpoint_def split: option.splits if_splits)

section \<open>Properties\<close>

text \<open>
  C20. The endpoint of a key is the first observation in the order of the nodes: \<^verbatim>\<open>DiscoveredEndpointsByKey\<close> maps a key
  to an endpoint exactly when some node has a usable entry for it, and then to that of the first such node, whatever
  the order in which the entries of a node are visited. A node whose annotation is missing, malformed JSON or of the wrong
  shape contributes nothing.
\<close>

theorem DiscoveredEndpointsByKey_first_wins:
  assumes "peer_writes (cc_Peers K) view" and "cc_ListNodes K w = (Inr nodes, w')"
  shows "\<exists>r. DiscoveredEndpointsByKey K w = (Inr r, w') \<and>
     (\<forall>key. map_of r key = first_some (map (observed key) nodes))"
  using assms by (simp add: DiscoveredEndpointsByKey_def peer_writes.map_of_discovered_nodes)

definition observing_node :: "string \<Rightarrow> string \<Rightarrow> Node" where
  "observing_node n raw = \<lparr>node_Name = n, node_Annotations = [(AnnotationDiscoveredEndpoints, raw)],
     node_PodCIDRs = [], node_Addresses = []\<rparr>"

definition nodes_client :: "Node list \<Rightarrow> peer_store cluster_client" where
  "nodes_client nodes = \<lparr>cc_Peers = mem_client, cc_ListNodes = (\<lambda>w. (Inr nodes, w))\<rparr>"

definition observing_nodes :: "Node list" where
  "observing_nodes =
     [observing_node ''n1'' ''not json'',
      observing_node ''n2'' ''{\"K1\": {\"IP\": \"127.0.0.1\", \"Port\": 51820}}'',
      observing_node ''n3'' ''{\"K1\": {\"IP\": \"2001:db8::7\", \"Port\": 40000}, \"K2\": {\"IP\": \"x\"}}'',
      observing_node ''n4'' ''{\"K1\": {\"IP\": \"203.0.113.9\", \"Port\": 51820}}'']"

lemma observing_run:
  "DiscoveredEndpointsByKey (nodes_client observing_nodes) [] = (Inr [(''K1'', ''[2001:db8::7]:40000'')], [])"
  by code_simp

theorem DiscoveredEndpointsByKey_first_wins_witness:
  "first_some (map (observed ''K1'') observing_nodes) = Some ''[2001:db8::7]:40000''"
proof -
  have "peer_writes (cc_Peers (nodes_client observing_nodes)) mem_view"
    by (simp add: nodes_client_def mem.peer_writes_axioms)
  from DiscoveredEndpointsByKey_first_wins [OF this, of "[]" observing_nodes "[]"]
  have "\<forall>key. map_of [(''K1'', ''[2001:db8::7]:40000'')] key = first_some (map (observed key) observing_nodes)"
    unfolding observing_run by (auto simp: nodes_client_def)
  from spec [OF this, of "''K1''"] show ?thesis by simp
qed

text \<open>
  Discovered endpoints are well formed: each one joins an address that parses and a positive port, and the address
  is neither a loopback nor a link-local unicast address.
\<close>

theorem DiscoveredEndpointsByKey_usable:
  assumes "peer_writes (cc_Peers K) view" and "DiscoveredEndpointsByKey K w = (Inr r, w')"
    and "map_of r key = Some ep"
  shows "\<exists>host port ip. ep = JoinHostPort host (Itoa port) \<and> ParseIP host = Some ip \<and> 0 < port \<and>
     \<not> IsLoopback ip \<and> \<not> IsLinkLocalUnicast ip"
proof -
  obtain nodes where "cc_ListNodes K w = (Inr nodes, w')" "r = discovered_nodes (cc_Peers K) w' [] nodes"
    using assms(2) by (auto simp: DiscoveredEndpointsByKey_def split: prod.splits sum.splits)
  then have "first_some (map (observed key) nodes) = Some ep"
    using assms(1,3) by (simp add: peer_writes.map_of_discovered_nodes)
  then have "Some ep \<in> set (map (observed key) nodes)" by (rule first_some_SomeD)
  then obtain n where "observed key n = Some ep" by auto
  then show ?thesis by (rule observed_SomeD)
qed

theorem DiscoveredEndpointsByKey_usable_witness:
  "\<exists>host port ip. ''[2001:db8::7]:40000'' = JoinHostPort host (Itoa port) \<and> ParseIP host = Some ip \<and> 0 < port \<and>
     \<not> IsLoopback ip \<and> \<not> IsLinkLocalUnicast ip"
proof (rule DiscoveredEndpointsByKey_usable [OF _ observing_run])
  show "peer_writes (cc_Peers (nodes_client observing_nodes)) mem_view"
    by (simp add: nodes_client_def mem.peer_writes_axioms)
qed simp

end
