(* ===== verification/RestMapper.thy ===== *)
theory RestMapper
  imports PeerClient
begin

text \<open>
  \<^verbatim>\<open>internal/multicluster/mapper.go\<close>: a REST mapper that can be reset while other goroutines look kinds up in it, and
  \<^verbatim>\<open>internal/restart/trigger.go\<close>: the reset of a mapper after a NoKindMatch error. The operations are first given as
  functions of one goroutine; a step relation then interleaves the goroutines that share one mapper.
\<close>

section \<open>The resettable mapper\<close>

record GroupVersionResource =
  gvr_Group :: string
  gvr_Version :: string
  gvr_Resource :: string

record GroupKind =
  gk_Group :: string
  gk_Kind :: string

text \<open>The methods of \<^verbatim>\<open>meta.RESTMapper\<close> with their arguments.\<close>

datatype mapper_query =
    QKindFor GroupVersionResource
  | QKindsFor GroupVersionResource
  | QResourceFor GroupVersionResource
  | QResourcesFor GroupVersionResource
  | QRESTMapping GroupKind "string list"
  | QRESTMappings GroupKind "string list"
  | QResourceSingularizer string

text \<open>The object: \<open>'c\<close> are configurations, \<open>'h\<close> HTTP clients, \<open>'m\<close> the mappers of controller-runtime.\<close>

record ('c, 'h, 'm) resettableDynamicMapper =
  rm_cfg :: 'c
  rm_httpClient :: 'h
  rm_mapper :: 'm

text \<open>
  What the code uses: constructing a dynamic mapper, calling one (which may discover kinds, hence the world, and answers with
  some \<open>'a\<close>), and the memory of the object: allocating it, reading it and writing its field \<^verbatim>\<open>mapper\<close> under the lock.
\<close>

record ('w, 'c, 'h, 'm, 'a) mapper_lib =
  ml_NewDynamicRESTMapper :: "'c \<Rightarrow> 'h \<Rightarrow> 'w \<Rightarrow> (error + 'm) \<times> 'w"
  ml_call :: "'m \<Rightarrow> mapper_query \<Rightarrow> 'w \<Rightarrow> (error + 'a) \<times> 'w"
  ml_new :: "('c, 'h, 'm) resettableDynamicMapper \<Rightarrow> 'w \<Rightarrow> nat \<times> 'w"
  ml_load :: "nat \<Rightarrow> 'w \<Rightarrow> ('c, 'h, 'm) resettableDynamicMapper"
  ml_set_mapper :: "nat \<Rightarrow> 'm \<Rightarrow> 'w \<Rightarrow> 'w"

definition newResettableDynamicMapper ::
  "('w, 'c, 'h, 'm, 'a) mapper_lib \<Rightarrow> 'c \<Rightarrow> 'h \<Rightarrow> 'w \<Rightarrow> (error + nat) \<times> 'w" where
  "newResettableDynamicMapper L cfg httpClient w =
     (case ml_NewDynamicRESTMapper L cfg httpClient w of
        (Inl err, w) \<Rightarrow> (Inl (Wrapf err ''building dynamic REST mapper'' []), w)
      | (Inr m, w) \<Rightarrow>
          (case ml_new L \<lparr>rm_cfg = cfg, rm_httpClient = httpClient, rm_mapper = m\<rparr> w of (r, w) \<Rightarrow> (Inr r, w)))"

definition mapper_Reset :: "('w, 'c, 'h, 'm, 'a) mapper_lib \<Rightarrow> nat \<Rightarrow> 'w \<Rightarrow> 'w" where
  "mapper_Reset L r w =
     (case ml_NewDynamicRESTMapper L (rm_cfg (ml_load L r w)) (rm_httpClient (ml_load L r w)) w of
        (Inl err, w) \<Rightarrow> w
      | (Inr fresh, w) \<Rightarrow> ml_set_mapper L r fresh w)"

definition mapper_current :: "('w, 'c, 'h, 'm, 'a) mapper_lib \<Rightarrow> nat \<Rightarrow> 'w \<Rightarrow> 'm" where
  "mapper_current L r w = rm_mapper (ml_load L r w)"

definition KindFor :: "('w, 'c, 'h, 'm, 'a) mapper_lib \<Rightarrow> nat \<Rightarrow> GroupVersionResource \<Rightarrow> 'w \<Rightarrow> (error + 'a) \<times> 'w" where
  "KindFor L r input w = ml_call L (mapper_current L r w) (QKindFor input) w"

definition KindsFor :: "('w, 'c, 'h, 'm, 'a) mapper_lib \<Rightarrow> nat \<Rightarrow> GroupVersionResource \<Rightarrow> 'w \<Rightarrow> (error + 'a) \<times> 'w" where
  "KindsFor L r input w = ml_call L (mapper_current L r w) (QKindsFor input) w"

definition ResourceFor :: "('w, 'c, 'h, 'm, 'a) mapper_lib \<Rightarrow> nat \<Rightarrow> GroupVersionResource \<Rightarrow> 'w \<Rightarrow> (error + 'a) \<times> 'w" where
  "ResourceFor L r input w = ml_call L (mapper_current L r w) (QResourceFor input) w"

definition ResourcesFor :: "('w, 'c, 'h, 'm, 'a) mapper_lib \<Rightarrow> nat \<Rightarrow> GroupVersionResource \<Rightarrow> 'w \<Rightarrow> (error + 'a) \<times> 'w" where
  "ResourcesFor L r input w = ml_call L (mapper_current L r w) (QResourcesFor input) w"

definition RESTMapping ::
  "('w, 'c, 'h, 'm, 'a) mapper_lib \<Rightarrow> nat \<Rightarrow> GroupKind \<Rightarrow> string list \<Rightarrow> 'w \<Rightarrow> (error + 'a) \<times> 'w" where
  "RESTMapping L r gk versions w = ml_call L (mapper_current L r w) (QRESTMapping gk versions) w"

definition RESTMappings ::
  "('w, 'c, 'h, 'm, 'a) mapper_lib \<Rightarrow> nat \<Rightarrow> GroupKind \<Rightarrow> string list \<Rightarrow> 'w \<Rightarrow> (error + 'a) \<times> 'w" where
  "RESTMappings L r gk versions w = ml_call L (mapper_current L r w) (QRESTMappings gk versions) w"

definition ResourceSingularizer :: "('w, 'c, 'h, 'm, 'a) mapper_lib \<Rightarrow> nat \<Rightarrow> string \<Rightarrow> 'w \<Rightarrow> (error + 'a) \<times> 'w" where
  "ResourceSingularizer L r resource w = ml_call L (mapper_current L r w) (QResourceSingularizer resource) w"

section \<open>The reset after a NoKindMatch error\<close>

text \<open>A REST mapper that can be reset, by what the reset does to the world, or one that cannot.\<close>

datatype 'w rest_mapper = Resettable "'w \<Rightarrow> 'w" | NotResettable

text \<open>\<^verbatim>\<open>errors.As\<close> for a NoKindMatchError: it looks through wrapped and joined errors.\<close>

fun is_no_match :: "error \<Rightarrow> bool" where
  "is_no_match (APIError r) = (r = NoKindMatch)"
| "is_no_match (Wrapf e _ _) = is_no_match e"
| "is_no_match (JoinErr es) = list_ex is_no_match es"
| "is_no_match (Newf _ _) = False"
| "is_no_match (StdErr _ _) = False"

definition RefreshMapperOnNoMatch :: "error option \<Rightarrow> 'w rest_mapper option \<Rightarrow> 'w \<Rightarrow> bool \<times> 'w" where
  "RefreshMapperOnNoMatch err mapper w =
     (case err of
        None \<Rightarrow> (False, w)
      | Some e \<Rightarrow>
          (case mapper of
             None \<Rightarrow> (False, w)
           | Some m \<Rightarrow>
               (if \<not> is_no_match e then (False, w)
                else case m of
                  NotResettable \<Rightarrow> (False, w)
                | Resettable reset \<Rightarrow> (True, reset w))))"

section \<open>Goroutines that share a mapper\<close>

text \<open>
  A goroutine is outside the mapper, or has built a fresh mapper and not yet taken the lock of \<^verbatim>\<open>Reset\<close>, or has left
  \<^verbatim>\<open>current()\<close> with a mapper and not yet called it. The two critical sections are single steps, since both run under the lock.
\<close>

datatype 'm mapper_pc = Outside | Built 'm | Holding mapper_query 'm

datatype ('m, 'a) mapper_event =
    EBuild nat 'm
  | EBuildFailed nat
  | ESwap nat 'm
  | ERead nat mapper_query 'm
  | EAnswer nat mapper_query 'm "error + 'a"

type_synonym ('m, 'w) mapper_state = "(nat \<Rightarrow> 'm mapper_pc) \<times> 'w"

inductive mapper_step ::
  "('w, 'c, 'h, 'm, 'a) mapper_lib \<Rightarrow> nat \<Rightarrow> ('m, 'w) mapper_state \<Rightarrow> ('m, 'a) mapper_event \<Rightarrow> ('m, 'w) mapper_state \<Rightarrow> bool"
  for L r where
  build: "pcs t = Outside \<Longrightarrow>
     ml_NewDynamicRESTMapper L (rm_cfg (ml_load L r w)) (rm_httpClient (ml_load L r w)) w = (Inr fresh, w') \<Longrightarrow>
     mapper_step L r (pcs, w) (EBuild t fresh) (pcs(t := Built fresh), w')"
| build_failed: "pcs t = Outside \<Longrightarrow>
     ml_NewDynamicRESTMapper L (rm_cfg (ml_load L r w)) (rm_httpClient (ml_load L r w)) w = (Inl err, w') \<Longrightarrow>
     mapper_step L r (pcs, w) (EBuildFailed t) (pcs, w')"
| swap: "pcs t = Built fresh \<Longrightarrow>
     mapper_step L r (pcs, w) (ESwap t fresh) (pcs(t := Outside), ml_set_mapper L r fresh w)"
| read: "pcs t = Outside \<Longrightarrow>
     mapper_step L r (pcs, w) (ERead t q (mapper_current L r w)) (pcs(t := Holding q (mapper_current L r w)), w)"
| answer: "pcs t = Holding q m \<Longrightarrow> ml_call L m q w = (ans, w') \<Longrightarrow>
     mapper_step L r (pcs, w) (EAnswer t q m ans) (pcs(t := Outside), w')"

inductive mapper_run ::
  "('w, 'c, 'h, 'm, 'a) mapper_lib \<Rightarrow> nat \<Rightarrow> ('m, 'w) mapper_state \<Rightarrow> ('m, 'a) mapper_event list \<Rightarrow> ('m, 'w) mapper_state \<Rightarrow> bool"
  for L r where
  run_nil: "mapper_run L r s [] s"
| run_snoc: "mapper_run L r s es s' \<Longrightarrow> mapper_step L r s' e s'' \<Longrightarrow> mapper_run L r s (es @ [e]) s''"

inductive_cases mapper_stepE: "mapper_step L r s e s'"
inductive_simps mapper_step_answer: "mapper_step L r (pcs, w) (EAnswer t q m ans) s'"
  and mapper_step_read: "mapper_step L r (pcs, w) (ERead t q m) s'"
  and mapper_step_swap: "mapper_step L r (pcs, w) (ESwap t m) s'"
  and mapper_step_build: "mapper_step L r (pcs, w) (EBuild t m) s'"

text \<open>The goroutine of an event, and the mapper installed after a sequence of events.\<close>

fun event_thread :: "('m, 'a) mapper_event \<Rightarrow> nat" where
  "event_thread (EBuild t m) = t"
| "event_thread (EBuildFailed t) = t"
| "event_thread (ESwap t m) = t"
| "event_thread (ERead t q m) = t"
| "event_thread (EAnswer t q m ans) = t"

fun installs :: "'m \<Rightarrow> ('m, 'a) mapper_event \<Rightarrow> 'm" where
  "installs m (ESwap t fresh) = fresh"
| "installs m e = m"

definition installed :: "'m \<Rightarrow> ('m, 'a) mapper_event list \<Rightarrow> 'm" where
  "installed m es = foldl installs m es"

lemma installed_simps [simp]: "installed m [] = m" "installed m (es @ [e]) = installs (installed m es) e"
  by (simp_all add: installed_def)

text \<open>What holds of every reachable state, for a mapper object made of \<open>cfg\<close>, \<open>h\<close> and \<open>m0\<close>.\<close>

definition made :: "('w, 'c, 'h, 'm, 'a) mapper_lib \<Rightarrow> 'c \<Rightarrow> 'h \<Rightarrow> 'm \<Rightarrow> bool" where
  "made L cfg h m \<longleftrightarrow> (\<exists>w w'. ml_NewDynamicRESTMapper L cfg h w = (Inr m, w'))"

definition read_by :: "'m \<Rightarrow> ('m, 'a) mapper_event list \<Rightarrow> nat \<Rightarrow> mapper_query \<Rightarrow> 'm \<Rightarrow> bool" where
  "read_by m0 es t q m \<longleftrightarrow>
     (\<exists>es1 es2. es = es1 @ ERead t q m # es2 \<and> installed m0 es1 = m \<and> t \<notin> event_thread ` set es2)"

definition pc_ok ::
  "('w, 'c, 'h, 'm, 'a) mapper_lib \<Rightarrow> 'c \<Rightarrow> 'h \<Rightarrow> 'm \<Rightarrow> ('m, 'a) mapper_event list \<Rightarrow> nat \<Rightarrow> 'm mapper_pc \<Rightarrow> bool" where
  "pc_ok L cfg h m0 es t pc \<longleftrightarrow>
     (case pc of
        Outside \<Rightarrow> True
      | Built m \<Rightarrow> made L cfg h m
      | Holding q m \<Rightarrow> made L cfg h m \<and> read_by m0 es t q m)"

definition state_ok ::
  "('w, 'c, 'h, 'm, 'a) mapper_lib \<Rightarrow> nat \<Rightarrow> 'c \<Rightarrow> 'h \<Rightarrow> 'm \<Rightarrow> ('m, 'a) mapper_event list \<Rightarrow> ('m, 'w) mapper_state \<Rightarrow> bool" where
  "state_ok L r cfg h m0 es s \<longleftrightarrow>
     ml_load L r (snd s) = \<lparr>rm_cfg = cfg, rm_httpClient = h, rm_mapper = installed m0 es\<rparr> \<and>
     made L cfg h (installed m0 es) \<and> (\<forall>t. pc_ok L cfg h m0 es t (fst s t))"

lemma read_by_snoc: "read_by m0 es t q m \<Longrightarrow> event_thread e \<noteq> t \<Longrightarrow> read_by m0 (es @ [e]) t q m"
  unfolding read_by_def by force

lemma read_by_now: "read_by m0 (es @ [ERead t q (installed m0 es)]) t q (installed m0 es)"
  unfolding read_by_def by (rule exI [of _ es]) simp

section \<open>The memory of the object\<close>

text \<open>Only \<open>ml_set_mapper\<close> writes a mapper object, and only its field \<^verbatim>\<open>mapper\<close>.\<close>

locale mapper_memory =
  fixes L :: "('w, 'c, 'h, 'm, 'a) mapper_lib"
  assumes new_load: "ml_new L obj w = (r, w') \<Longrightarrow> ml_load L r w' = obj"
    and set_load: "ml_load L r' (ml_set_mapper L r m w) = (if r' = r then (ml_load L r w)\<lparr>rm_mapper := m\<rparr> else ml_load L r' w)"
    and build_load: "ml_NewDynamicRESTMapper L cfg h w = (x, w') \<Longrightarrow> ml_load L r w' = ml_load L r w"
    and call_load: "ml_call L m q w = (ans, w') \<Longrightarrow> ml_load L r w' = ml_load L r w"
begin

lemma pc_ok_snoc: "pc_ok L cfg h m0 es t pc \<Longrightarrow> event_thread e \<noteq> t \<Longrightarrow> pc_ok L cfg h m0 (es @ [e]) t pc"
  by (cases pc) (simp_all add: pc_ok_def read_by_snoc)

lemma pc_ok_read:
  "made L cfg h (installed m0 es) \<Longrightarrow> pc_ok L cfg h m0 (es @ [ERead t q (installed m0 es)]) t (Holding q (installed m0 es))"
  by (simp add: pc_ok_def read_by_now)

lemma state_ok_step:
  assumes "state_ok L r cfg h m0 es (pcs, w)" "mapper_step L r (pcs, w) e (pcs', w')"
  shows "state_ok L r cfg h m0 (es @ [e]) (pcs', w')"
proof -
  have load: "ml_load L r w = \<lparr>rm_cfg = cfg, rm_httpClient = h, rm_mapper = installed m0 es\<rparr>"
    and m: "made L cfg h (installed m0 es)" and pc: "\<And>t. pc_ok L cfg h m0 es t (pcs t)"
    using assms(1) by (simp_all add: state_ok_def)
  have others: "pc_ok L cfg h m0 (es @ [e]) t (pcs t)" if "event_thread e \<noteq> t" for t
    by (rule pc_ok_snoc [OF pc that])
  have out: "pc_ok L cfg h m0 xs t Outside" for xs t by (simp add: pc_ok_def)
  have all: "pc_ok L cfg h m0 (es @ [e]) t (pcs' t)" if "pcs' = pcs(event_thread e := p)" "pc_ok L cfg h m0 (es @ [e]) (event_thread e) p" for t p
    using that others by simp
  from assms(2) show ?thesis
  proof cases
    case (build t fresh)
    then have "made L cfg h fresh" using load by (auto simp: made_def)
    with build load m build_load [OF build(4)] all [of "Built fresh"] show ?thesis by (simp add: state_ok_def pc_ok_def)
  next
    case (build_failed t err)
    then have "pcs' = pcs(event_thread e := Outside)" by (simp add: fun_upd_idem)
    with all [OF this out] build_failed load m build_load [OF build_failed(4)] show ?thesis by (simp add: state_ok_def)
  next
    case (swap t fresh)
    then have "made L cfg h fresh" using pc [of t] by (simp add: pc_ok_def)
    with swap load all [OF _ out] show ?thesis by (simp add: state_ok_def set_load)
  next
    case (read t q)
    have c: "mapper_current L r w = installed m0 es" by (simp add: mapper_current_def load)
    have "pc_ok L cfg h m0 (es @ [e]) t' (pcs' t')" for t'
      using all [of "Holding q (installed m0 es)" t'] read pc_ok_read [OF m, of t q] by (simp add: c)
    with read load m show ?thesis by (simp add: state_ok_def)
  next
    case (answer t q m1 ans)
    with load m all [OF _ out] call_load [OF answer(4)] show ?thesis by (simp add: state_ok_def)
  qed
qed

lemma state_ok_run: "mapper_run L r s es s' \<Longrightarrow> state_ok L r cfg h m0 [] s \<Longrightarrow> state_ok L r cfg h m0 es s'"
proof (induction rule: mapper_run.induct)
  case (run_snoc s es s' e s'')
  then show ?case using state_ok_step [of r cfg h m0 es "fst s'" "snd s'" e "fst s''" "snd s''"] by simp
qed

lemma new_state_ok:
  assumes "newResettableDynamicMapper L cfg h w = (Inr r, w1)"
  shows "state_ok L r cfg h (mapper_current L r w1) [] (\<lambda>_. Outside, w1)"
proof -
  obtain m w0 where m: "ml_NewDynamicRESTMapper L cfg h w = (Inr m, w0)"
    "ml_new L \<lparr>rm_cfg = cfg, rm_httpClient = h, rm_mapper = m\<rparr> w0 = (r, w1)"
    using assms by (auto simp: newResettableDynamicMapper_def split: sum.splits prod.splits)
  have "ml_load L r w1 = \<lparr>rm_cfg = cfg, rm_httpClient = h, rm_mapper = m\<rparr>" by (rule new_load [OF m(2)])
  with m(1) show ?thesis by (auto simp: state_ok_def mapper_current_def pc_ok_def made_def)
qed

text \<open>\<^verbatim>\<open>Reset\<close> of a goroutine that is not interrupted is a build followed by a swap, or a failed build.\<close>

lemma Reset_steps:
  "\<exists>es. mapper_run L r (\<lambda>_. Outside, w) es (\<lambda>_. Outside, mapper_Reset L r w)"
proof -
  let ?o = "ml_load L r w" and ?pcs = "\<lambda>_. Outside :: 'm mapper_pc"
  obtain x w' where b: "ml_NewDynamicRESTMapper L (rm_cfg ?o) (rm_httpClient ?o) w = (x, w')" by fastforce
  show ?thesis
  proof (cases x)
    case (Inl err)
    with b have "mapper_step L r (?pcs, w) (EBuildFailed 0) (?pcs, w')" by (intro mapper_step.build_failed) auto
    from mapper_run.run_snoc [OF mapper_run.run_nil this] b Inl show ?thesis by (auto simp: mapper_Reset_def)
  next
    case (Inr fresh)
    with b have "mapper_step L r (?pcs, w) (EBuild 0 fresh) (?pcs(0 := Built fresh), w')" by (intro mapper_step.build) auto
    note built = mapper_run.run_snoc [OF mapper_run.run_nil this]
    have "mapper_step L r (?pcs(0 := Built fresh), w') (ESwap 0 fresh) (?pcs(0 := Built fresh, 0 := Outside), ml_set_mapper L r fresh w')"
      by (rule mapper_step.swap) simp
    from mapper_run.run_snoc [OF built this] have "\<exists>es. mapper_run L r (?pcs, w) es (?pcs, ml_set_mapper L r fresh w')"
      by (auto simp: fun_upd_idem)
    with b Inr show ?thesis by (auto simp: mapper_Reset_def)
  qed
qed

lemma Reset_current:
  "mapper_current L r' (mapper_Reset L r w) =
     (if r' = r then
        (case fst (ml_NewDynamicRESTMapper L (rm_cfg (ml_load L r w)) (rm_httpClient (ml_load L r w)) w) of
           Inl _ \<Rightarrow> mapper_current L r w
         | Inr fresh \<Rightarrow> fresh)
      else mapper_current L r' w)"
proof -
  obtain x w' where x: "ml_NewDynamicRESTMapper L (rm_cfg (ml_load L r w)) (rm_httpClient (ml_load L r w)) w = (x, w')" by fastforce
  show ?thesis using build_load [OF x] by (cases x) (simp_all add: mapper_Reset_def mapper_current_def x set_load)
qed

end

lemma mapper_run_split:
  "mapper_run L r s (es1 @ e # es2) s' \<Longrightarrow> \<exists>s1 s2. mapper_run L r s es1 s1 \<and> mapper_step L r s1 e s2"
proof (induction es2 arbitrary: s' rule: rev_induct)
  case Nil
  then show ?case by (cases rule: mapper_run.cases) (simp_all del: split_paired_Ex, blast)
next
  case (snoc x es2)
  from snoc.prems obtain s2 where "mapper_run L r s (es1 @ e # es2) s2"
    by (cases rule: mapper_run.cases) (auto simp flip: append_assoc append_Cons)
  then show ?case by (rule snoc.IH)
qed

section \<open>Mappers in memory\<close>

text \<open>
  Mappers are numbers. Each remembers the kinds it did not find, as the mapper of controller-runtime does; \<open>mp_kinds\<close> are the
  kinds the API server serves, and one configuration is bad.
\<close>

type_synonym mem_mapper = "(string, unit, nat) resettableDynamicMapper"

record map_world =
  mp_next :: nat
  mp_cells :: "(nat \<times> mem_mapper) list"
  mp_kinds :: "string list"
  mp_missed :: "(nat \<times> string) list"

fun query_key :: "mapper_query \<Rightarrow> string" where
  "query_key (QKindFor g) = gvr_Resource g"
| "query_key (QKindsFor g) = gvr_Resource g"
| "query_key (QResourceFor g) = gvr_Resource g"
| "query_key (QResourcesFor g) = gvr_Resource g"
| "query_key (QRESTMapping gk _) = gk_Kind gk"
| "query_key (QRESTMappings gk _) = gk_Kind gk"
| "query_key (QResourceSingularizer s) = s"

definition mem_load :: "nat \<Rightarrow> map_world \<Rightarrow> mem_mapper" where
  "mem_load r w = (case map_of (mp_cells w) r of None \<Rightarrow> \<lparr>rm_cfg = '''', rm_httpClient = (), rm_mapper = 0\<rparr> | Some obj \<Rightarrow> obj)"

definition mem_mapper_lib :: "(map_world, string, unit, nat, string) mapper_lib" where
  "mem_mapper_lib = \<lparr>
     ml_NewDynamicRESTMapper = (\<lambda>cfg h w.
       if cfg = ''bad'' then (Inl (StdErr ''bad config'' []), w) else (Inr (mp_next w), w\<lparr>mp_next := Suc (mp_next w)\<rparr>)),
     ml_call = (\<lambda>m q w.
       if (m, query_key q) \<in> set (mp_missed w) then (Inl (APIError NoKindMatch), w)
       else if query_key q \<in> set (mp_kinds w) then (Inr (query_key q), w)
       else (Inl (APIError NoKindMatch), w\<lparr>mp_missed := (m, query_key q) # mp_missed w\<rparr>)),
     ml_new = (\<lambda>obj w. (mp_next w, w\<lparr>mp_next := Suc (mp_next w), mp_cells := (mp_next w, obj) # mp_cells w\<rparr>)),
     ml_load = mem_load,
     ml_set_mapper = (\<lambda>r m w. w\<lparr>mp_cells := (r, (mem_load r w)\<lparr>rm_mapper := m\<rparr>) # mp_cells w\<rparr>)\<rparr>"

interpretation mm: mapper_memory mem_mapper_lib
  by unfold_locales (auto simp: mem_mapper_lib_def mem_load_def split: if_splits)

section \<open>Properties\<close>

text \<open>
  C36. Lookups and resets of one mapper are atomic towards each other: however the goroutines interleave, a lookup is answered by one
  mapper that was the installed one at a moment between the start and the end of that lookup, and that was built
  without an error from the configuration of the cluster.
\<close>

theorem mapper_lookups_atomic:
  assumes "mapper_memory L" and "newResettableDynamicMapper L cfg h w = (Inr r, w1)"
    and "mapper_run L r (\<lambda>_. Outside, w1) (es @ EAnswer t q m ans # es') s"
  shows "(\<exists>v v'. ml_NewDynamicRESTMapper L cfg h v = (Inr m, v')) \<and>
     (\<exists>es1 es2. es = es1 @ ERead t q m # es2 \<and> installed (mapper_current L r w1) es1 = m \<and> t \<notin> event_thread ` set es2) \<and>
     (\<exists>v v'. ml_call L m q v = (ans, v'))"
proof -
  obtain s1 s2 where run: "mapper_run L r (\<lambda>_. Outside, w1) es s1" and step: "mapper_step L r s1 (EAnswer t q m ans) s2"
    using mapper_run_split [OF assms(3)] by blast
  have ok: "state_ok L r cfg h (mapper_current L r w1) es s1"
    by (rule mapper_memory.state_ok_run [OF assms(1) run mapper_memory.new_state_ok [OF assms(1,2)]])
  from step obtain v v' where pc: "fst s1 t = Holding q m" and call: "ml_call L m q v = (ans, v')" by cases auto
  from ok have "pc_ok L cfg h (mapper_current L r w1) es t (Holding q m)" by (metis pc state_ok_def)
  with call show ?thesis by (auto simp: pc_ok_def made_def read_by_def)
qed

definition mp0 :: map_world where
  "mp0 = \<lparr>mp_next = 1, mp_cells = [], mp_kinds = [''peers''], mp_missed = []\<rparr>"

text \<open>Goroutine 1 has left \<^verbatim>\<open>current()\<close> when goroutine 2 swaps the mapper: the answer is that of the old mapper.\<close>

theorem mapper_lookups_atomic_witness:
  "\<exists>w1 s. newResettableDynamicMapper mem_mapper_lib ''cfg'' () mp0 = (Inr 2, w1) \<and>
     mapper_run mem_mapper_lib 2 (\<lambda>_. Outside, w1)
       ([EBuild 2 3, ERead 1 (QResourceSingularizer ''peers'') 1, ESwap 2 3] @
        EAnswer 1 (QResourceSingularizer ''peers'') 1 (Inr ''peers'') # []) s \<and>
     (\<exists>v v'. ml_NewDynamicRESTMapper mem_mapper_lib ''cfg'' () v = (Inr 1, v'))"
proof -
  let ?L = mem_mapper_lib and ?q = "QResourceSingularizer ''peers''" and ?o = "\<lparr>rm_cfg = ''cfg'', rm_httpClient = (), rm_mapper = 1\<rparr>"
  let ?w1 = "mp0\<lparr>mp_next := 3, mp_cells := [(2, ?o)]\<rparr>"
  let ?w2 = "?w1\<lparr>mp_next := 4\<rparr>"
  let ?w3 = "?w2\<lparr>mp_cells := [(2, ?o\<lparr>rm_mapper := 3\<rparr>), (2, ?o)]\<rparr>"
  let ?p0 = "\<lambda>_. Outside :: nat mapper_pc"
  note mem = mem_mapper_lib_def mem_load_def mp0_def mapper_current_def
  have n: "newResettableDynamicMapper ?L ''cfg'' () mp0 = (Inr 2, ?w1)" by (simp add: newResettableDynamicMapper_def mem)
  have s1: "mapper_step ?L 2 (?p0, ?w1) (EBuild 2 3) (?p0(2 := Built 3), ?w2)" by (rule mapper_step.build) (simp_all add: mem)
  have s2: "mapper_step ?L 2 (?p0(2 := Built 3), ?w2) (ERead 1 ?q 1) (?p0(2 := Built 3, 1 := Holding ?q 1), ?w2)"
    by (simp add: mapper_step_read mem)
  have s3: "mapper_step ?L 2 (?p0(2 := Built 3, 1 := Holding ?q 1), ?w2) (ESwap 2 3) (?p0(2 := Built 3, 1 := Holding ?q 1, 2 := Outside), ?w3)"
    by (simp add: mapper_step_swap mem)
  have s4: "mapper_step ?L 2 (?p0(2 := Built 3, 1 := Holding ?q 1, 2 := Outside), ?w3) (EAnswer 1 ?q 1 (Inr ''peers''))
      (?p0(2 := Built 3, 1 := Holding ?q 1, 2 := Outside, 1 := Outside), ?w3)"
    by (simp add: mapper_step_answer mem)
  note run = mapper_run.run_snoc [OF mapper_run.run_snoc [OF mapper_run.run_snoc [OF mapper_run.run_snoc [OF mapper_run.run_nil s1] s2] s3] s4]
  have r: "mapper_run ?L 2 (?p0, ?w1) ([EBuild 2 3, ERead 1 ?q 1, ESwap 2 3] @ EAnswer 1 ?q 1 (Inr ''peers'') # [])
      (?p0(2 := Built 3, 1 := Holding ?q 1, 2 := Outside, 1 := Outside), ?w3)" using run by simp
  from mapper_lookups_atomic [OF mm.mapper_memory_axioms n r] n r show ?thesis by blast
qed

end
