(* ===== verification/Startup.thy ===== *)
theory Startup
  imports MeshTypes
begin

text \<open>
  The logic of \<^verbatim>\<open>cmd/main.go\<close>: the namespace of the operator and the merge of the cluster entries of every
  ClusterMesh into the entries the cluster registry is built from.
\<close>

section \<open>Operations\<close>

definition podNamespaceEnv :: string where
  "podNamespaceEnv = ''POD_NAMESPACE''"

text \<open>\<^verbatim>\<open>os.Getenv\<close> of the process environment; an unset variable reads as the empty string.\<close>

definition readNamespace :: "str_map \<Rightarrow> error + string" where
  "readNamespace env =
     (let ns = map_get env podNamespaceEnv
      in if ns = '''' then Inl (Newf ''%s environment variable is required'' [podNamespaceEnv]) else Inr ns)"

record EntrySource =
  es_Entry :: ClusterEntry
  es_MeshNamespace :: string

text \<open>The two nested loops thread the set \<^verbatim>\<open>seen\<close>, whose keys are the first component.\<close>

fun merge_mesh :: "string list \<Rightarrow> string \<Rightarrow> ClusterEntry list \<Rightarrow> string list \<times> EntrySource list" where
  "merge_mesh seen namespace [] = (seen, [])"
| "merge_mesh seen namespace (entry # rest) =
     (if entry_Name entry \<in> set seen then merge_mesh seen namespace rest
      else case merge_mesh (entry_Name entry # seen) namespace rest of
        (seen, entries) \<Rightarrow> (seen, \<lparr>es_Entry = entry, es_MeshNamespace = namespace\<rparr> # entries))"

fun merge_meshes :: "string list \<Rightarrow> ClusterMesh list \<Rightarrow> EntrySource list" where
  "merge_meshes seen [] = []"
| "merge_meshes seen (mesh # meshes) =
     (case merge_mesh seen (mesh_Namespace mesh) (mesh_Clusters mesh) of
        (seen, entries) \<Rightarrow> entries @ merge_meshes seen meshes)"

definition mergeClusterEntries :: "ClusterMesh list \<Rightarrow> EntrySource list" where
  "mergeClusterEntries meshes = merge_meshes [] meshes"

section \<open>Facts\<close>

text \<open>All entries in order, each tagged with the namespace of its mesh.\<close>

definition tagged :: "ClusterMesh \<Rightarrow> EntrySource list" where
  "tagged mesh = map (\<lambda>e. \<lparr>es_Entry = e, es_MeshNamespace = mesh_Namespace mesh\<rparr>) (mesh_Clusters mesh)"

abbreviation source_name :: "EntrySource \<Rightarrow> string" where
  "source_name x \<equiv> entry_Name (es_Entry x)"

text \<open>Keep the first element of each name, none whose name was seen before.\<close>

fun first_by_name :: "string set \<Rightarrow> EntrySource list \<Rightarrow> EntrySource list" where
  "first_by_name seen [] = []"
| "first_by_name seen (x # xs) =
     (if source_name x \<in> seen then first_by_name seen xs
      else x # first_by_name (insert (source_name x) seen) xs)"

lemma first_by_name_append:
  "first_by_name seen (xs @ ys) =
     first_by_name seen xs @ first_by_name (seen \<union> source_name ` set xs) ys"
proof (induction xs arbitrary: seen)
  case (Cons x xs)
  have "seen \<union> source_name ` set (x # xs) = insert (source_name x) seen \<union> source_name ` set xs" by auto
  then show ?case using Cons.IH by (simp add: insert_absorb)
qed simp

lemma merge_mesh_eq:
  "merge_mesh seen ns es = (seen', out) \<Longrightarrow>
     set seen' = set seen \<union> entry_Name ` set es \<and>
     out = first_by_name (set seen) (map (\<lambda>e. \<lparr>es_Entry = e, es_MeshNamespace = ns\<rparr>) es)"
proof (induction seen ns es arbitrary: seen' out rule: merge_mesh.induct)
  case (2 seen ns e es)
  show ?case
  proof (cases "entry_Name e \<in> set seen")
    case True
    with 2(1) [OF True] 2(3) show ?thesis by (simp add: insert_absorb)
  next
    case False
    obtain s' o' where m: "merge_mesh (entry_Name e # seen) ns es = (s', o')" by fastforce
    with 2(3) False have out: "seen' = s'" "out = \<lparr>es_Entry = e, es_MeshNamespace = ns\<rparr> # o'" by auto
    show ?thesis unfolding out using 2(2) [OF False m] False by simp
  qed
qed simp

lemma merge_meshes_eq: "merge_meshes seen meshes = first_by_name (set seen) (concat (map tagged meshes))"
proof (induction seen meshes rule: merge_meshes.induct)
  case (2 seen mesh meshes)
  obtain seen' out where m: "merge_mesh seen (mesh_Namespace mesh) (mesh_Clusters mesh) = (seen', out)" by fastforce
  have "set seen' = set seen \<union> source_name ` set (tagged mesh)"
    using merge_mesh_eq [OF m] by (auto simp: tagged_def image_image)
  with 2 [OF m [symmetric]] m merge_mesh_eq [OF m] show ?case
    by (simp add: first_by_name_append tagged_def)
qed simp

lemma first_by_name_spec:
  "distinct (map source_name (first_by_name seen xs)) \<and>
   source_name ` set (first_by_name seen xs) = source_name ` set xs - seen \<and>
   (\<forall>x \<in> set (first_by_name seen xs). find (\<lambda>y. source_name y = source_name x) xs = Some x)"
proof (induction seen xs rule: first_by_name.induct)
  case (2 seen x xs)
  show ?case
  proof (cases "source_name x \<in> seen")
    case True
    with 2(1) have IH: "source_name ` set (first_by_name seen xs) = source_name ` set xs - seen" by blast
    have "source_name y \<noteq> source_name x" if "y \<in> set (first_by_name seen xs)" for y
      using that IH True by (metis DiffD2 imageI)
    with 2(1) True show ?thesis by (auto simp: insert_Diff_if)
  next
    case False
    let ?ys = "first_by_name (insert (source_name x) seen) xs"
    from 2(2) False have IH: "source_name ` set ?ys = source_name ` set xs - insert (source_name x) seen" by blast
    have "source_name y \<noteq> source_name x" if "y \<in> set ?ys" for y
      using that IH by (metis DiffD2 imageI insertI1)
    with 2(2) False IH show ?thesis by auto
  qed
qed simp

lemma mergeClusterEntries_distinct: "distinct (map source_name (mergeClusterEntries meshes))"
  using first_by_name_spec [of "{}" "concat (map tagged meshes)"] by (simp add: mergeClusterEntries_def merge_meshes_eq)

lemma mergeClusterEntries_names:
  "source_name ` set (mergeClusterEntries meshes) = (\<Union>mesh \<in> set meshes. entry_Name ` set (mesh_Clusters mesh))"
proof -
  have "source_name ` set (mergeClusterEntries meshes) = source_name ` set (concat (map tagged meshes))"
    using first_by_name_spec [of "{}" "concat (map tagged meshes)"] by (simp add: mergeClusterEntries_def merge_meshes_eq)
  then show ?thesis by (simp add: tagged_def image_UN image_image)
qed

section \<open>Properties\<close>

text \<open>
  The registry is built from one entry per cluster name: every name declared by any mesh occurs exactly
  once in the result of \<^verbatim>\<open>mergeClusterEntries\<close>, and its entry is the first one declared, in the order of the meshes and of
  their entries, tagged with the namespace of the mesh that declares it.
\<close>

theorem mergeClusterEntries_first_wins:
  "distinct (map source_name (mergeClusterEntries meshes)) \<and>
   source_name ` set (mergeClusterEntries meshes) =
     {entry_Name e | e mesh. mesh \<in> set meshes \<and> e \<in> set (mesh_Clusters mesh)} \<and>
   map (\<lambda>x. find (\<lambda>y. source_name y = source_name x)
        (concat (map (\<lambda>mesh. map (\<lambda>e. \<lparr>es_Entry = e, es_MeshNamespace = mesh_Namespace mesh\<rparr>)
           (mesh_Clusters mesh)) meshes))) (mergeClusterEntries meshes) = map Some (mergeClusterEntries meshes)"
proof -
  have "source_name ` set (concat (map tagged meshes)) =
      {entry_Name e | e mesh. mesh \<in> set meshes \<and> e \<in> set (mesh_Clusters mesh)}"
    by (auto simp: tagged_def image_iff) blast
  then show ?thesis
    using first_by_name_spec [of "{}" "concat (map tagged meshes)"]
    by (simp add: mergeClusterEntries_def merge_meshes_eq tagged_def [abs_def])
qed

end
