(* ===== verification/Registry.thy ===== *)
theory Registry
  imports RestMapper Startup
begin

text \<open>
  \<^verbatim>\<open>internal/multicluster/registry.go\<close> and \<^verbatim>\<open>client.go\<close>: the clients of the clusters by name, and how the registry is built
  from the merged cluster entries. Every cluster gets a resettable REST mapper (theory RestMapper).
\<close>

section \<open>The registry\<close>

record 'w cluster =
  cluster_client :: "'w cluster_client"
  cluster_mapper :: "'w rest_mapper option"

record 'w ClusterRegistry =
  reg_clusters :: "(string \<times> 'w cluster) list"
  reg_local :: string

definition reg_Get :: "'w ClusterRegistry \<Rightarrow> string \<Rightarrow> 'w cluster option" where
  "reg_Get r name = map_of (reg_clusters r) name"

definition reg_Client :: "'w ClusterRegistry \<Rightarrow> string \<Rightarrow> 'w cluster_client option" where
  "reg_Client r name =
     (case map_of (reg_clusters r) name of None \<Rightarrow> None | Some c \<Rightarrow> Some (cluster_client c))"

definition LocalName :: "'w ClusterRegistry \<Rightarrow> string" where
  "LocalName r = reg_local r"

text \<open>The loops of \<^verbatim>\<open>Clusters\<close> and \<^verbatim>\<open>Mappers\<close> range over the map in the order given by the first argument.\<close>

definition reg_Clusters :: "(string list \<Rightarrow> string list) \<Rightarrow> 'w ClusterRegistry \<Rightarrow> string list" where
  "reg_Clusters order r = order (map fst (reg_clusters r))"

definition reg_Mappers :: "(string list \<Rightarrow> string list) \<Rightarrow> 'w ClusterRegistry \<Rightarrow> 'w rest_mapper list" where
  "reg_Mappers order r =
     concat (map (\<lambda>name. case map_of (reg_clusters r) name of
         None \<Rightarrow> []
       | Some c \<Rightarrow> (case cluster_mapper c of None \<Rightarrow> [] | Some m \<Rightarrow> [m]))
       (order (map fst (reg_clusters r))))"

text \<open>A cluster that wraps a client and has no REST mapper; \<^verbatim>\<open>NewFromClients\<close> makes a registry of such clusters.\<close>

definition directCluster :: "'w cluster_client \<Rightarrow> 'w cluster" where
  "directCluster c = \<lparr>cluster_client = c, cluster_mapper = None\<rparr>"

definition NewFromClients :: "(string \<times> 'w cluster_client) list \<Rightarrow> string \<Rightarrow> 'w ClusterRegistry" where
  "NewFromClients clients local_name =
     \<lparr>reg_clusters = map (\<lambda>(name, c). (name, directCluster c)) clients, reg_local = local_name\<rparr>"

definition reg_All :: "'w ClusterRegistry \<Rightarrow> (string \<times> 'w cluster) list" where
  "reg_All r = reg_clusters r"

section \<open>Building the registry\<close>

text \<open>
  The libraries the construction calls: reading a Secret, parsing a kubeconfig, the client used before the manager exists, and
  \<^verbatim>\<open>cluster.New\<close>, which is given the provider of the REST mapper and calls it with the configuration and an HTTP client.
  \<open>'c\<close> is the type of configurations, \<open>'h\<close> that of HTTP clients.
\<close>

type_synonym ('w, 'c, 'h) mapper_provider = "'c \<Rightarrow> 'h \<Rightarrow> 'w \<Rightarrow> (error + 'w rest_mapper) \<times> 'w"

record ('w, 'c, 'h) cluster_lib =
  lib_GetSecret :: "string \<Rightarrow> string \<Rightarrow> 'w \<Rightarrow> (error + str_map) \<times> 'w"
  lib_ParseKubeconfig :: "string \<Rightarrow> error + 'c"
  lib_NewCluster :: "('w, 'c, 'h) mapper_provider \<Rightarrow> 'c \<Rightarrow> 'w \<Rightarrow> (error + 'w cluster) \<times> 'w"
  lib_NewClient :: "'c \<Rightarrow> error option"
  lib_ListMeshes :: "'w \<Rightarrow> (error + ClusterMesh list) \<times> 'w"

text \<open>A resettable mapper as a value of the interface \<^verbatim>\<open>meta.RESTMapper\<close>.\<close>

definition resettable_provider :: "('w, 'c, 'h, 'm, 'a) mapper_lib \<Rightarrow> ('w, 'c, 'h) mapper_provider" where
  "resettable_provider M cfg httpClient w =
     (case newResettableDynamicMapper M cfg httpClient w of
        (Inl err, w) \<Rightarrow> (Inl err, w)
      | (Inr r, w) \<Rightarrow> (Inr (Resettable (mapper_Reset M r)), w))"

definition RestConfigFromSecret ::
  "('w, 'c, 'h) cluster_lib \<Rightarrow> string \<Rightarrow> SecretKeyRef \<Rightarrow> 'w \<Rightarrow> (error + 'c) \<times> 'w" where
  "RestConfigFromSecret L namespace ref w =
     (case lib_GetSecret L namespace (ref_Name ref) w of
        (Inl err, w) \<Rightarrow> (Inl (Wrapf err ''getting kubeconfig secret %s/%s'' [namespace, ref_Name ref]), w)
      | (Inr data, w) \<Rightarrow>
          (case map_of data (ref_Key ref) of
             None \<Rightarrow> (Inl (Newf ''secret %s/%s has no key %q'' [namespace, ref_Name ref, ref_Key ref]), w)
           | Some kubeconfig \<Rightarrow>
               (case lib_ParseKubeconfig L kubeconfig of
                  Inl err \<Rightarrow> (Inl (Wrapf err ''parsing kubeconfig from secret'' []), w)
                | Inr cfg \<Rightarrow> (Inr cfg, w))))"

definition configForEntry ::
  "('w, 'c, 'h) cluster_lib \<Rightarrow> ClusterEntry \<Rightarrow> 'c \<Rightarrow> string \<Rightarrow> 'w \<Rightarrow> (error + 'c) \<times> 'w" where
  "configForEntry L entry localCfg meshNamespace w =
     (if entry_Local entry then (Inr localCfg, w)
      else case entry_KubeconfigSecretRef entry of
        None \<Rightarrow> (Inl (Newf ''cluster %q is not local but has no kubeconfigSecretRef'' [entry_Name entry]), w)
      | Some ref \<Rightarrow>
          (case RestConfigFromSecret L meshNamespace ref w of
             (Inl err, w) \<Rightarrow> (Inl (Wrapf err ''building config for cluster %q'' [entry_Name entry]), w)
           | (Inr cfg, w) \<Rightarrow> (Inr cfg, w)))"

fun build_registry ::
  "('w, 'c, 'h) cluster_lib \<Rightarrow> ('w, 'c, 'h, 'm, 'a) mapper_lib \<Rightarrow> 'c \<Rightarrow> 'w ClusterRegistry \<Rightarrow> EntrySource list \<Rightarrow> 'w \<Rightarrow>
     'w ClusterRegistry \<times> 'w" where
  "build_registry L M localCfg reg [] w = (reg, w)"
| "build_registry L M localCfg reg (src # srcs) w =
     (let entry = es_Entry src
      in case configForEntry L entry localCfg (es_MeshNamespace src) w of
        (Inl err, w) \<Rightarrow> build_registry L M localCfg reg srcs w
      | (Inr cfg, w) \<Rightarrow>
          (let reg = (if entry_Local entry then reg\<lparr>reg_local := entry_Name entry\<rparr> else reg)
           in case lib_NewCluster L (resettable_provider M) cfg w of
             (Inl err, w) \<Rightarrow> build_registry L M localCfg reg srcs w
           | (Inr c, w) \<Rightarrow>
               build_registry L M localCfg
                 (reg\<lparr>reg_clusters := AList.update (entry_Name entry) c (reg_clusters reg)\<rparr>) srcs w))"

definition Build ::
  "('w, 'c, 'h) cluster_lib \<Rightarrow> ('w, 'c, 'h, 'm, 'a) mapper_lib \<Rightarrow> EntrySource list \<Rightarrow> 'c \<Rightarrow> 'w \<Rightarrow>
     (error + 'w ClusterRegistry) \<times> 'w" where
  "Build L M entries localCfg w =
     (case build_registry L M localCfg \<lparr>reg_clusters = [], reg_local = ''''\<rparr> entries w of
        (reg, w) \<Rightarrow> (Inr reg, w))"

text \<open>\<^verbatim>\<open>buildInitialRegistry\<close> of \<^verbatim>\<open>cmd/main.go\<close>.\<close>

definition buildInitialRegistry ::
  "('w, 'c, 'h) cluster_lib \<Rightarrow> ('w, 'c, 'h, 'm, 'a) mapper_lib \<Rightarrow> 'c \<Rightarrow> 'w \<Rightarrow> (error + 'w ClusterRegistry) \<times> 'w" where
  "buildInitialRegistry L M cfg w =
     (case lib_NewClient L cfg of
        Some err \<Rightarrow> (Inl (Wrapf err ''building pre-manager client'' []), w)
      | None \<Rightarrow>
          (case lib_ListMeshes L w of
             (Inl err, w) \<Rightarrow> (Inl (Wrapf err ''listing ClusterMesh resources'' []), w)
           | (Inr meshes, w) \<Rightarrow>
               (case Build L M (mergeClusterEntries meshes) cfg w of
                  (Inl err, w) \<Rightarrow> (Inl (Wrapf err ''constructing registry'' []), w)
                | (Inr registry, w) \<Rightarrow> (Inr registry, w))))"

section \<open>Facts\<close>

text \<open>
  What the construction relies on: the Secrets give the same answers throughout the build, whether a cluster can be constructed
  depends on its configuration only, and \<^verbatim>\<open>cluster.New\<close> uses the REST mapper its provider returns.
\<close>

locale registry_lib =
  fixes L :: "('w, 'c, 'h) cluster_lib" and M :: "('w, 'c, 'h, 'm, 'a) mapper_lib"
    and secrets :: "string \<Rightarrow> string \<Rightarrow> error + str_map" and constructible :: "'c \<Rightarrow> bool"
  assumes get_secret: "lib_GetSecret L ns n w = (secrets ns n, w)"
    and new_cluster: "lib_NewCluster L (resettable_provider M) cfg w = (x, w') \<Longrightarrow> (\<exists>c. x = Inr c) = constructible cfg"
    and new_mapper: "lib_NewCluster L (resettable_provider M) cfg w = (Inr c, w') \<Longrightarrow>
      \<exists>h v m v'. resettable_provider M cfg h v = (Inr m, v') \<and> cluster_mapper c = Some m"

text \<open>The configuration an entry stands for, and the clusters that can be registered for it.\<close>

definition entry_config ::
  "('w, 'c, 'h) cluster_lib \<Rightarrow> (string \<Rightarrow> string \<Rightarrow> error + str_map) \<Rightarrow> 'c \<Rightarrow> EntrySource \<Rightarrow> 'c option" where
  "entry_config L secrets localCfg src =
     (if entry_Local (es_Entry src) then Some localCfg
      else case entry_KubeconfigSecretRef (es_Entry src) of
        None \<Rightarrow> None
      | Some ref \<Rightarrow>
          (case secrets (es_MeshNamespace src) (ref_Name ref) of
             Inl _ \<Rightarrow> None
           | Inr data \<Rightarrow>
               (case map_of data (ref_Key ref) of
                  None \<Rightarrow> None
                | Some kubeconfig \<Rightarrow> (case lib_ParseKubeconfig L kubeconfig of Inl _ \<Rightarrow> None | Inr cfg \<Rightarrow> Some cfg))))"

definition entry_usable ::
  "('w, 'c, 'h) cluster_lib \<Rightarrow> (string \<Rightarrow> string \<Rightarrow> error + str_map) \<Rightarrow> ('c \<Rightarrow> bool) \<Rightarrow> 'c \<Rightarrow> EntrySource \<Rightarrow> bool" where
  "entry_usable L secrets constructible localCfg src =
     (case entry_config L secrets localCfg src of None \<Rightarrow> False | Some cfg \<Rightarrow> constructible cfg)"

definition cluster_of ::
  "('w, 'c, 'h) cluster_lib \<Rightarrow> ('w, 'c, 'h, 'm, 'a) mapper_lib \<Rightarrow> (string \<Rightarrow> string \<Rightarrow> error + str_map) \<Rightarrow> 'c \<Rightarrow> EntrySource \<Rightarrow>
     'w cluster \<Rightarrow> bool" where
  "cluster_of L M secrets localCfg src c \<longleftrightarrow>
     (\<exists>cfg v v'. entry_config L secrets localCfg src = Some cfg \<and> lib_NewCluster L (resettable_provider M) cfg v = (Inr c, v'))"

definition registered_as ::
  "('w, 'c, 'h) cluster_lib \<Rightarrow> ('w, 'c, 'h, 'm, 'a) mapper_lib \<Rightarrow> (string \<Rightarrow> string \<Rightarrow> error + str_map) \<Rightarrow> ('c \<Rightarrow> bool) \<Rightarrow> 'c \<Rightarrow>
     EntrySource \<Rightarrow> 'w cluster option \<Rightarrow> bool" where
  "registered_as L M secrets constructible cfg src x \<longleftrightarrow>
     (if entry_usable L secrets constructible cfg src then \<exists>c. x = Some c \<and> cluster_of L M secrets cfg src c else x = None)"

lemma subset_insert_disjoint: "A \<subseteq> insert x B \<Longrightarrow> x \<notin> C \<Longrightarrow> B \<inter> C = {} \<Longrightarrow> A \<inter> C = {}"
  by blast

context registry_lib
begin

lemma configForEntry_eq:
  "\<exists>err. configForEntry L (es_Entry src) cfg (es_MeshNamespace src) w =
     (case entry_config L secrets cfg src of None \<Rightarrow> Inl err | Some ecfg \<Rightarrow> Inr ecfg, w)"
  by (simp add: configForEntry_def RestConfigFromSecret_def entry_config_def get_secret split: option.split sum.split)

text \<open>One turn of the loop registers a cluster of the entry exactly when the entry is usable.\<close>

lemma build_registry_Cons:
  "\<exists>reg' w'. build_registry L M cfg reg (src # srcs) w = build_registry L M cfg reg' srcs w' \<and>
     (if entry_usable L secrets constructible cfg src
      then \<exists>c. reg_clusters reg' = AList.update (source_name src) c (reg_clusters reg) \<and> cluster_of L M secrets cfg src c
      else reg_clusters reg' = reg_clusters reg)"
proof (cases "entry_config L secrets cfg src")
  case None
  then obtain err where "configForEntry L (es_Entry src) cfg (es_MeshNamespace src) w = (Inl err, w)"
    using configForEntry_eq [of src cfg w] by auto
  with None show ?thesis by (auto simp: Let_def entry_usable_def)
next
  case (Some ecfg)
  then have c: "configForEntry L (es_Entry src) cfg (es_MeshNamespace src) w = (Inr ecfg, w)"
    using configForEntry_eq [of src cfg w] by auto
  obtain x w' where x: "lib_NewCluster L (resettable_provider M) ecfg w = (x, w')" by fastforce
  with new_cluster [OF x] c Some show ?thesis
    by (cases x) (auto simp: Let_def entry_usable_def cluster_of_def intro!: exI)
qed

lemma build_registry_exact:
  assumes "distinct (map source_name srcs)" "fst ` set (reg_clusters reg) \<inter> source_name ` set srcs = {}"
  shows "\<exists>reg' w'. build_registry L M cfg reg srcs w = (reg', w') \<and>
     (\<forall>name. case find (\<lambda>x. source_name x = name) srcs of
           None \<Rightarrow> map_of (reg_clusters reg') name = map_of (reg_clusters reg) name
         | Some src \<Rightarrow> registered_as L M secrets constructible cfg src (map_of (reg_clusters reg') name))"
  using assms
proof (induction srcs arbitrary: reg w)
  case (Cons src srcs)
  obtain reg1 w1 where b: "build_registry L M cfg reg (src # srcs) w = build_registry L M cfg reg1 srcs w1"
    and r: "if entry_usable L secrets constructible cfg src
      then \<exists>c. reg_clusters reg1 = AList.update (source_name src) c (reg_clusters reg) \<and> cluster_of L M secrets cfg src c
      else reg_clusters reg1 = reg_clusters reg"
    using build_registry_Cons [of cfg reg src srcs w] by blast
  have "fst ` set (reg_clusters reg1) \<subseteq> insert (source_name src) (fst ` set (reg_clusters reg))"
  proof (cases "entry_usable L secrets constructible cfg src")
    case True
    with r obtain c where "reg_clusters reg1 = AList.update (source_name src) c (reg_clusters reg)" by auto
    then show ?thesis by (simp add: dom_update)
  next
    case False
    with r show ?thesis by auto
  qed
  moreover have "source_name src \<notin> source_name ` set srcs" using Cons.prems(1) by simp
  moreover have "fst ` set (reg_clusters reg) \<inter> source_name ` set srcs = {}" using Cons.prems(2) by simp
  ultimately have "fst ` set (reg_clusters reg1) \<inter> source_name ` set srcs = {}" by (rule subset_insert_disjoint)
  with Cons.IH [of reg1 w1] Cons.prems(1) obtain reg' w' where IH: "build_registry L M cfg reg1 srcs w1 = (reg', w')"
    "\<And>name. case find (\<lambda>x. source_name x = name) srcs of
           None \<Rightarrow> map_of (reg_clusters reg') name = map_of (reg_clusters reg1) name
         | Some src \<Rightarrow> registered_as L M secrets constructible cfg src (map_of (reg_clusters reg') name)" by auto
  have none: "map_of (reg_clusters reg) (source_name src) = None"
    using Cons.prems(2) by (auto simp: map_of_eq_None_iff)
  have last: "find (\<lambda>x. source_name x = source_name src) srcs = None"
    using Cons.prems(1) by (simp add: find_None_iff) (metis image_eqI)
  have other: "map_of (reg_clusters reg1) name = map_of (reg_clusters reg) name" if "name \<noteq> source_name src" for name
    using r that by (auto simp: update_conv' split: if_splits)
  have here: "map_of (reg_clusters reg1) (source_name src) = Some c"
    if "reg_clusters reg1 = AList.update (source_name src) c (reg_clusters reg)" for c by (simp add: that update_conv')
  show ?case
  proof (intro exI conjI allI)
    show "build_registry L M cfg reg (src # srcs) w = (reg', w')" using b IH(1) by simp
    fix name
    show "case find (\<lambda>x. source_name x = name) (src # srcs) of
           None \<Rightarrow> map_of (reg_clusters reg') name = map_of (reg_clusters reg) name
         | Some src \<Rightarrow> registered_as L M secrets constructible cfg src (map_of (reg_clusters reg') name)"
    proof (cases "name = source_name src")
      case True
      with IH(2) [of name] last r none here show ?thesis by (auto simp: registered_as_def split: if_splits)
    next
      case False
      with IH(2) [of name] other [OF False] show ?thesis by (simp split: option.splits)
    qed
  qed
qed simp

lemma buildInitialRegistry_exact:
  assumes "lib_NewClient L cfg = None" "lib_ListMeshes L w = (Inr meshes, w')"
  shows "\<exists>reg w''. buildInitialRegistry L M cfg w = (Inr reg, w'') \<and>
     (\<forall>name. case find (\<lambda>x. source_name x = name) (mergeClusterEntries meshes) of
           None \<Rightarrow> reg_Get reg name = None
         | Some src \<Rightarrow> registered_as L M secrets constructible cfg src (reg_Get reg name))"
proof -
  let ?reg0 = "\<lparr>reg_clusters = [], reg_local = ''''\<rparr>"
  have e: "fst ` set (reg_clusters ?reg0) \<inter> source_name ` set (mergeClusterEntries meshes) = {}" by simp
  obtain reg w'' where b: "build_registry L M cfg ?reg0 (mergeClusterEntries meshes) w' = (reg, w'')"
    "\<And>name. case find (\<lambda>x. source_name x = name) (mergeClusterEntries meshes) of
           None \<Rightarrow> map_of (reg_clusters reg) name = map_of (reg_clusters ?reg0) name
         | Some src \<Rightarrow> registered_as L M secrets constructible cfg src (map_of (reg_clusters reg) name)"
    using build_registry_exact [OF mergeClusterEntries_distinct e] by blast
  have "buildInitialRegistry L M cfg w = (Inr reg, w'')" using assms b(1) by (simp add: buildInitialRegistry_def Build_def)
  moreover have "case find (\<lambda>x. source_name x = name) (mergeClusterEntries meshes) of
       None \<Rightarrow> reg_Get reg name = None
     | Some src \<Rightarrow> registered_as L M secrets constructible cfg src (reg_Get reg name)" for name
    using b(2) [of name] by (simp add: reg_Get_def split: option.splits)
  ultimately show ?thesis by blast
qed

lemma cluster_of_resettable:
  assumes "cluster_of L M secrets cfg src c"
  shows "\<exists>r. cluster_mapper c = Some (Resettable (mapper_Reset M r))"
proof -
  obtain ecfg v v' where "lib_NewCluster L (resettable_provider M) ecfg v = (Inr c, v')"
    using assms by (auto simp: cluster_of_def)
  from new_mapper [OF this] obtain h u m u' where
    m: "resettable_provider M ecfg h u = (Inr m, u')" "cluster_mapper c = Some m" by blast
  obtain x u0 where "newResettableDynamicMapper M ecfg h u = (x, u0)" by fastforce
  with m show ?thesis by (cases x) (auto simp: resettable_provider_def)
qed

end

section \<open>Properties\<close>

text \<open>
  C21. A broken cluster entry never blocks the others: when the ClusterMesh resources can be listed, \<^verbatim>\<open>buildInitialRegistry\<close>
  succeeds, and a cluster is registered exactly when its first entry in any mesh is local or its kubeconfig can be read, and
  the cluster can be constructed, whatever happens to the other entries. It is then built from the configuration of that entry, and
  its REST mapper can be reset, so that the recovery from a NoKindMatch error is not without effect.
\<close>

theorem registry_isolates_failures:
  assumes "registry_lib L M secrets constructible" and "lib_NewClient L cfg = None" and "lib_ListMeshes L w = (Inr meshes, w')"
  shows "\<exists>reg w''. buildInitialRegistry L M cfg w = (Inr reg, w'') \<and>
     (\<forall>name. case find (\<lambda>x. source_name x = name) (mergeClusterEntries meshes) of
           None \<Rightarrow> reg_Get reg name = None
         | Some src \<Rightarrow>
             (if entry_usable L secrets constructible cfg src
              then \<exists>c r. reg_Get reg name = Some c \<and> cluster_of L M secrets cfg src c \<and>
                cluster_mapper c = Some (Resettable (mapper_Reset M r))
              else reg_Get reg name = None))"
proof -
  obtain reg w'' where b: "buildInitialRegistry L M cfg w = (Inr reg, w'')"
    "\<And>name. case find (\<lambda>x. source_name x = name) (mergeClusterEntries meshes) of
       None \<Rightarrow> reg_Get reg name = None
     | Some src \<Rightarrow> registered_as L M secrets constructible cfg src (reg_Get reg name)"
    using registry_lib.buildInitialRegistry_exact [OF assms] by blast
  have "case find (\<lambda>x. source_name x = name) (mergeClusterEntries meshes) of
           None \<Rightarrow> reg_Get reg name = None
         | Some src \<Rightarrow>
             (if entry_usable L secrets constructible cfg src
              then \<exists>c r. reg_Get reg name = Some c \<and> cluster_of L M secrets cfg src c \<and>
                cluster_mapper c = Some (Resettable (mapper_Reset M r))
              else reg_Get reg name = None)" for name
    using b(2) [of name] registry_lib.cluster_of_resettable [OF assms(1), of cfg]
    by (auto simp: registered_as_def split: option.splits if_splits)
  with b(1) show ?thesis by blast
qed

text \<open>A library whose only Secret is that of cluster \<open>b\<close>; the kubeconfig of \<open>c\<close> is missing.\<close>

definition example_secrets :: "string \<Rightarrow> string \<Rightarrow> error + str_map" where
  "example_secrets ns n = (if n = ''kb'' then Inr [(''kubeconfig'', ''cfg-b'')] else Inl (APIError NotFound))"

definition no_peers :: "'w peer_client" where
  "no_peers = \<lparr>cl_List = (\<lambda>_ w. (Inr [], w)), cl_Create = (\<lambda>_ w. (None, w)), cl_Update = (\<lambda>_ w. (None, w)),
     cl_Delete = (\<lambda>_ w. (None, w)), cl_order = (\<lambda>_ names. names)\<rparr>"

definition example_lib :: "ClusterMesh list \<Rightarrow> (map_world, string, unit) cluster_lib" where
  "example_lib meshes = \<lparr>
     lib_GetSecret = (\<lambda>ns n w. (example_secrets ns n, w)),
     lib_ParseKubeconfig = Inr,
     lib_NewCluster = (\<lambda>provider cfg w.
       case provider cfg () w of
         (Inl err, w) \<Rightarrow> (Inl err, w)
       | (Inr m, w) \<Rightarrow> (Inr \<lparr>cluster_client = \<lparr>cc_Peers = no_peers, cc_ListNodes = (\<lambda>w. (Inr [], w))\<rparr>, cluster_mapper = Some m\<rparr>, w)),
     lib_NewClient = (\<lambda>_. None),
     lib_ListMeshes = (\<lambda>w. (Inr meshes, w))\<rparr>"

interpretation ew: registry_lib "example_lib meshes" mem_mapper_lib example_secrets "\<lambda>cfg. cfg \<noteq> ''bad''" for meshes
  by unfold_locales
    (auto simp: example_lib_def resettable_provider_def newResettableDynamicMapper_def mem_mapper_lib_def split: if_splits sum.splits prod.splits)

definition remote_entry :: "string \<Rightarrow> string \<Rightarrow> ClusterEntry" where
  "remote_entry name secret = \<lparr>entry_Name = name, entry_Local = False,
     entry_KubeconfigSecretRef = Some \<lparr>ref_Name = secret, ref_Key = ''kubeconfig''\<rparr>,
     entry_AllowedNetworks = [], entry_WireguardPort = 0, entry_PersistentKeepalive = 0\<rparr>"

definition broken_mesh :: ClusterMesh where
  "broken_mesh = new_mesh ''m'' ''ns'' [remote_entry ''c'' ''kc'', remote_entry ''b'' ''kb'']"

theorem registry_isolates_failures_witness:
  "\<exists>reg w c r. buildInitialRegistry (example_lib [broken_mesh]) mem_mapper_lib ''local'' mp0 = (Inr reg, w) \<and>
     reg_Get reg ''c'' = None \<and> reg_Get reg ''b'' = Some c \<and> cluster_mapper c = Some (Resettable (mapper_Reset mem_mapper_lib r))"
proof -
  let ?L = "example_lib [broken_mesh]"
  let ?c = "\<lparr>es_Entry = remote_entry ''c'' ''kc'', es_MeshNamespace = ''ns''\<rparr>"
  let ?b = "\<lparr>es_Entry = remote_entry ''b'' ''kb'', es_MeshNamespace = ''ns''\<rparr>"
  have m: "mergeClusterEntries [broken_mesh] = [?c, ?b]" by (simp add: mergeClusterEntries_def broken_mesh_def remote_entry_def)
  have u: "\<not> entry_usable ?L example_secrets (\<lambda>cfg. cfg \<noteq> ''bad'') ''local'' ?c" "entry_usable ?L example_secrets (\<lambda>cfg. cfg \<noteq> ''bad'') ''local'' ?b"
    by (simp_all add: entry_usable_def entry_config_def remote_entry_def example_secrets_def example_lib_def)
  have f: "find (\<lambda>x. source_name x = ''c'') [?c, ?b] = Some ?c" "find (\<lambda>x. source_name x = ''b'') [?c, ?b] = Some ?b"
    by (simp_all add: remote_entry_def)
  have l: "lib_NewClient ?L ''local'' = None" "lib_ListMeshes ?L mp0 = (Inr [broken_mesh], mp0)" by (simp_all add: example_lib_def)
  obtain reg w where reg: "buildInitialRegistry ?L mem_mapper_lib ''local'' mp0 = (Inr reg, w)"
    "\<And>name. case find (\<lambda>x. source_name x = name) [?c, ?b] of
           None \<Rightarrow> reg_Get reg name = None
         | Some src \<Rightarrow>
             (if entry_usable ?L example_secrets (\<lambda>cfg. cfg \<noteq> ''bad'') ''local'' src
              then \<exists>c r. reg_Get reg name = Some c \<and> cluster_of ?L mem_mapper_lib example_secrets ''local'' src c \<and>
                cluster_mapper c = Some (Resettable (mapper_Reset mem_mapper_lib r))
              else reg_Get reg name = None)"
    using registry_isolates_failures [OF ew.registry_lib_axioms l, unfolded m] by blast
  from reg(2) [of "''c''"] reg(2) [of "''b''"] reg(1) u show ?thesis unfolding f by auto
qed

end
