(* ===== verification/Controller.thy ===== *)
theory Controller
  imports MeshPlan MeshValidation PeerReconciler Discovered Registry
begin

text \<open>
  The reconcile loop of \<^verbatim>\<open>internal/controller/clustermesh_controller.go\<close>: fetching a mesh, its deletion, the overlap check,
  pushing the Peers of every source cluster into every other cluster, and the two sweeps. The state of the world is threaded
  through every client call in program order. Log output is not modelled; recorded events are.
\<close>

section \<open>The reconciler and the libraries it calls\<close>

text \<open>
  The client of the home cluster, the event recorder, the finalizer helpers of controller-runtime and
  \<^verbatim>\<open>SetStatusCondition\<close> of apimachinery are fields; \<open>r_order\<close> is the order of a range over the registry. A list
  takes the namespace it is restricted to, if any.
\<close>

record 'w ClusterMeshReconciler =
  r_Get :: "string \<times> string \<Rightarrow> 'w \<Rightarrow> (error + ClusterMesh) \<times> 'w"
  r_List :: "string option \<Rightarrow> 'w \<Rightarrow> (error + ClusterMesh list) \<times> 'w"
  r_Update :: "ClusterMesh \<Rightarrow> 'w \<Rightarrow> error option \<times> 'w"
  r_StatusUpdate :: "ClusterMesh \<Rightarrow> 'w \<Rightarrow> error option \<times> 'w"
  r_Eventf :: "ClusterMesh \<Rightarrow> event \<Rightarrow> 'w \<Rightarrow> 'w"
  r_Registry :: "'w ClusterRegistry"
  r_order :: "'w \<Rightarrow> string list \<Rightarrow> string list"
  r_ContainsFinalizer :: "ClusterMesh \<Rightarrow> string \<Rightarrow> bool"
  r_AddFinalizer :: "ClusterMesh \<Rightarrow> string \<Rightarrow> ClusterMesh"
  r_RemoveFinalizer :: "ClusterMesh \<Rightarrow> string \<Rightarrow> ClusterMesh"
  r_SetStatusCondition :: "Condition \<Rightarrow> Condition list \<Rightarrow> Condition list"

definition finalizerName :: string where
  "finalizerName = ''kilo-clustermesh.io/cleanup''"

definition setCondition ::
  "'w ClusterMeshReconciler \<Rightarrow> ClusterMesh \<Rightarrow> string \<Rightarrow> string \<Rightarrow> string \<Rightarrow> error \<Rightarrow> ClusterMesh" where
  "setCondition R mesh condType status reason message =
     mesh\<lparr>mesh_Status := (mesh_Status mesh)\<lparr>ms_Conditions :=
       r_SetStatusCondition R
         \<lparr>cond_Type = condType, cond_Status = status, cond_Reason = reason, cond_Message = message,
          cond_ObservedGeneration = mesh_Generation mesh\<rparr>
         (ms_Conditions (mesh_Status mesh))\<rparr>\<rparr>"

definition listNodes :: "'w cluster_client \<Rightarrow> 'w \<Rightarrow> (error + Node list) \<times> 'w" where
  "listNodes c w =
     (case cc_ListNodes c w of
        (Inl err, w) \<Rightarrow> (Inl (Wrapf err ''listing nodes'' []), w)
      | (Inr items, w) \<Rightarrow> (Inr items, w))"

section \<open>Endpoints observed by the target\<close>

definition enrich_peer :: "str_map \<Rightarrow> Peer \<Rightarrow> Peer" where
  "enrich_peer discoveredByKey peerObj =
     (case map_of discoveredByKey (PublicKey (peer_Spec peerObj)) of
        None \<Rightarrow> peerObj
      | Some discoveredEndpoint \<Rightarrow>
          (let configured = (case Endpoint (peer_Spec peerObj) of None \<Rightarrow> '''' | Some e \<Rightarrow> ep_IP (ep_DNSOrIP e))
           in if configured = '''' \<or>
                (case Endpoint (peer_Spec peerObj) of
                   None \<Rightarrow> True
                 | Some e \<Rightarrow> discoveredEndpoint \<noteq> configured @ '':'' @ Itoa (uint (ep_Port e)))
              then (case parseDiscoveredEndpoint discoveredEndpoint of
                      Inl parseErr \<Rightarrow> peerObj
                    | Inr parsedEndpoint \<Rightarrow>
                        peerObj\<lparr>peer_Spec := (peer_Spec peerObj)\<lparr>Endpoint := Some parsedEndpoint\<rparr>\<rparr>)
              else peerObj))"

definition enrichEndpointsFromDiscovered ::
  "'w cluster_client \<Rightarrow> Peer list \<Rightarrow> 'w \<Rightarrow> (error + Peer list) \<times> 'w" where
  "enrichEndpointsFromDiscovered tgtClient desired w =
     (case DiscoveredEndpointsByKey tgtClient w of
        (Inl lookupErr, w) \<Rightarrow> (Inl (Wrapf lookupErr ''listing nodes for discovered-endpoint lookup'' []), w)
      | (Inr discoveredByKey, w) \<Rightarrow>
          (if discoveredByKey = [] then (Inr desired, w)
           else (Inr (map (enrich_peer discoveredByKey) desired), w)))"

section \<open>Pushing the Peers\<close>

fun push_targets ::
  "'w ClusterMeshReconciler \<Rightarrow> ClusterMesh \<Rightarrow> ClusterEntry \<Rightarrow> Peer list \<Rightarrow> ClusterEntry list \<Rightarrow> 'w \<Rightarrow> error option \<times> 'w" where
  "push_targets R mesh srcEntry desired [] w = (None, w)"
| "push_targets R mesh srcEntry desired (tgtEntry # tgts) w =
     (if entry_Name tgtEntry = entry_Name srcEntry then push_targets R mesh srcEntry desired tgts w
      else case reg_Client (r_Registry R) (entry_Name tgtEntry) of
        None \<Rightarrow> push_targets R mesh srcEntry desired tgts w
      | Some tgtClient \<Rightarrow>
          (case enrichEndpointsFromDiscovered tgtClient desired w of
             (enriched, w) \<Rightarrow>
               (let pushDesired = (case enriched of Inl enrichErr \<Rightarrow> desired | Inr peers \<Rightarrow> peers)
                in case ReconcilePeers (cc_Peers tgtClient) (mesh_Name mesh) (entry_Name srcEntry) pushDesired w of
                     (Some err, w) \<Rightarrow>
                       (Some (Wrapf err ''reconciling peers from %q to %q'' [entry_Name srcEntry, entry_Name tgtEntry]), w)
                   | (None, w) \<Rightarrow> push_targets R mesh srcEntry desired tgts w)))"

definition pushPeersToTargets ::
  "'w ClusterMeshReconciler \<Rightarrow> ClusterMesh \<Rightarrow> ClusterEntry \<Rightarrow> Node list \<Rightarrow> ClusterStatus \<Rightarrow> 'w \<Rightarrow>
     (error + ClusterStatus) \<times> 'w" where
  "pushPeersToTargets R mesh srcEntry validNodes status w =
     (case buildDesiredPeers (mesh_Name mesh) srcEntry validNodes (meshPersistentKeepalive mesh) of
        Inl err \<Rightarrow> (Inl (Wrapf err ''building peers for cluster %q'' [entry_Name srcEntry]), w)
      | Inr desired \<Rightarrow>
          (let status = status\<lparr>status_RegisteredPeers := length desired\<rparr>
           in case push_targets R mesh srcEntry desired (mesh_Clusters mesh) w of
                (Some err, w) \<Rightarrow> (Inl err, w)
              | (None, w) \<Rightarrow> (Inr status, w)))"

fun reconcile_sources ::
  "'w ClusterMeshReconciler \<Rightarrow> ClusterMesh \<Rightarrow> ClusterEntry list \<Rightarrow> ClusterStatus list \<Rightarrow> bool \<Rightarrow> 'w \<Rightarrow>
     (error + ClusterStatus list \<times> bool) \<times> 'w" where
  "reconcile_sources R mesh [] statuses incomplete w = (Inr (statuses, incomplete), w)"
| "reconcile_sources R mesh (srcEntry # srcs) statuses incomplete w =
     (case reg_Client (r_Registry R) (entry_Name srcEntry) of
        None \<Rightarrow> reconcile_sources R mesh srcs statuses True w
      | Some srcClient \<Rightarrow>
          (case listNodes srcClient w of
             (Inl err, w) \<Rightarrow> (Inl (Wrapf err ''listing nodes for cluster %q'' [entry_Name srcEntry]), w)
           | (Inr nodes, w) \<Rightarrow>
               (case filterNodes nodes srcEntry of (validNodes, skipped, transientSkipped, events) \<Rightarrow>
                 (let w = fold (r_Eventf R mesh) events w;
                      status = \<lparr>status_Name = entry_Name srcEntry, status_RegisteredPeers = 0, status_SkippedNodes = skipped\<rparr>;
                      incomplete = (if validNodes = [] \<and> (nodes = [] \<or> 0 < transientSkipped) then True else incomplete)
                  in case pushPeersToTargets R mesh srcEntry validNodes status w of
                       (Inl err, w) \<Rightarrow> (Inl err, w)
                     | (Inr status, w) \<Rightarrow> reconcile_sources R mesh srcs (statuses @ [status]) incomplete w))))"

definition reconcileAllClusters ::
  "'w ClusterMeshReconciler \<Rightarrow> ClusterMesh \<Rightarrow> 'w \<Rightarrow> (error + ClusterStatus list \<times> bool) \<times> 'w" where
  "reconcileAllClusters R mesh w = reconcile_sources R mesh (mesh_Clusters mesh) [] False w"

section \<open>The sweeps\<close>

fun stale_targets ::
  "'w ClusterMeshReconciler \<Rightarrow> ClusterMesh \<Rightarrow> string list \<Rightarrow> string list \<Rightarrow> 'w \<Rightarrow> 'w" where
  "stale_targets R mesh validSources [] w = w"
| "stale_targets R mesh validSources (name # names) w =
     (case reg_Client (r_Registry R) name of
        None \<Rightarrow> stale_targets R mesh validSources names w
      | Some tgtClient \<Rightarrow>
          (let sources = (if name \<in> set validSources then validSources else [])
           in case DeleteStaleSourceClusters (cc_Peers tgtClient) (mesh_Name mesh) sources w of
                (err, w) \<Rightarrow> stale_targets R mesh validSources names w))"

definition cleanupStaleSourceClusters :: "'w ClusterMeshReconciler \<Rightarrow> ClusterMesh \<Rightarrow> 'w \<Rightarrow> 'w" where
  "cleanupStaleSourceClusters R mesh w =
     (let validSources = map entry_Name (mesh_Clusters mesh)
      in stale_targets R mesh validSources (reg_Clusters (r_order R w) (r_Registry R)) w)"

definition collectLivingMeshes :: "'w ClusterMeshReconciler \<Rightarrow> 'w \<Rightarrow> string list option \<times> 'w" where
  "collectLivingMeshes R w =
     (case r_List R None w of
        (Inl err, w) \<Rightarrow> (None, w)
      | (Inr meshes, w) \<Rightarrow> (Some (map mesh_Name meshes), w))"

definition orphan_peer :: "'w peer_client \<Rightarrow> string list \<Rightarrow> Peer \<Rightarrow> 'w \<Rightarrow> error list \<times> 'w" where
  "orphan_peer C living peerObj w =
     (let meshLabel = map_get (peer_Labels peerObj) LabelMesh
      in if meshLabel = '''' then ([], w)
      else if meshLabel \<in> set living then ([], w)
      else case cl_Delete C peerObj w of
        (Some deleteErr, w) \<Rightarrow> (if \<not> is_not_found deleteErr then ([deleteErr], w) else ([], w))
      | (None, w) \<Rightarrow> ([], w))"

text \<open>The result is the list of delete errors that are logged; the caller ignores it.\<close>

definition sweepOrphanPeersInCluster :: "'w peer_client \<Rightarrow> string list \<Rightarrow> 'w \<Rightarrow> error list \<times> 'w" where
  "sweepOrphanPeersInCluster C living w =
     (case cl_List C [] w of
        (Inl err, w) \<Rightarrow> ([err], w)
      | (Inr peers, w) \<Rightarrow> each (orphan_peer C living) peers w)"

fun orphan_targets :: "'w ClusterMeshReconciler \<Rightarrow> string list \<Rightarrow> string list \<Rightarrow> 'w \<Rightarrow> 'w" where
  "orphan_targets R living [] w = w"
| "orphan_targets R living (name # names) w =
     (case reg_Client (r_Registry R) name of
        None \<Rightarrow> orphan_targets R living names w
      | Some tgtClient \<Rightarrow>
          (case sweepOrphanPeersInCluster (cc_Peers tgtClient) living w of
             (errs, w) \<Rightarrow> orphan_targets R living names w))"

definition cleanupOrphanMeshPeers :: "'w ClusterMeshReconciler \<Rightarrow> string \<Rightarrow> 'w \<Rightarrow> 'w" where
  "cleanupOrphanMeshPeers R namespace w =
     (case collectLivingMeshes R w of
        (None, w) \<Rightarrow> w
      | (Some living, w) \<Rightarrow> orphan_targets R living (reg_Clusters (r_order R w) (r_Registry R)) w)"

section \<open>Deletion of a mesh\<close>

fun delete_targets ::
  "'w ClusterMeshReconciler \<Rightarrow> ClusterMesh \<Rightarrow> ClusterEntry \<Rightarrow> ClusterEntry list \<Rightarrow> 'w \<Rightarrow> 'w" where
  "delete_targets R mesh entry [] w = w"
| "delete_targets R mesh entry (targetEntry # tgts) w =
     (if entry_Name targetEntry = entry_Name entry then delete_targets R mesh entry tgts w
      else case reg_Client (r_Registry R) (entry_Name targetEntry) of
        None \<Rightarrow> delete_targets R mesh entry tgts w
      | Some targetClient \<Rightarrow>
          (case ReconcilePeers (cc_Peers targetClient) (mesh_Name mesh) (entry_Name entry) [] w of
             (err, w) \<Rightarrow> delete_targets R mesh entry tgts w))"

definition delete_sources :: "'w ClusterMeshReconciler \<Rightarrow> ClusterMesh \<Rightarrow> ClusterEntry list \<Rightarrow> 'w \<Rightarrow> 'w" where
  "delete_sources R mesh entries w = fold (\<lambda>entry. delete_targets R mesh entry (mesh_Clusters mesh)) entries w"

definition handleDeletion :: "'w ClusterMeshReconciler \<Rightarrow> ClusterMesh \<Rightarrow> 'w \<Rightarrow> error option \<times> 'w" where
  "handleDeletion R mesh w =
     (if \<not> r_ContainsFinalizer R mesh finalizerName then (None, w)
      else let w = delete_sources R mesh (mesh_Clusters mesh) w;
               mesh = r_RemoveFinalizer R mesh finalizerName
           in case r_Update R mesh w of (err, w) \<Rightarrow> (wrapf err ''removing finalizer'' [], w))"

section \<open>The reconcile loop\<close>

definition validateMeshNetworks :: "'w ClusterMeshReconciler \<Rightarrow> ClusterMesh \<Rightarrow> 'w \<Rightarrow> error option \<times> 'w" where
  "validateMeshNetworks R mesh w =
     (case r_List R (Some (mesh_Namespace mesh)) w of
        (Inl err, w) \<Rightarrow> (None, w)
      | (Inr items, w) \<Rightarrow> (ValidateMeshNetworks items, w))"

definition setOverlapCondition ::
  "'w ClusterMeshReconciler \<Rightarrow> ClusterMesh \<Rightarrow> error \<Rightarrow> 'w \<Rightarrow> error option \<times> 'w" where
  "setOverlapCondition R mesh msg w =
     (let mesh = setCondition R mesh ''NetworksOverlap'' ''True'' ''CIDROverlap'' msg;
          mesh = setCondition R mesh ''Ready'' ''False'' ''NetworksOverlap'' (Newf ''CIDR overlap detected across meshes'' [])
      in case r_StatusUpdate R mesh w of (err, w) \<Rightarrow> (wrapf err ''updating status on CIDR overlap'' [], w))"

definition updateStatus ::
  "'w ClusterMeshReconciler \<Rightarrow> ClusterMesh \<Rightarrow> ClusterStatus list \<Rightarrow> 'w \<Rightarrow> error option \<times> 'w" where
  "updateStatus R mesh statuses w =
     (let mesh = mesh\<lparr>mesh_Status := (mesh_Status mesh)\<lparr>ms_Clusters := statuses\<rparr>\<rparr>;
          mesh = setCondition R mesh ''Ready'' ''True'' ''Reconciled'' (Newf ''all clusters reconciled successfully'' [])
      in case r_StatusUpdate R mesh w of (err, w) \<Rightarrow> (wrapf err ''updating status'' [], w))"

definition reconcile ::
  "'w ClusterMeshReconciler \<Rightarrow> string \<times> string \<Rightarrow> 'w \<Rightarrow> (reconcileState \<times> error option) \<times> 'w" where
  "reconcile R req w =
     (case r_Get R req w of
        (Inl err, w) \<Rightarrow>
          ((reconcileStateDone, wrapf (if is_not_found err then None else Some err) ''fetching ClusterMesh'' []), w)
      | (Inr mesh, w) \<Rightarrow>
          (if mesh_Deleting mesh then
             (case handleDeletion R mesh w of (err, w) \<Rightarrow> ((reconcileStateDone, err), w))
           else if \<not> r_ContainsFinalizer R mesh finalizerName then
             (case r_Update R (r_AddFinalizer R mesh finalizerName) w of
                (Some err, w) \<Rightarrow> ((reconcileStateDone, Some (Wrapf err ''adding finalizer'' [])), w)
              | (None, w) \<Rightarrow> ((reconcileStateDone, None), w))
           else case validateMeshNetworks R mesh w of
             (Some msg, w) \<Rightarrow>
               (case setOverlapCondition R mesh msg w of (err, w) \<Rightarrow> ((reconcileStateDone, err), w))
           | (None, w) \<Rightarrow>
               (let mesh = setCondition R mesh ''NetworksOverlap'' ''False'' ''NoOverlap'' (Newf ''all CIDRs are disjoint'' [])
                in case reconcileAllClusters R mesh w of
                     (Inl err, w) \<Rightarrow> ((reconcileStateDone, Some err), w)
                   | (Inr (clusterStatuses, incomplete), w) \<Rightarrow>
                       (let w = cleanupStaleSourceClusters R mesh w;
                            w = cleanupOrphanMeshPeers R (mesh_Namespace mesh) w;
                            state = (if incomplete then reconcileStateBootstrap else reconcileStateSynced)
                        in case updateStatus R mesh clusterStatuses w of (err, w) \<Rightarrow> ((state, err), w)))))"

fun refresh_mappers :: "error option \<Rightarrow> 'w rest_mapper list \<Rightarrow> 'w \<Rightarrow> 'w" where
  "refresh_mappers err [] w = w"
| "refresh_mappers err (m # ms) w =
     (case RefreshMapperOnNoMatch err (Some m) w of (_, w) \<Rightarrow> refresh_mappers err ms w)"

definition Reconcile :: "'w ClusterMeshReconciler \<Rightarrow> string \<times> string \<Rightarrow> 'w \<Rightarrow> (nat \<times> error option) \<times> 'w" where
  "Reconcile R req w =
     (case reconcile R req w of
        ((state, err), w) \<Rightarrow>
          (let w = refresh_mappers err (reg_Mappers (r_order R w) (r_Registry R)) w
           in (selectResult state err, w)))"

section \<open>Node events\<close>

fun mesh_requests :: "string \<Rightarrow> ClusterMesh list \<Rightarrow> (string \<times> string) list" where
  "mesh_requests clusterName [] = []"
| "mesh_requests clusterName (mesh # meshes) =
     (if list_ex (\<lambda>entry. entry_Name entry = clusterName) (mesh_Clusters mesh)
      then (mesh_Namespace mesh, mesh_Name mesh) # mesh_requests clusterName meshes
      else mesh_requests clusterName meshes)"

definition nodeToClusterMeshRequests ::
  "'w ClusterMeshReconciler \<Rightarrow> string \<Rightarrow> 'w \<Rightarrow> (string \<times> string) list \<times> 'w" where
  "nodeToClusterMeshRequests R clusterName w =
     (case r_List R None w of
        (Inl err, w) \<Rightarrow> ([], w)
      | (Inr meshes, w) \<Rightarrow> (mesh_requests clusterName meshes, w))"

end
