(* ===== verification/ControllerFacts.thy ===== *)
theory ControllerFacts
  imports Controller
begin

text \<open>
  What a reconcile may change: the laws of a world with several clusters (a locale), the effect of each step of
  the controller on the Peers of each cluster, and an in-memory world that satisfies the laws.
\<close>

section \<open>Calls that leave a part of the world alone\<close>

definition client_keeps :: "'w peer_client \<Rightarrow> ('w \<Rightarrow> 'a) \<Rightarrow> bool" where
  "client_keeps C g \<longleftrightarrow>
     (\<forall>sel w r w'. cl_List C sel w = (r, w') \<longrightarrow> g w' = g w) \<and>
     (\<forall>p w r w'. cl_Create C p w = (r, w') \<longrightarrow> g w' = g w) \<and>
     (\<forall>p w r w'. cl_Update C p w = (r, w') \<longrightarrow> g w' = g w) \<and>
     (\<forall>p w r w'. cl_Delete C p w = (r, w') \<longrightarrow> g w' = g w)"

lemma client_keepsD:
  assumes "client_keeps C g"
  shows "cl_List C sel w = (r, w') \<Longrightarrow> g w' = g w" "cl_Create C p w = (e, w') \<Longrightarrow> g w' = g w"
    "cl_Update C p w = (e, w') \<Longrightarrow> g w' = g w" "cl_Delete C p w = (e, w') \<Longrightarrow> g w' = g w"
  using assms by (auto simp: client_keeps_def)

lemma reconcile_entry_keeps:
  assumes "client_keeps C g" "reconcile_entry C E K x w = (es, w')"
  shows "g w' = g w"
  using assms(2)
  by (auto simp: reconcile_entry_def createOrMerge_def mergeIntoCanonical_def Let_def
      split: prod.splits option.splits if_splits dest: client_keepsD [OF assms(1)])

lemma orphan_entry_keeps:
  assumes "client_keeps C g" "orphan_entry C D x w = (es, w')"
  shows "g w' = g w"
  using assms(2)
  by (auto simp: orphan_entry_def split: prod.splits option.splits if_splits dest: client_keepsD [OF assms(1)])

lemma stale_entry_keeps:
  assumes "client_keeps C g" "stale_entry C valid x w = (es, w')"
  shows "g w' = g w"
  using assms(2)
  by (auto simp: stale_entry_def Let_def split: prod.splits option.splits if_splits dest: client_keepsD [OF assms(1)])

lemma orphan_peer_keeps:
  assumes "client_keeps C g" "orphan_peer C living x w = (es, w')"
  shows "g w' = g w"
  using assms(2)
  by (auto simp: orphan_peer_def Let_def split: prod.splits option.splits if_splits dest: client_keepsD [OF assms(1)])

lemma ReconcilePeers_keeps:
  assumes "client_keeps C g" "ReconcilePeers C m s desired w = (r, w')"
  shows "g w' = g w"
proof -
  obtain rk w1 where k: "buildAllPeersByPublicKey C w = (rk, w1)" by fastforce
  then have g1: "g w1 = g w"
    by (auto simp: buildAllPeersByPublicKey_def split: prod.splits sum.splits dest: client_keepsD [OF assms(1)])
  obtain rl w2 where l: "cl_List C (OrphanSelector m s) w1 = (rl, w2)" by fastforce
  have g2: "g w2 = g w1" using l by (rule client_keepsD [OF assms(1)])
  show ?thesis
  proof (cases rk)
    case (Inl e)
    with assms(2) k g1 show ?thesis by (simp add: ReconcilePeers_def)
  next
    case (Inr K)
    show ?thesis
    proof (cases rl)
      case (Inl e)
      with assms(2) k l \<open>rk = Inr K\<close> g1 g2 show ?thesis by (simp add: ReconcilePeers_def)
    next
      case (Inr items)
      obtain es w3 es' where r: "reconcileDesired C (buildDesiredMap desired) (buildExistingMap items) K w2 = (es, w3)"
        "deleteOrphans C (buildDesiredMap desired) (buildExistingMap items) w3 = (es', w')"
        using assms(2) k l \<open>rk = Inr K\<close> Inr by (auto simp: ReconcilePeers_def Let_def split: prod.splits)
      have "g w3 = g w2" using r(1) unfolding reconcileDesired_def
        by (rule each_preserves) (rule reconcile_entry_keeps [OF assms(1)])
      moreover have "g w' = g w3" using r(2) unfolding deleteOrphans_def
        by (rule each_preserves) (rule orphan_entry_keeps [OF assms(1)])
      ultimately show ?thesis using g1 g2 by simp
    qed
  qed
qed

lemma DeleteStale_keeps:
  assumes "client_keeps C g" "DeleteStaleSourceClusters C m valid w = (r, w')"
  shows "g w' = g w"
proof -
  obtain rl w1 where l: "cl_List C [(LabelMesh, m)] w = (rl, w1)" by fastforce
  have g1: "g w1 = g w" using l by (rule client_keepsD [OF assms(1)])
  show ?thesis
  proof (cases rl)
    case (Inl e)
    with assms(2) l g1 show ?thesis by (simp add: DeleteStaleSourceClusters_def)
  next
    case (Inr items)
    then obtain es where "each (stale_entry C valid) items w1 = (es, w')"
      using assms(2) l by (auto simp: DeleteStaleSourceClusters_def split: prod.splits)
    then have "g w' = g w1" by (rule each_preserves) (rule stale_entry_keeps [OF assms(1)])
    with g1 show ?thesis by simp
  qed
qed

lemma sweepOrphanPeers_keeps:
  assumes "client_keeps C g" "sweepOrphanPeersInCluster C living w = (es, w')"
  shows "g w' = g w"
proof -
  obtain rl w1 where l: "cl_List C [] w = (rl, w1)" by fastforce
  have g1: "g w1 = g w" using l by (rule client_keepsD [OF assms(1)])
  show ?thesis
  proof (cases rl)
    case (Inl e)
    with assms(2) l g1 show ?thesis by (simp add: sweepOrphanPeersInCluster_def)
  next
    case (Inr items)
    then have "each (orphan_peer C living) items w1 = (es, w')"
      using assms(2) l by (simp add: sweepOrphanPeersInCluster_def)
    then have "g w' = g w1" by (rule each_preserves) (rule orphan_peer_keeps [OF assms(1)])
    with g1 show ?thesis by simp
  qed
qed

section \<open>A world with several clusters\<close>

text \<open>
  \<open>cview n\<close> are the Peers stored in the registered cluster \<open>n\<close>; \<open>env\<close> are the Nodes of each cluster and the keys of the
  ClusterMesh objects, which nothing changes during a reconcile of a living mesh. Each client obeys the laws of \<open>peer_api\<close> on its own cluster
  and leaves the Peers of the others alone; the calls on the home cluster, listing Nodes, recording events and
  resetting a mapper leave all Peers alone.
\<close>

abbreviation mesh_key :: "ClusterMesh \<Rightarrow> string \<times> string" where
  "mesh_key mesh \<equiv> (mesh_Namespace mesh, mesh_Name mesh)"

locale mesh_world =
  fixes R :: "'w ClusterMeshReconciler" and cview :: "string \<Rightarrow> 'w \<Rightarrow> string \<Rightarrow> Peer option"
    and env :: "'w \<Rightarrow> (string \<Rightarrow> Node list) \<times> (string \<times> string) set"
  assumes cluster_api: "reg_Client (r_Registry R) n = Some c \<Longrightarrow> peer_api (cc_Peers c) (cview n)"
    and other_kept: "reg_Client (r_Registry R) n = Some c \<Longrightarrow> k \<noteq> n \<Longrightarrow> client_keeps (cc_Peers c) (cview k)"
    and nodes_kept: "reg_Client (r_Registry R) n = Some c \<Longrightarrow> cc_ListNodes c w = (ns, w') \<Longrightarrow> cview k w' = cview k w"
    and get_kept: "r_Get R req w = (rm, w') \<Longrightarrow> cview k w' = cview k w"
    and meshes_kept: "r_List R nso w = (rl, w') \<Longrightarrow> cview k w' = cview k w"
    and update_kept: "r_Update R mesh w = (e, w') \<Longrightarrow> cview k w' = cview k w"
    and status_kept: "r_StatusUpdate R mesh w = (e, w') \<Longrightarrow> cview k w' = cview k w"
    and event_kept: "cview k (r_Eventf R mesh ev w) = cview k w"
    and reset_kept: "(n, cl) \<in> set (reg_clusters (r_Registry R)) \<Longrightarrow>
      cluster_mapper cl = Some (Resettable reset) \<Longrightarrow> cview k (reset w) = cview k w"
    and registry_order: "mset (r_order R w ks) = mset ks"
    and nodes_exact: "reg_Client (r_Registry R) n = Some c \<Longrightarrow> cc_ListNodes c w = (Inr nl, w') \<Longrightarrow> nl = fst (env w) n"
    and meshes_exact: "r_List R None w = (Inr ml, w') \<Longrightarrow> mesh_key ` set ml = snd (env w)"
    and get_exact: "r_Get R req w = (Inr mesh, w') \<Longrightarrow> mesh_key mesh \<in> snd (env w)"
    and env_peers: "reg_Client (r_Registry R) n = Some c \<Longrightarrow> client_keeps (cc_Peers c) env"
    and env_nodes: "reg_Client (r_Registry R) n = Some c \<Longrightarrow> cc_ListNodes c w = (ns, w') \<Longrightarrow> env w' = env w"
    and env_get: "r_Get R req w = (rm, w') \<Longrightarrow> env w' = env w"
    and env_meshes: "r_List R nso w = (rl, w') \<Longrightarrow> env w' = env w"
    and env_event: "env (r_Eventf R mesh ev w) = env w"
begin

lemma events_env: "env (fold (r_Eventf R mesh) evs w) = env w"
  by (induction evs arbitrary: w) (auto simp: env_event)

lemma discovered_env:
  assumes "reg_Client (r_Registry R) n = Some c" "enrichEndpointsFromDiscovered c ds w = (r, w')"
  shows "env w' = env w"
  using assms
  by (auto simp: enrichEndpointsFromDiscovered_def DiscoveredEndpointsByKey_def
      split: prod.splits sum.splits if_splits dest: env_nodes)

lemma push_targets_env: "push_targets R mesh e ds tgts w = (r, w') \<Longrightarrow> env w' = env w"
proof (induction tgts arbitrary: w)
  case (Cons tgt tgts)
  show ?case
  proof (cases "entry_Name tgt = entry_Name e \<or> reg_Client (r_Registry R) (entry_Name tgt) = None")
    case True
    with Cons show ?thesis by (auto split: if_splits)
  next
    case False
    then obtain c where c: "reg_Client (r_Registry R) (entry_Name tgt) = Some c" "entry_Name tgt \<noteq> entry_Name e" by auto
    obtain r1 w1 where en: "enrichEndpointsFromDiscovered c ds w = (r1, w1)" by fastforce
    define ds' where "ds' = (case r1 of Inl _ \<Rightarrow> ds | Inr ps \<Rightarrow> ps)"
    obtain r2 w2 where p: "ReconcilePeers (cc_Peers c) (mesh_Name mesh) (entry_Name e) ds' w1 = (r2, w2)" by fastforce
    have "env w2 = env w" using ReconcilePeers_keeps [OF env_peers [OF c(1)] p] discovered_env [OF c(1) en] by simp
    moreover have "env w' = env w2"
      using Cons c en p by (auto simp: ds'_def Let_def split: option.splits)
    ultimately show ?thesis by simp
  qed
qed simp

lemma stale_targets_env: "env (stale_targets R mesh valid names w) = env w"
proof (induction names arbitrary: w)
  case (Cons n names)
  show ?case
  proof (cases "reg_Client (r_Registry R) n")
    case (Some c)
    obtain e w1 where d: "DeleteStaleSourceClusters (cc_Peers c) (mesh_Name mesh) (if n \<in> set valid then valid else []) w = (e, w1)"
      by fastforce
    with DeleteStale_keeps [OF env_peers [OF Some] d] Cons Some show ?thesis by (simp add: Let_def)
  qed (use Cons in simp)
qed simp

lemma events_kept: "cview k (fold (r_Eventf R mesh) evs w) = cview k w"
  by (induction evs arbitrary: w) (auto simp: event_kept)

lemma refresh_kept:
  "cview k (refresh_mappers err (reg_Mappers order (r_Registry R)) w) = cview k w"
proof -
  have "cview k (refresh_mappers err ms w) = cview k w"
    if "\<And>m. m \<in> set ms \<Longrightarrow> m = NotResettable \<or> (\<exists>f. m = Resettable f \<and> (\<forall>w. cview k (f w) = cview k w))" for ms
    using that
  proof (induction ms arbitrary: w)
    case (Cons m ms)
    have m: "m = NotResettable \<or> (\<exists>f. m = Resettable f \<and> (\<forall>w. cview k (f w) = cview k w))"
      by (rule Cons.prems) simp
    have "cview k (refresh_mappers err ms v) = cview k v" for v
      by (rule Cons.IH) (rule Cons.prems, simp)
    with m show ?case
      by (auto simp: RefreshMapperOnNoMatch_def split: option.splits rest_mapper.splits)
  qed simp
  moreover have "m = NotResettable \<or> (\<exists>f. m = Resettable f \<and> (\<forall>w. cview k (f w) = cview k w))"
    if m: "m \<in> set (reg_Mappers order (r_Registry R))" for m
  proof -
    obtain n cl where "(n, cl) \<in> set (reg_clusters (r_Registry R))" "cluster_mapper cl = Some m"
      using m by (auto simp: reg_Mappers_def split: option.splits) (metis map_of_SomeD)
    then show ?thesis using reset_kept by (cases m) auto
  qed
  ultimately show ?thesis by blast
qed

lemma discovered_kept:
  assumes "reg_Client (r_Registry R) n = Some c" "enrichEndpointsFromDiscovered c ds w = (r, w')"
  shows "cview k w' = cview k w"
  using assms
  by (auto simp: enrichEndpointsFromDiscovered_def DiscoveredEndpointsByKey_def
      split: prod.splits sum.splits if_splits dest: nodes_kept)

end

section \<open>What a push does to the Peers of a target\<close>

definition same_plan :: "Peer list \<Rightarrow> Peer list \<Rightarrow> bool" where
  "same_plan ds ds' \<longleftrightarrow>
     map (\<lambda>p. p\<lparr>peer_Spec := (peer_Spec p)\<lparr>Endpoint := None\<rparr>\<rparr>) ds =
     map (\<lambda>p. p\<lparr>peer_Spec := (peer_Spec p)\<lparr>Endpoint := None\<rparr>\<rparr>) ds'"

text \<open>
  The plan of a mesh for one target: \<open>D s\<close> are the Peers desired for source \<open>s\<close>. No two of them share a name or a
  public key (\<open>separate\<close>), and a stored Peer with the name or the key of a desired one is the Peer of that very
  name, labelled for its source (\<open>consistent\<close>).
\<close>

definition separate :: "(string \<Rightarrow> Peer list) \<Rightarrow> string set \<Rightarrow> bool" where
  "separate D S \<longleftrightarrow>
     (\<forall>s \<in> S. distinct (map peer_Name (D s))) \<and>
     (\<forall>s \<in> S. \<forall>s' \<in> S. \<forall>p \<in> set (D s). \<forall>p' \<in> set (D s').
        peer_Name p = peer_Name p' \<or> PublicKey (peer_Spec p) = PublicKey (peer_Spec p') \<longrightarrow>
        s = s' \<and> peer_Name p = peer_Name p')"

definition consistent :: "string \<Rightarrow> (string \<Rightarrow> Peer list) \<Rightarrow> string set \<Rightarrow> (string \<Rightarrow> Peer option) \<Rightarrow> bool" where
  "consistent m D S v \<longleftrightarrow>
     (\<forall>s \<in> S. \<forall>p \<in> set (D s). \<forall>n q. v n = Some q \<longrightarrow>
        n = peer_Name p \<or> PublicKey (peer_Spec q) = PublicKey (peer_Spec p) \<longrightarrow>
        n = peer_Name p \<and> owned m s q)"

lemma same_plan_refl [simp]: "same_plan ds ds"
  by (simp add: same_plan_def)

lemma same_plan_facts:
  assumes "same_plan ds ds'"
  shows "map peer_Name ds = map peer_Name ds'" and "p \<in> set ds \<Longrightarrow> \<exists>p' \<in> set ds'. peer_Name p' = peer_Name p \<and>
      PublicKey (peer_Spec p') = PublicKey (peer_Spec p) \<and> peer_Labels p' = peer_Labels p"
proof -
  let ?e = "\<lambda>p. p\<lparr>peer_Spec := (peer_Spec p)\<lparr>Endpoint := None\<rparr>\<rparr>"
  have eq: "map ?e ds = map ?e ds'" using assms by (simp add: same_plan_def)
  then have "map (peer_Name \<circ> ?e) ds = map (peer_Name \<circ> ?e) ds'" by (metis map_map)
  then show "map peer_Name ds = map peer_Name ds'" by (simp add: comp_def)
  assume "p \<in> set ds"
  then have "?e p \<in> set (map ?e ds)" by simp
  then have "?e p \<in> set (map ?e ds')" unfolding eq .
  then obtain p' where p': "p' \<in> set ds'" "?e p = ?e p'" by auto
  from arg_cong [OF p'(2), of peer_Name] have "peer_Name p' = peer_Name p" by simp
  moreover from arg_cong [OF p'(2), of "\<lambda>p. PublicKey (peer_Spec p)"]
  have "PublicKey (peer_Spec p') = PublicKey (peer_Spec p)" by simp
  moreover from arg_cong [OF p'(2), of peer_Labels] have "peer_Labels p' = peer_Labels p" by simp
  moreover note p'(1)
  ultimately show "\<exists>p' \<in> set ds'. peer_Name p' = peer_Name p \<and>
      PublicKey (peer_Spec p') = PublicKey (peer_Spec p) \<and> peer_Labels p' = peer_Labels p" by blast
qed

lemma owned_unique: "owned m s q \<Longrightarrow> owned m s' q \<Longrightarrow> s = s'"
  by (simp add: owned_def selects_OrphanSelector)

lemma peerSpecEqual_key: "peerSpecEqual a b \<Longrightarrow> PublicKey a = PublicKey b"
  by (auto simp: peerSpecEqual_def split: if_splits)

context peer_api
begin

lemma push_ready:
  assumes sp: "same_plan ds (D s)" and s: "s \<in> S" and sep: "separate D S" and con: "consistent m D S (view w)"
    and lab: "\<forall>p \<in> set (D s). owned m s p"
  shows "map peer_Name ds = map peer_Name (D s)" "distinct (map peer_Name ds)"
    and "p \<in> set ds \<Longrightarrow> owned m s p"
    and "p \<in> set ds \<Longrightarrow> view w n = Some q \<Longrightarrow> n = peer_Name p \<or> PublicKey (peer_Spec q) = PublicKey (peer_Spec p) \<Longrightarrow>
      n = peer_Name p \<and> owned m s q"
    and "no_collision m s ds (view w)"
proof -
  show names: "map peer_Name ds = map peer_Name (D s)" by (rule same_plan_facts(1) [OF sp])
  show "distinct (map peer_Name ds)" using sep s names by (simp add: separate_def)
  show "owned m s p" if p: "p \<in> set ds" for p
  proof -
    obtain p' where "p' \<in> set (D s)" "peer_Labels p' = peer_Labels p" using same_plan_facts(2) [OF sp p] by blast
    moreover from this lab have "owned m s p'" by blast
    ultimately show ?thesis by (simp add: owned_def selects_def)
  qed
  show con': "n = peer_Name p \<and> owned m s q"
    if "p \<in> set ds" "view w n = Some q" "n = peer_Name p \<or> PublicKey (peer_Spec q) = PublicKey (peer_Spec p)" for p n q
    using same_plan_facts(2) [OF sp that(1)] con s that(2,3) unfolding consistent_def by metis
  show "no_collision m s ds (view w)"
    unfolding no_collision_def using con' by blast
qed

lemma push_effect:
  assumes r: "ReconcilePeers C m s ds w = (None, w')" and sp: "same_plan ds (D s)" and s: "s \<in> S"
    and sep: "separate D S" and con: "consistent m D S (view w)"
    and lab: "\<forall>p \<in> set (D s). owned m s p"
  shows "synced m s ds (view w')"
    and "n \<notin> peer_Name ` set (D s) \<Longrightarrow>
      view w' n = (case view w n of None \<Rightarrow> None | Some q \<Rightarrow> if owned m s q then None else Some q)"
proof -
  note ready = push_ready [where D = D and S = S, OF sp s sep con lab]
  note names = ready(1) and d = ready(2) and lab' = ready(3) and con' = ready(4) and nc = ready(5)
  show "synced m s ds (view w')" by (rule ReconcilePeers_synced [OF r d lab' nc])
  assume n: "n \<notin> peer_Name ` set (D s)"
  then have n': "n \<notin> peer_Name ` set ds" using names by (metis list.set_map)
  show "view w' n = (case view w n of None \<Rightarrow> None | Some q \<Rightarrow> if owned m s q then None else Some q)"
  proof (cases "\<exists>q. view w n = Some q \<and> owned m s q")
    case True
    then show ?thesis using ReconcilePeers_orphans [OF r _ _ n'] by auto
  next
    case False
    have "view w' n = view w n"
    proof (rule ReconcilePeers_frame [OF r n'])
      show "\<not> owned m s q" if "view w n = Some q" for q using False that by blast
      show "PublicKey (peer_Spec q) \<noteq> PublicKey (peer_Spec p)" if "p \<in> set ds" "view w n = Some q" for p q
        using con' [OF that] n' that(1) by blast
    qed
    with False show ?thesis by (auto split: option.splits)
  qed
qed

lemma push_keeps_plan:
  assumes r: "ReconcilePeers C m s ds w = (None, w')" and sp: "same_plan ds (D s)" and s: "s \<in> S"
    and sep: "separate D S" and con: "consistent m D S (view w)"
    and lab: "\<forall>p \<in> set (D s). owned m s p"
  shows "consistent m D S (view w')"
    and "s' \<in> S \<Longrightarrow> s' \<noteq> s \<Longrightarrow> same_plan ds' (D s') \<Longrightarrow> synced m s' ds' (view w) \<Longrightarrow> synced m s' ds' (view w')"
proof -
  note eff = push_effect [OF assms]
  have in_ds: "\<exists>p \<in> set (D s). peer_Name p = n \<and> PublicKey (peer_Spec q) = PublicKey (peer_Spec p) \<and> owned m s q"
    if "n \<in> peer_Name ` set (D s)" "view w' n = Some q" for n q
  proof -
    have "n \<in> peer_Name ` set ds" using that(1) same_plan_facts(1) [OF sp] by (metis list.set_map)
    then obtain p q' where p: "p \<in> set ds" "n = peer_Name p" "view w' n = Some q'" "owned m s q'"
      "peerSpecEqual (peer_Spec q') (peer_Spec p)" using eff(1) by (auto simp: synced_def)
    with that(2) peerSpecEqual_key [OF p(5)] same_plan_facts(2) [OF sp p(1)] show ?thesis by auto
  qed
  have out: "view w n = Some q \<and> \<not> owned m s q" if "n \<notin> peer_Name ` set (D s)" "view w' n = Some q" for n q
    using eff(2) [OF that(1)] that(2) by (auto split: option.splits if_splits)
  show "consistent m D S (view w')"
    unfolding consistent_def
  proof (intro ballI allI impI)
    fix s' p n q assume a: "s' \<in> S" "p \<in> set (D s')" "view w' n = Some q"
      "n = peer_Name p \<or> PublicKey (peer_Spec q) = PublicKey (peer_Spec p)"
    show "n = peer_Name p \<and> owned m s' q"
    proof (cases "n \<in> peer_Name ` set (D s)")
      case True
      then obtain p0 where "p0 \<in> set (D s)" "peer_Name p0 = n" "PublicKey (peer_Spec q) = PublicKey (peer_Spec p0)" "owned m s q"
        using in_ds a(3) by blast
      with a s sep show ?thesis unfolding separate_def by metis
    next
      case False
      with out a con show ?thesis unfolding consistent_def by metis
    qed
  qed
  assume s': "s' \<in> S" "s' \<noteq> s" "same_plan ds' (D s')" "synced m s' ds' (view w)"
  have apart: "peer_Name p \<notin> peer_Name ` set (D s)" if "p \<in> set ds'" for p
    using same_plan_facts(2) [OF s'(3) that] s'(1,2) s sep unfolding separate_def by (metis imageE)
  show "synced m s' ds' (view w')"
    unfolding synced_def
  proof (intro conjI ballI allI impI)
    fix p assume p: "p \<in> set ds'"
    then obtain q where q: "view w (peer_Name p) = Some q" "owned m s' q" "peerSpecEqual (peer_Spec q) (peer_Spec p)"
      using s'(4) by (auto simp: synced_def)
    then have "\<not> owned m s q" using owned_unique s'(2) by blast
    with eff(2) [OF apart [OF p]] q show "\<exists>q. view w' (peer_Name p) = Some q \<and> owned m s' q \<and> peerSpecEqual (peer_Spec q) (peer_Spec p)"
      by simp
  next
    fix n q assume q: "view w' n = Some q \<and> owned m s' q"
    show "n \<in> peer_Name ` set ds'"
    proof (cases "n \<in> peer_Name ` set (D s)")
      case True
      with in_ds q owned_unique s'(2) show ?thesis by blast
    next
      case False
      with out q s'(4) show ?thesis by (auto simp: synced_def)
    qed
  qed
qed

end

section \<open>The plan of a mesh\<close>

definition desired_for :: "ClusterMesh \<Rightarrow> (string \<Rightarrow> Node list) \<Rightarrow> string \<Rightarrow> Peer list" where
  "desired_for mesh N s =
     (case find (\<lambda>e. entry_Name e = s) (mesh_Clusters mesh) of
        None \<Rightarrow> []
      | Some e \<Rightarrow>
          (case buildDesiredPeers (mesh_Name mesh) e (fst (filterNodes (N s) e)) (meshPersistentKeepalive mesh) of
             Inl _ \<Rightarrow> []
           | Inr peers \<Rightarrow> peers))"

abbreviation cluster_names :: "ClusterMesh \<Rightarrow> string set" where
  "cluster_names mesh \<equiv> entry_Name ` set (mesh_Clusters mesh)"

definition plan_ok ::
  "'w ClusterMeshReconciler \<Rightarrow> (string \<Rightarrow> 'w \<Rightarrow> string \<Rightarrow> Peer option) \<Rightarrow> ClusterMesh \<Rightarrow> (string \<Rightarrow> Node list) \<Rightarrow> 'w \<Rightarrow> bool" where
  "plan_ok R cview mesh N w \<longleftrightarrow>
     (\<forall>t. reg_Client (r_Registry R) t \<noteq> None \<longrightarrow>
        consistent (mesh_Name mesh) (desired_for mesh N) (cluster_names mesh - {t}) (cview t w))"

text \<open>The plan for a target: the Peers of the source, their endpoints as the nodes of the target observed them.\<close>

definition seen :: "Node list \<Rightarrow> Peer list \<Rightarrow> Peer list" where
  "seen nodes ds = map (\<lambda>p.
     let key = PublicKey (peer_Spec p)
     in enrich_peer (case first_some (map (observed key) nodes) of None \<Rightarrow> [] | Some ep \<Rightarrow> [(key, ep)]) p) ds"

text \<open>
  The Peers of source \<open>s\<close> on target \<open>t\<close> are exactly the planned ones: with the endpoints that the nodes of \<open>t\<close> observed, or,
  if a list of those nodes can fail, with the configured endpoints.
\<close>

definition nodes_can_fail :: "'w ClusterMeshReconciler \<Rightarrow> string \<Rightarrow> bool" where
  "nodes_can_fail R t \<longleftrightarrow>
     (\<exists>c v err v'. reg_Client (r_Registry R) t = Some c \<and> cc_ListNodes c v = (Inl err, v'))"

definition pair_synced ::
  "'w ClusterMeshReconciler \<Rightarrow> ClusterMesh \<Rightarrow> (string \<Rightarrow> Node list) \<Rightarrow> string \<Rightarrow> string \<Rightarrow> (string \<Rightarrow> Peer option) \<Rightarrow> bool" where
  "pair_synced R mesh N s t v \<longleftrightarrow>
     synced (mesh_Name mesh) s (seen (N t) (desired_for mesh N s)) v \<or>
     nodes_can_fail R t \<and> synced (mesh_Name mesh) s (desired_for mesh N s) v"

lemma find_entry:
  "distinct (map entry_Name es) \<Longrightarrow> e \<in> set es \<Longrightarrow> find (\<lambda>x. entry_Name x = entry_Name e) es = Some e"
  by (induction es) (auto simp: image_iff)

lemma desired_for_entry:
  assumes "distinct (map entry_Name (mesh_Clusters mesh))" "e \<in> set (mesh_Clusters mesh)"
  shows "buildDesiredPeers (mesh_Name mesh) e (fst (filterNodes (N (entry_Name e)) e)) (meshPersistentKeepalive mesh) =
     Inr (desired_for mesh N (entry_Name e))"
  using filterNodes_builds [of "mesh_Name mesh" e "N (entry_Name e)" "meshPersistentKeepalive mesh"]
  by (auto simp: desired_for_def find_entry [OF assms])

lemma buildDesiredPeers_owned:
  assumes "buildDesiredPeers m entry nodes ka = Inr peers" "p \<in> set peers"
  shows "owned m (entry_Name entry) p" "peer_ResourceVersion p = ''''"
proof -
  obtain k where k: "k < length nodes" "p = peers ! k"
    using assms by (auto simp: in_set_conv_nth buildDesiredPeers_Inr_iff)
  note b = buildDesiredPeers_nth [OF assms(1) k(1), folded k(2)]
  show "owned m (entry_Name entry) p" using BuildPeer_content [OF b] by (simp add: owned_def selects_OrphanSelector)
  show "peer_ResourceVersion p = ''''" using b by (auto simp: BuildPeer_Inr_iff)
qed

lemma enrich_peer_cases:
  "enrich_peer d p = p \<or> (\<exists>ep. enrich_peer d p = p\<lparr>peer_Spec := (peer_Spec p)\<lparr>Endpoint := ep\<rparr>\<rparr>)"
  by (auto simp: enrich_peer_def Let_def split: option.splits sum.splits)

lemma enriched_same_plan: "same_plan (map (enrich_peer d) ds) ds"
proof -
  have "(enrich_peer d p)\<lparr>peer_Spec := (peer_Spec (enrich_peer d p))\<lparr>Endpoint := None\<rparr>\<rparr> =
      p\<lparr>peer_Spec := (peer_Spec p)\<lparr>Endpoint := None\<rparr>\<rparr>" for p
    using enrich_peer_cases [of d p] by auto
  then show ?thesis by (simp add: same_plan_def)
qed

lemma enrichEndpoints_same_plan:
  "enrichEndpointsFromDiscovered c ds w = (r, w') \<Longrightarrow> same_plan (case r of Inl e \<Rightarrow> ds | Inr ps \<Rightarrow> ps) ds"
  by (auto simp: enrichEndpointsFromDiscovered_def enriched_same_plan split: prod.splits sum.splits if_splits)

lemma enrich_peer_cong:
  "map_of d (PublicKey (peer_Spec p)) = map_of d' (PublicKey (peer_Spec p)) \<Longrightarrow> enrich_peer d p = enrich_peer d' p"
  by (simp add: enrich_peer_def)

lemma seen_same_plan: "same_plan (seen nodes ds) ds"
proof -
  have "(enrich_peer d p)\<lparr>peer_Spec := (peer_Spec (enrich_peer d p))\<lparr>Endpoint := None\<rparr>\<rparr> =
      p\<lparr>peer_Spec := (peer_Spec p)\<lparr>Endpoint := None\<rparr>\<rparr>" for p d
    using enrich_peer_cases [of d p] by auto
  then show ?thesis by (simp add: same_plan_def seen_def Let_def)
qed

lemma planned_same_plan: "ds = seen nodes ds' \<or> P \<and> ds = ds' \<Longrightarrow> same_plan ds ds'"
  using seen_same_plan by auto

lemma separate_mono: "separate D S \<Longrightarrow> T \<subseteq> S \<Longrightarrow> separate D T"
  unfolding separate_def by blast

section \<open>Pushing the plan\<close>

text \<open>A state in which the Peers of source \<open>s\<close> stay what they are on every target but possibly change elsewhere.\<close>

context mesh_world
begin

lemma enrich_seen:
  assumes "reg_Client (r_Registry R) t = Some c" "enrichEndpointsFromDiscovered c ds w = (r, w')" "cc_ListNodes c w = (Inr nl, w1)"
  shows "r = Inr (seen (fst (env w) t) ds)"
proof -
  have nl: "nl = fst (env w) t" using nodes_exact [OF assms(1,3)] .
  let ?d = "discovered_nodes (cc_Peers c) w1 [] nl"
  have d: "map_of ?d key = first_some (map (observed key) nl)" for key
    using peer_writes.map_of_discovered_nodes [OF peer_api.axioms(1) [OF cluster_api [OF assms(1)]], of w1 "[]" nl key] by simp
  have e: "enrich_peer ?d p = enrich_peer (case first_some (map (observed (PublicKey (peer_Spec p))) nl) of
      None \<Rightarrow> [] | Some ep \<Rightarrow> [(PublicKey (peer_Spec p), ep)]) p" for p
    by (rule enrich_peer_cong) (simp add: d split: option.split)
  have "seen nl ds = map (enrich_peer ?d) ds" by (simp add: seen_def Let_def e)
  moreover have "?d = [] \<Longrightarrow> map (enrich_peer ?d) ds = ds" by (auto simp: enrich_peer_def intro!: map_idI)
  ultimately show ?thesis
    using assms(2,3) nl by (auto simp: enrichEndpointsFromDiscovered_def DiscoveredEndpointsByKey_def split: if_splits)
qed

lemma enrich_planned:
  assumes "reg_Client (r_Registry R) t = Some c" "enrichEndpointsFromDiscovered c ds w = (r, w')"
  shows "(case r of Inl _ \<Rightarrow> ds | Inr ps \<Rightarrow> ps) = seen (fst (env w) t) ds \<or>
     nodes_can_fail R t \<and> (case r of Inl _ \<Rightarrow> ds | Inr ps \<Rightarrow> ps) = ds"
proof (cases "cc_ListNodes c w")
  case (Pair l w1)
  show ?thesis
  proof (cases l)
    case (Inl e)
    with assms(1) Pair have "nodes_can_fail R t" by (auto simp: nodes_can_fail_def)
    with assms(2) Pair Inl show ?thesis
      by (auto simp: enrichEndpointsFromDiscovered_def DiscoveredEndpointsByKey_def)
  next
    case (Inr nl)
    with enrich_seen [OF assms] Pair show ?thesis by simp
  qed
qed

lemma push_targets_sound:
  assumes "push_targets R mesh e (desired_for mesh N (entry_Name e)) tgts w = (None, w')"
    and "distinct (map entry_Name (mesh_Clusters mesh))" "e \<in> set (mesh_Clusters mesh)"
    and "separate (desired_for mesh N) (cluster_names mesh)"
    and "distinct (map entry_Name tgts)" "plan_ok R cview mesh N w" "fst (env w) = N"
  shows "plan_ok R cview mesh N w' \<and>
     (\<forall>t \<in> entry_Name ` set tgts. t \<noteq> entry_Name e \<longrightarrow> reg_Client (r_Registry R) t \<noteq> None \<longrightarrow>
        pair_synced R mesh N (entry_Name e) t (cview t w')) \<and>
     (\<forall>t. t \<notin> entry_Name ` set tgts \<longrightarrow> cview t w' = cview t w) \<and>
     (\<forall>t s. s \<in> cluster_names mesh - {t, entry_Name e} \<longrightarrow> pair_synced R mesh N s t (cview t w) \<longrightarrow>
        pair_synced R mesh N s t (cview t w'))"
  using assms(1,5,6,7)
proof (induction tgts arbitrary: w)
  case Nil
  then show ?case by simp
next
  case (Cons tgt tgts)
  let ?s = "entry_Name e" and ?t = "entry_Name tgt" and ?m = "mesh_Name mesh" and ?D = "desired_for mesh N"
  show ?case
  proof (cases "?t = ?s \<or> reg_Client (r_Registry R) ?t = None")
    case True
    then have "push_targets R mesh e (?D ?s) tgts w = (None, w')" using Cons.prems(1) by (auto split: if_splits)
    from Cons.IH [OF this] Cons.prems(2-4) True show ?thesis by auto
  next
    case False
    then obtain c where c: "reg_Client (r_Registry R) ?t = Some c" "?t \<noteq> ?s" by auto
    obtain r w1 where en: "enrichEndpointsFromDiscovered c (?D ?s) w = (r, w1)" by fastforce
    define ds where "ds = (case r of Inl _ \<Rightarrow> ?D ?s | Inr ps \<Rightarrow> ps)"
    have planned: "ds = seen (N ?t) (?D ?s) \<or> nodes_can_fail R ?t \<and> ds = ?D ?s"
      using enrich_planned [OF c(1) en] Cons.prems(4) by (simp add: ds_def)
    then have sp: "same_plan ds (?D ?s)" by (rule planned_same_plan)
    have v1: "cview k w1 = cview k w" for k using discovered_kept [OF c(1) en] .
    obtain w2 where r: "ReconcilePeers (cc_Peers c) ?m ?s ds w1 = (None, w2)"
      and rest: "push_targets R mesh e (?D ?s) tgts w2 = (None, w')"
      using Cons.prems(1) c en by (auto simp: ds_def Let_def split: prod.splits option.splits)
    let ?S = "cluster_names mesh - {?t}"
    have S: "?s \<in> ?S" using assms(3) c(2) by auto
    have sep: "separate ?D ?S" using assms(4) by (rule separate_mono) auto
    have con: "consistent ?m ?D ?S (cview ?t w1)" using Cons.prems(3) c(1) v1 by (simp add: plan_ok_def)
    have lab: "\<forall>p \<in> set (?D ?s). owned ?m ?s p"
      using buildDesiredPeers_owned(1) [OF desired_for_entry [OF assms(2,3)]] by blast
    note api = cluster_api [OF c(1)]
    have other: "cview k w2 = cview k w" if "k \<noteq> ?t" for k
      using ReconcilePeers_keeps [OF other_kept [OF c(1) that] r] v1 by simp
    have "consistent ?m ?D ?S (cview ?t w2)" by (rule peer_api.push_keeps_plan(1) [OF api r sp S sep con lab])
    then have ok: "plan_ok R cview mesh N w2" using Cons.prems(3) other by (auto simp: plan_ok_def) (metis other)
    have done1: "pair_synced R mesh N ?s ?t (cview ?t w2)"
      using peer_api.push_effect(1) [OF api r sp S sep con lab] planned by (auto simp: pair_synced_def)
    have keep1: "pair_synced R mesh N s t (cview t w2)"
      if "s \<in> cluster_names mesh - {t, ?s}" "pair_synced R mesh N s t (cview t w)" for t s
    proof (cases "t = ?t")
      case True
      then show ?thesis
        using that v1 peer_api.push_keeps_plan(2) [OF api r sp S sep con lab, of s] seen_same_plan
        by (auto simp: pair_synced_def)
    next
      case False
      with other that show ?thesis by simp
    qed
    have "env w2 = env w" using ReconcilePeers_keeps [OF env_peers [OF c(1)] r] discovered_env [OF c(1) en] by simp
    then have "fst (env w2) = N" using Cons.prems(4) by simp
    note IH = Cons.IH [OF rest _ ok this]
    have "cview ?t w' = cview ?t w2" using IH Cons.prems(2) by simp
    with IH Cons.prems(2) done1 keep1 other show ?thesis by auto
  qed
qed

end

context mesh_world
begin

lemma reconcile_sources_sound:
  assumes "reconcile_sources R mesh srcs sts inc w = (Inr res, w')"
    and d: "distinct (map entry_Name (mesh_Clusters mesh))"
    and sep: "separate (desired_for mesh N) (cluster_names mesh)"
    and "set srcs \<subseteq> set (mesh_Clusters mesh)" "distinct (map entry_Name srcs)" "plan_ok R cview mesh N w"
      "fst (env w) = N"
  shows "env w' = env w \<and> (\<forall>e \<in> set srcs. reg_Client (r_Registry R) (entry_Name e) \<noteq> None \<longrightarrow>
        (\<forall>t \<in> cluster_names mesh. t \<noteq> entry_Name e \<longrightarrow> reg_Client (r_Registry R) t \<noteq> None \<longrightarrow>
           pair_synced R mesh N (entry_Name e) t (cview t w'))) \<and>
     (\<forall>t s. s \<in> cluster_names mesh - {t} \<longrightarrow> s \<notin> entry_Name ` set srcs \<longrightarrow>
        pair_synced R mesh N s t (cview t w) \<longrightarrow> pair_synced R mesh N s t (cview t w'))"
  using assms(1,4-7)
proof (induction srcs arbitrary: w sts inc)
  case Nil
  then show ?case by simp
next
  case (Cons e srcs)
  let ?s = "entry_Name e"
  have e: "e \<in> set (mesh_Clusters mesh)" "?s \<notin> entry_Name ` set srcs" using Cons.prems(2,3) by auto
  show ?case
  proof (cases "reg_Client (r_Registry R) ?s")
    case None
    then have "reconcile_sources R mesh srcs sts True w = (Inr res, w')" using Cons.prems(1) by simp
    from Cons.IH [OF this] Cons.prems(2-5) None show ?thesis by auto
  next
    case (Some c)
    obtain ns w1 where ns: "cc_ListNodes c w = (Inr ns, w1)"
      using Cons.prems(1) Some by (auto simp: listNodes_def split: prod.splits sum.splits)
    have N: "ns = N ?s" using nodes_exact [OF Some ns] Cons.prems(5) by simp
    obtain v sk tr ev where f: "filterNodes ns e = (v, sk, tr, ev)" by (cases "filterNodes ns e") auto
    define w2 where "w2 = fold (r_Eventf R mesh) ev w1"
    have v2: "cview k w2 = cview k w" for k unfolding w2_def using events_kept nodes_kept [OF Some ns] by simp
    have b: "buildDesiredPeers (mesh_Name mesh) e v (meshPersistentKeepalive mesh) = Inr (desired_for mesh N ?s)"
      using desired_for_entry [OF d e(1), of N] f N by simp
    obtain w3 sts' inc' where p: "push_targets R mesh e (desired_for mesh N ?s) (mesh_Clusters mesh) w2 = (None, w3)"
      "reconcile_sources R mesh srcs sts' inc' w3 = (Inr res, w')"
      using Cons.prems(1) Some ns f b
      by (auto simp: listNodes_def pushPeersToTargets_def Let_def w2_def [symmetric] split: prod.splits option.splits)
    have ok2: "plan_ok R cview mesh N w2" using Cons.prems(4) v2 by (simp add: plan_ok_def)
    have env3: "env w3 = env w"
      using push_targets_env [OF p(1)] events_env env_nodes [OF Some ns] by (simp add: w2_def)
    with Cons.prems(5) have N3: "fst (env w3) = N" by simp
    have "fst (env w2) = N"
      using events_env env_nodes [OF Some ns] Cons.prems(5) by (simp add: w2_def)
    note push = push_targets_sound [OF p(1) d e(1) sep d ok2 this]
    from push have ok3: "plan_ok R cview mesh N w3" by blast
    note IH = Cons.IH [OF p(2) _ _ ok3 N3]
    have "pair_synced R mesh N ?s t (cview t w')"
      if "t \<in> cluster_names mesh" "t \<noteq> ?s" "reg_Client (r_Registry R) t \<noteq> None" for t
      using push IH that e Cons.prems(2,3) by auto
    moreover have "pair_synced R mesh N s t (cview t w')"
      if "s \<in> cluster_names mesh - {t}" "s \<notin> entry_Name ` set (e # srcs)" "pair_synced R mesh N s t (cview t w)" for t s
      using push IH that v2 Cons.prems(2,3) by auto
    ultimately show ?thesis using IH Cons.prems(2,3) env3 by auto
  qed
qed

end

section \<open>The sweeps keep what is synced\<close>

lemma synced_shrink:
  assumes "synced m s ds v" and "\<And>n q. v n = Some q \<Longrightarrow> owned m s q \<Longrightarrow> v' n = Some q"
    and "\<And>n q. v' n = Some q \<Longrightarrow> v n = Some q"
  shows "synced m s ds v'"
  using assms unfolding synced_def by metis

lemma each_invariant:
  assumes "each f xs w = (es, w')" "I w" "\<And>x w es w'. x \<in> set xs \<Longrightarrow> f x w = (es, w') \<Longrightarrow> I w \<Longrightarrow> I w'"
  shows "I w'"
  using assms
proof (induction xs arbitrary: w es)
  case (Cons x xs)
  obtain es1 w1 es2 where s: "f x w = (es1, w1)" "each f xs w1 = (es2, w')"
    using Cons.prems(1) by (auto split: prod.splits)
  have "I w1" by (rule Cons.prems(3) [OF _ s(1) Cons.prems(2)]) simp
  show ?case by (rule Cons.IH [OF s(2) \<open>I w1\<close>]) (rule Cons.prems(3), auto)
qed simp

context peer_api
begin

lemma delete_shrinks: "cl_Delete C p w = (e, w') \<Longrightarrow> view w' n = view w n \<or> view w' n = None"
  using delete_any [of p w e w'] delete_frame [of p w e w' n] by (cases "n = peer_Name p") auto

lemma DeleteStale_shrinks:
  assumes "DeleteStaleSourceClusters C m valid w = (r, w')"
  shows "view w' n = view w n \<or> view w' n = None"
  using assms
proof (cases rule: DeleteStale_run)
  case (ran items w1 es)
  show ?thesis
  proof (rule each_invariant [OF ran(2), where I = "\<lambda>v. view v n = view w n \<or> view v n = None"])
    show "view w1 n = view w n \<or> view w1 n = None" using list_frame [OF ran(1)] by simp
    show "view v' n = view w n \<or> view v' n = None"
      if "stale_entry C valid x v = (es', v')" "view v n = view w n \<or> view v n = None" for x v es' v'
    proof -
      have "view v' n = view v n \<or> view v' n = None"
        using that(1) by (auto simp: stale_entry_def Let_def split: if_splits prod.splits option.splits dest: delete_shrinks [of _ _ _ _ n])
      with that(2) show ?thesis by auto
    qed
  qed
qed simp

lemma DeleteStale_synced:
  assumes r: "DeleteStaleSourceClusters C m valid w = (r, w')" and "s \<in> set valid" "synced m s ds (view w)"
  shows "synced m s ds (view w')"
proof (rule synced_shrink [OF assms(3)])
  show "view w' n = Some q" if "view w n = Some q" "owned m s q" for n q
  proof -
    have "view w' n = view w n"
      using that assms(2)
      by (intro DeleteStale_frame [OF r]) (auto simp: owned_def selects_OrphanSelector map_get_def)
    with that(1) show ?thesis by simp
  qed
  show "view w n = Some q" if "view w' n = Some q" for n q using DeleteStale_shrinks [OF r, of n] that by auto
qed

lemma orphan_peer_frame:
  assumes "orphan_peer C living p w = (es, w')" "n \<noteq> peer_Name p \<or> map_get (peer_Labels p) LabelMesh \<in> insert '''' (set living)"
  shows "view w' n = view w n"
  using assms
  by (auto simp: orphan_peer_def Let_def split: if_splits prod.splits option.splits dest: delete_frame [where n = n])

lemma orphan_peer_shrinks:
  assumes "orphan_peer C living p w = (es, w')"
  shows "view w' n = view w n \<or> view w' n = None"
  using assms
  by (auto simp: orphan_peer_def Let_def split: if_splits prod.splits option.splits dest: delete_shrinks [of _ _ _ _ n])

lemma sweep_run:
  assumes "sweepOrphanPeersInCluster C living w = (es, w')"
  obtains (failed) e where "es = [e]" "view w' = view w"
  | (ran) items w1 where "cl_List C [] w = (Inr items, w1)" "each (orphan_peer C living) items w1 = (es, w')"
  using assms by (auto simp: sweepOrphanPeersInCluster_def split: prod.splits sum.splits dest: list_frame)

lemma sweep_synced:
  assumes r: "sweepOrphanPeersInCluster C living w = (es, w')" and m: "m \<in> set living" "synced m s ds (view w)"
  shows "synced m s ds (view w')"
  using r
proof (cases rule: sweep_run)
  case (ran items w1)
  have v1: "view w1 = view w" using ran(1) by (rule list_frame)
  show ?thesis
  proof (rule synced_shrink [OF m(2)])
    show "view w' n = Some q" if q: "view w n = Some q" "owned m s q" for n q
    proof -
      have "view w' n = view w1 n"
      proof (rule each_preserves [OF ran(2), where g = "\<lambda>w. view w n"])
        fix x v es' v' assume x: "x \<in> set items" "orphan_peer C living x v = (es', v')"
        have "view w (peer_Name x) = Some x" using list_exact [OF ran(1)] x(1) by simp
        then have "n \<noteq> peer_Name x \<or> x = q" using q(1) by auto
        then show "view v' n = view v n" using q(2) m(1)
          by (intro orphan_peer_frame [OF x(2)]) (auto simp: owned_def selects_OrphanSelector map_get_def)
      qed
      with v1 q(1) show ?thesis by simp
    qed
    show "view w n = Some q" if "view w' n = Some q" for n q
    proof -
      have "view w' n = view w n \<or> view w' n = None"
      proof (rule each_invariant [OF ran(2), where I = "\<lambda>v. view v n = view w n \<or> view v n = None"])
        show "view w1 n = view w n \<or> view w1 n = None" using v1 by simp
        show "view v' n = view w n \<or> view v' n = None"
          if "orphan_peer C living x v = (es', v')" "view v n = view w n \<or> view v n = None" for x v es' v'
          using orphan_peer_shrinks [OF that(1), of n] that(2) by auto
      qed
      with that show ?thesis by auto
    qed
  qed
qed (use m in simp)

end

context mesh_world
begin

lemma stale_targets_synced:
  assumes "s \<in> set valid" "t \<in> set valid" "pair_synced R mesh N s t (cview t w)"
  shows "pair_synced R mesh N s t (cview t (stale_targets R mesh valid names w))"
  using assms(3)
proof (induction names arbitrary: w)
  case (Cons n names)
  show ?case
  proof (cases "reg_Client (r_Registry R) n")
    case (Some c)
    obtain e w1 where d: "DeleteStaleSourceClusters (cc_Peers c) (mesh_Name mesh) (if n \<in> set valid then valid else []) w = (e, w1)"
      by fastforce
    have "pair_synced R mesh N s t (cview t w1)"
    proof (cases "n = t")
      case True
      with d assms Cons.prems peer_api.DeleteStale_synced [OF cluster_api [OF Some]] show ?thesis
        by (auto simp: pair_synced_def)
    next
      case False
      with DeleteStale_keeps [OF other_kept [OF Some] d, of t] Cons.prems show ?thesis by simp
    qed
    from Cons.IH [OF this] show ?thesis using Some d by (simp add: Let_def)
  qed (use Cons in simp)
qed simp

lemma orphan_targets_synced:
  assumes "mesh_Name mesh \<in> set living" "pair_synced R mesh N s t (cview t w)"
  shows "pair_synced R mesh N s t (cview t (orphan_targets R living names w))"
  using assms(2)
proof (induction names arbitrary: w)
  case (Cons n names)
  show ?case
  proof (cases "reg_Client (r_Registry R) n")
    case (Some c)
    obtain es w1 where d: "sweepOrphanPeersInCluster (cc_Peers c) living w = (es, w1)" by fastforce
    have "pair_synced R mesh N s t (cview t w1)"
    proof (cases "n = t")
      case True
      with d assms(1) Cons.prems peer_api.sweep_synced [OF cluster_api [OF Some]] show ?thesis
        by (fastforce simp: pair_synced_def)
    next
      case False
      with sweepOrphanPeers_keeps [OF other_kept [OF Some] d, of t] Cons.prems show ?thesis by simp
    qed
    from Cons.IH [OF this] show ?thesis using Some d by simp
  qed (use Cons in simp)
qed simp

lemma cleanup_synced:
  assumes "s \<in> cluster_names mesh" "t \<in> cluster_names mesh" "pair_synced R mesh N s t (cview t w)"
    and living: "mesh_key mesh \<in> snd (env w)"
  shows "pair_synced R mesh N s t (cview t (cleanupOrphanMeshPeers R ns (cleanupStaleSourceClusters R mesh w)))"
proof -
  let ?w = "cleanupStaleSourceClusters R mesh w"
  have st: "pair_synced R mesh N s t (cview t ?w)"
    using assms(1-3) by (simp add: cleanupStaleSourceClusters_def stale_targets_synced)
  obtain l w1 where c: "collectLivingMeshes R ?w = (l, w1)" by fastforce
  have w1: "cview t w1 = cview t ?w"
    using c by (auto simp: collectLivingMeshes_def split: prod.splits sum.splits dest: meshes_kept)
  show ?thesis
  proof (cases l)
    case None
    with c st w1 show ?thesis by (simp add: cleanupOrphanMeshPeers_def)
  next
    case (Some names)
    have "env ?w = env w" by (simp add: cleanupStaleSourceClusters_def stale_targets_env)
    with Some living have "mesh_Name mesh \<in> set names"
      using c meshes_exact [of ?w] by (fastforce simp: collectLivingMeshes_def split: prod.splits sum.splits)
    with c st w1 Some show ?thesis by (simp add: cleanupOrphanMeshPeers_def orphan_targets_synced)
  qed
qed

lemma setCondition_simps [simp]:
  "mesh_Name (setCondition R' mesh a b c d) = mesh_Name mesh"
  "mesh_Clusters (setCondition R' mesh a b c d) = mesh_Clusters mesh"
  "mesh_Namespace (setCondition R' mesh a b c d) = mesh_Namespace mesh"
  by (simp_all add: setCondition_def)

lemma keepalive_of_condition [simp]:
  "meshPersistentKeepalive (setCondition R' mesh a b c d) = meshPersistentKeepalive mesh"
  by (simp add: meshPersistentKeepalive_def)

lemma desired_of_condition [simp]: "desired_for (setCondition R' mesh a b c d) N = desired_for mesh N"
  by (rule ext) (auto simp: desired_for_def split: option.split)

lemma plan_of_condition [simp]:
  "pair_synced R (setCondition R' mesh a b c d) N = pair_synced R mesh N"
  "plan_ok R cview (setCondition R' mesh a b c d) N = plan_ok R cview mesh N"
  by ((rule ext)+, simp add: pair_synced_def, (rule ext)+, simp add: plan_ok_def)

lemma overlap_kept:
  "validateMeshNetworks R mesh w = (r, w') \<Longrightarrow> cview k w' = cview k w"
  "setOverlapCondition R mesh msg w = (e, w') \<Longrightarrow> cview k w' = cview k w"
  "updateStatus R mesh sts w = (e, w') \<Longrightarrow> cview k w' = cview k w"
  by (auto simp: validateMeshNetworks_def setOverlapCondition_def updateStatus_def Let_def
      split: prod.splits sum.splits dest: meshes_kept status_kept)

lemma reconcile_live:
  assumes "reconcile R req w = ((st, None), w')" "st \<noteq> reconcileStateDone" "r_Get R req w = (Inr mesh, w1)"
  obtains w2 sts inc w3 mesh' where "mesh' = setCondition R mesh ''NetworksOverlap'' ''False'' ''NoOverlap'' (Newf ''all CIDRs are disjoint'' [])"
    "\<And>k. cview k w2 = cview k w" "env w2 = env w" "reconcileAllClusters R mesh' w2 = (Inr (sts, inc), w3)"
    "\<And>k. cview k w' = cview k (cleanupOrphanMeshPeers R (mesh_Namespace mesh') (cleanupStaleSourceClusters R mesh' w3))"
    "st = (if inc then reconcileStateBootstrap else reconcileStateSynced)"
proof -
  have nd: "\<not> mesh_Deleting mesh" "r_ContainsFinalizer R mesh finalizerName"
    using assms by (auto simp: reconcile_def split: if_splits prod.splits option.splits)
  obtain ov w2 where v: "validateMeshNetworks R mesh w1 = (ov, w2)" by fastforce
  have "ov = None" using assms nd v by (auto simp: reconcile_def split: option.splits prod.splits)
  let ?mesh = "setCondition R mesh ''NetworksOverlap'' ''False'' ''NoOverlap'' (Newf ''all CIDRs are disjoint'' [])"
  obtain sts inc w3 where a: "reconcileAllClusters R ?mesh w2 = (Inr (sts, inc), w3)"
    using assms nd v \<open>ov = None\<close> by (auto simp: reconcile_def Let_def split: prod.splits sum.splits)
  let ?w4 = "cleanupOrphanMeshPeers R (mesh_Namespace ?mesh) (cleanupStaleSourceClusters R ?mesh w3)"
  have u: "updateStatus R ?mesh sts ?w4 = (None, w')" "st = (if inc then reconcileStateBootstrap else reconcileStateSynced)"
    using assms nd v \<open>ov = None\<close> a by (auto simp: reconcile_def Let_def split: prod.splits)
  show thesis
  proof (rule that [OF refl _ _ a _ u(2)])
    show "env w2 = env w"
      using v env_get [OF assms(3)] by (auto simp: validateMeshNetworks_def split: prod.splits sum.splits dest: env_meshes)
    show "cview k w2 = cview k w" for k using overlap_kept(1) [OF v] get_kept [OF assms(3)] by simp
    show "cview k w' = cview k ?w4" for k using overlap_kept(3) [OF u(1)] .
  qed
qed

lemma reconcile_syncs:
  assumes r: "reconcile R req w = ((st, None), w')" "st \<noteq> reconcileStateDone" "r_Get R req w = (Inr mesh, w1)"
    and d: "distinct (map entry_Name (mesh_Clusters mesh))" and N: "fst (env w) = N"
    and sep: "separate (desired_for mesh N) (cluster_names mesh)" and ok: "plan_ok R cview mesh N w"
    and st: "s \<in> cluster_names mesh" "t \<in> cluster_names mesh" "s \<noteq> t"
      "reg_Client (r_Registry R) s \<noteq> None" "reg_Client (r_Registry R) t \<noteq> None"
  shows "pair_synced R mesh N s t (cview t w')"
proof -
  obtain w2 sts inc w3 mesh' where x: "mesh' = setCondition R mesh ''NetworksOverlap'' ''False'' ''NoOverlap'' (Newf ''all CIDRs are disjoint'' [])"
    "\<And>k. cview k w2 = cview k w" "env w2 = env w" "reconcileAllClusters R mesh' w2 = (Inr (sts, inc), w3)"
    "\<And>k. cview k w' = cview k (cleanupOrphanMeshPeers R (mesh_Namespace mesh') (cleanupStaleSourceClusters R mesh' w3))"
    using r by (rule reconcile_live) (rule that)
  have same: "mesh_Clusters mesh' = mesh_Clusters mesh" "mesh_Name mesh' = mesh_Name mesh" unfolding x(1) by simp_all
  have ok2: "plan_ok R cview mesh' N w2" "fst (env w2) = N" using ok N x(1,2,3) by (simp_all add: plan_ok_def)
  obtain e where e: "e \<in> set (mesh_Clusters mesh')" "s = entry_Name e" using st(1) same by auto
  note sound = reconcile_sources_sound [OF x(4) [unfolded reconcileAllClusters_def], of N]
  have pair: "pair_synced R mesh' N s t (cview t w3)"
    using sound d sep ok2 e st unfolding x(1) by auto
  have "env w3 = env w" using sound d sep ok2 x(3) unfolding x(1) by simp
  with get_exact [OF r(3)] have "mesh_key mesh' \<in> snd (env w3)" unfolding x(1) by simp
  with pair have "pair_synced R mesh' N s t (cview t w')"
    unfolding x(5) using st by (intro cleanup_synced) (simp_all add: same)
  then show ?thesis unfolding x(1) by simp
qed

end

end
