(* ===== verification/MeshHealth.thy ===== *)
theory MeshHealth
  imports ControllerFacts
begin

text \<open>
  Progress of the controller: in a world whose API servers answer and accept valid requests, pushing the plan of a
  mesh, and with it the whole reconcile of a living mesh, ends without an error.
\<close>

lemma same_plan_version:
  assumes "same_plan ds ds'" "p \<in> set ds"
  shows "\<exists>p' \<in> set ds'. peer_ResourceVersion p' = peer_ResourceVersion p"
proof -
  let ?e = "\<lambda>p. p\<lparr>peer_Spec := (peer_Spec p)\<lparr>Endpoint := None\<rparr>\<rparr>"
  have "?e p \<in> ?e ` set ds" using assms(2) by simp
  also have "?e ` set ds = ?e ` set ds'" using assms(1) unfolding same_plan_def by (metis list.set_map)
  finally obtain p' where p': "p' \<in> set ds'" "?e p = ?e p'" by auto
  from arg_cong [OF p'(2), of peer_ResourceVersion] p'(1) show ?thesis by force
qed

context reliable_api
begin

lemma push_total:
  assumes "same_plan ds (D s)" "s \<in> S" "separate D S" "consistent m D S (view w)"
    and "\<forall>p \<in> set (D s). owned m s p \<and> peer_ResourceVersion p = ''''"
  shows "\<exists>w'. ReconcilePeers C m s ds w = (None, w')"
proof -
  have "\<forall>p \<in> set (D s). owned m s p" using assms(5) by blast
  note ready = push_ready [where D = D and S = S, OF assms(1-4) this]
  show ?thesis
  proof (rule ReconcilePeers_total [OF ready(2) _ ready(5)])
    show "peer_ResourceVersion p = ''''" if "p \<in> set ds" for p
      using same_plan_version [OF assms(1) that] assms(5) by force
    show "owned m s q" if "p \<in> set ds" "view w (peer_Name p) = Some q" for p q
      using ready(4) [OF that(1) that(2)] by blast
  qed
qed

end

locale healthy_world = mesh_world +
  assumes reliable: "reg_Client (r_Registry R) n = Some c \<Longrightarrow> reliable_api (cc_Peers c) (cview n)"
    and nodes_total: "reg_Client (r_Registry R) n = Some c \<Longrightarrow> \<exists>nl w'. cc_ListNodes c w = (Inr nl, w')"
    and meshes_total: "\<exists>ml w'. r_List R None w = (Inr ml, w')"
    and status_total: "mesh_key mesh \<in> snd (env w) \<Longrightarrow> \<exists>w'. r_StatusUpdate R mesh w = (None, w')"
begin

lemma push_targets_total:
  assumes d: "distinct (map entry_Name (mesh_Clusters mesh))" and e: "e \<in> set (mesh_Clusters mesh)"
    and sep: "separate (desired_for mesh N) (cluster_names mesh)"
    and "distinct (map entry_Name tgts)" "plan_ok R cview mesh N w" "fst (env w) = N"
  shows "\<exists>w'. push_targets R mesh e (desired_for mesh N (entry_Name e)) tgts w = (None, w')"
  using assms(4-6)
proof (induction tgts arbitrary: w)
  case (Cons tgt tgts)
  let ?s = "entry_Name e" and ?t = "entry_Name tgt" and ?m = "mesh_Name mesh" and ?D = "desired_for mesh N"
  show ?case
  proof (cases "?t = ?s \<or> reg_Client (r_Registry R) ?t = None")
    case True
    with Cons.IH [of w] Cons.prems show ?thesis by auto
  next
    case False
    then obtain c where c: "reg_Client (r_Registry R) ?t = Some c" "?t \<noteq> ?s" by auto
    obtain r w1 where en: "enrichEndpointsFromDiscovered c (?D ?s) w = (r, w1)" by fastforce
    define ds where "ds = (case r of Inl _ \<Rightarrow> ?D ?s | Inr ps \<Rightarrow> ps)"
    have sp: "same_plan ds (?D ?s)" unfolding ds_def using en by (rule enrichEndpoints_same_plan)
    have con: "consistent ?m ?D (cluster_names mesh - {?t}) (cview ?t w1)"
      using Cons.prems(2) c(1) discovered_kept [OF c(1) en] by (simp add: plan_ok_def)
    have lab: "\<forall>p \<in> set (?D ?s). owned ?m ?s p \<and> peer_ResourceVersion p = ''''"
      using buildDesiredPeers_owned [OF desired_for_entry [OF d e]] by blast
    obtain w2 where r: "ReconcilePeers (cc_Peers c) ?m ?s ds w1 = (None, w2)"
      using reliable_api.push_total [OF reliable [OF c(1)] sp _ separate_mono [OF sep] con lab] e c(2) by auto
    have one: "push_targets R mesh e (?D ?s) [tgt] w = (None, w2)"
      using c en r by (simp add: ds_def Let_def)
    have "plan_ok R cview mesh N w2" using push_targets_sound [OF one d e sep _ Cons.prems(2,3)] by simp
    moreover have "fst (env w2) = N" using push_targets_env [OF one] Cons.prems(3) by simp
    ultimately show ?thesis using Cons.IH [of w2] Cons.prems(1) c en r by (auto simp: ds_def Let_def)
  qed
qed simp

lemma reconcile_sources_total:
  assumes d: "distinct (map entry_Name (mesh_Clusters mesh))"
    and sep: "separate (desired_for mesh N) (cluster_names mesh)"
    and "set srcs \<subseteq> set (mesh_Clusters mesh)" "plan_ok R cview mesh N w" "fst (env w) = N"
  shows "\<exists>res w'. reconcile_sources R mesh srcs sts inc w = (Inr res, w')"
  using assms(3-5)
proof (induction srcs arbitrary: w sts inc)
  case (Cons e srcs)
  let ?s = "entry_Name e"
  have e: "e \<in> set (mesh_Clusters mesh)" using Cons.prems(1) by simp
  show ?case
  proof (cases "reg_Client (r_Registry R) ?s")
    case None
    with Cons.IH [of w sts True] Cons.prems show ?thesis by simp
  next
    case (Some c)
    obtain ns w1 where ns: "cc_ListNodes c w = (Inr ns, w1)" using nodes_total [OF Some] by blast
    have N: "ns = N ?s" using nodes_exact [OF Some ns] Cons.prems(3) by simp
    obtain v sk tr ev where f: "filterNodes ns e = (v, sk, tr, ev)" by (cases "filterNodes ns e") auto
    define w2 where "w2 = fold (r_Eventf R mesh) ev w1"
    have v2: "cview k w2 = cview k w" for k unfolding w2_def using events_kept nodes_kept [OF Some ns] by simp
    have ok2: "plan_ok R cview mesh N w2" using Cons.prems(2) v2 by (simp add: plan_ok_def)
    have env2: "fst (env w2) = N" using events_env env_nodes [OF Some ns] Cons.prems(3) by (simp add: w2_def)
    have b: "buildDesiredPeers (mesh_Name mesh) e v (meshPersistentKeepalive mesh) = Inr (desired_for mesh N ?s)"
      using desired_for_entry [OF d e, of N] f N by simp
    obtain w3 where p: "push_targets R mesh e (desired_for mesh N ?s) (mesh_Clusters mesh) w2 = (None, w3)"
      using push_targets_total [OF d e sep d ok2 env2] by blast
    have "plan_ok R cview mesh N w3" using push_targets_sound [OF p d e sep d ok2 env2] by blast
    moreover have "fst (env w3) = N" using push_targets_env [OF p] env2 by simp
    ultimately show ?thesis using Cons.IH [of w3] Cons.prems(1) Some ns f b p
      by (simp add: listNodes_def pushPeersToTargets_def Let_def w2_def [symmetric])
  qed
qed simp

lemma cleanup_env: "env (cleanupOrphanMeshPeers R ns (cleanupStaleSourceClusters R mesh w)) = env w"
proof -
  have sweep: "env (orphan_targets R living names w) = env w" for living names w
  proof (induction names arbitrary: w)
    case (Cons n names)
    show ?case
    proof (cases "reg_Client (r_Registry R) n")
      case (Some c)
      obtain es w1 where d: "sweepOrphanPeersInCluster (cc_Peers c) living w = (es, w1)" by fastforce
      with sweepOrphanPeers_keeps [OF env_peers [OF Some] d] Cons Some show ?thesis by simp
    qed (use Cons in simp)
  qed simp
  show ?thesis
    by (auto simp: cleanupOrphanMeshPeers_def collectLivingMeshes_def cleanupStaleSourceClusters_def stale_targets_env sweep
        split: prod.splits sum.splits option.splits dest: env_meshes)
qed

lemma reconcile_total:
  assumes g: "r_Get R req w = (Inr mesh, w1)" "\<not> mesh_Deleting mesh" "r_ContainsFinalizer R mesh finalizerName"
    and v: "validateMeshNetworks R mesh w1 = (None, w2)"
    and d: "distinct (map entry_Name (mesh_Clusters mesh))" and N: "fst (env w) = N"
    and sep: "separate (desired_for mesh N) (cluster_names mesh)" and ok: "plan_ok R cview mesh N w"
  shows "\<exists>st w'. reconcile R req w = ((st, None), w') \<and> st \<noteq> reconcileStateDone"
proof -
  let ?mesh = "setCondition R mesh ''NetworksOverlap'' ''False'' ''NoOverlap'' (Newf ''all CIDRs are disjoint'' [])"
  have cv: "cview k w2 = cview k w" for k using overlap_kept(1) [OF v] get_kept [OF g(1)] by simp
  have env2: "env w2 = env w"
    using v env_get [OF g(1)] by (auto simp: validateMeshNetworks_def split: prod.splits sum.splits dest: env_meshes)
  have ok2: "plan_ok R cview ?mesh N w2" using ok cv by (simp add: plan_ok_def)
  have pre: "distinct (map entry_Name (mesh_Clusters ?mesh))" "separate (desired_for ?mesh N) (cluster_names ?mesh)"
    using d sep by simp_all
  obtain res w3 where a: "reconcile_sources R ?mesh (mesh_Clusters ?mesh) [] False w2 = (Inr res, w3)"
    using reconcile_sources_total [OF pre subset_refl ok2] N env2 by metis
  obtain sts inc where res: "res = (sts, inc)" by fastforce
  have env3: "env w3 = env w"
    using reconcile_sources_sound [OF a pre subset_refl pre(1) ok2] N env2 by simp
  let ?w4 = "cleanupOrphanMeshPeers R (mesh_Namespace ?mesh) (cleanupStaleSourceClusters R ?mesh w3)"
  have "mesh_key mesh \<in> snd (env ?w4)" using get_exact [OF g(1)] env3 by (simp add: cleanup_env)
  then obtain w5 where "updateStatus R ?mesh sts ?w4 = (None, w5)"
    using status_total [of "setCondition R (?mesh\<lparr>mesh_Status := (mesh_Status ?mesh)\<lparr>ms_Clusters := sts\<rparr>\<rparr>)
        ''Ready'' ''True'' ''Reconciled'' (Newf ''all clusters reconciled successfully'' [])" ?w4]
    by (auto simp: updateStatus_def Let_def)
  with g v a res show ?thesis by (simp add: reconcile_def reconcileAllClusters_def Let_def)
qed

end

context mesh_world
begin

lemma Reconcile_requeue:
  assumes "Reconcile R req w = ((d, None), w')"
  obtains st w0 where "reconcile R req w = ((st, None), w0)" "\<And>k. cview k w' = cview k w0"
    "d = fst (selectResult st None)"
proof -
  obtain st e w0 where r: "reconcile R req w = ((st, e), w0)" by (metis prod.exhaust)
  with assms have "selectResult st e = (d, None)" "w' = refresh_mappers e (reg_Mappers (r_order R w0) (r_Registry R)) w0"
    by (simp_all add: Reconcile_def Let_def)
  moreover from this(1) have "e = None" by (auto simp: selectResult_def split: option.splits)
  ultimately show thesis using r refresh_kept by (intro that [of st w0]) simp_all
qed

end

end
