(* ===== verification/MemWorld.thy ===== *)
theory MemWorld
  imports MeshHealth
begin

text \<open>
  Several clusters in memory: each keeps its Peers in a list, the home cluster also keeps the ClusterMesh objects,
  and the list \<open>down\<close> says which clusters are unreachable or lack the Peer CRD. It satisfies the laws of \<open>mesh_world\<close>, and
  it is the world in which the controller is run on concrete inputs.
\<close>

section \<open>The world\<close>

record mem_world =
  mw_peers :: "(string \<times> peer_store) list"
  mw_nodes :: "(string \<times> Node list) list"
  mw_meshes :: "ClusterMesh list"
  mw_events :: "event list"
  mw_resets :: "string list"

definition mw_store :: "string \<Rightarrow> mem_world \<Rightarrow> peer_store" where
  "mw_store n w = (case map_of (mw_peers w) n of None \<Rightarrow> [] | Some ps \<Rightarrow> ps)"

definition mw_view :: "string \<Rightarrow> mem_world \<Rightarrow> string \<Rightarrow> Peer option" where
  "mw_view n w = mem_view (mw_store n w)"

definition mw_env :: "mem_world \<Rightarrow> (string \<Rightarrow> Node list) \<times> (string \<times> string) set" where
  "mw_env w = ((\<lambda>n. case map_of (mw_nodes w) n of None \<Rightarrow> [] | Some ns \<Rightarrow> ns), mesh_key ` set (mw_meshes w))"

text \<open>A cluster may be unreachable, or lack the Peer CRD; every call on its Peers then fails, and changes nothing.\<close>

datatype outage = Unreachable | NoPeerCRD

fun outage_error :: "outage \<Rightarrow> error" where
  "outage_error Unreachable = APIError (OtherReason ''Unreachable'')"
| "outage_error NoPeerCRD = APIError NoKindMatch"

lemma outage_error_found [simp]: "\<not> is_not_found (outage_error x)"
  by (cases x) simp_all

type_synonym outages = "(string \<times> outage) list"

definition mw_call :: "outages \<Rightarrow> (error \<Rightarrow> 'r) \<Rightarrow> string \<Rightarrow> (peer_store \<Rightarrow> 'r \<times> peer_store) \<Rightarrow> mem_world \<Rightarrow> 'r \<times> mem_world" where
  "mw_call down failed n f w =
     (case map_of down n of
        Some x \<Rightarrow> (failed (outage_error x), w)
      | None \<Rightarrow> (case f (mw_store n w) of (r, ps) \<Rightarrow> (r, w\<lparr>mw_peers := AList.update n ps (mw_peers w)\<rparr>)))"

definition mw_peer_client :: "outages \<Rightarrow> string \<Rightarrow> mem_world peer_client" where
  "mw_peer_client down n = \<lparr>
     cl_List = (\<lambda>sel. mw_call down Inl n (mem_List sel)),
     cl_Create = (\<lambda>p. mw_call down Some n (mem_Create p)),
     cl_Update = (\<lambda>p. mw_call down Some n (mem_Update p)),
     cl_Delete = (\<lambda>p. mw_call down Some n (mem_Delete p)),
     cl_order = (\<lambda>_ ks. ks)\<rparr>"

definition mw_client :: "outages \<Rightarrow> string \<Rightarrow> mem_world cluster_client" where
  "mw_client down n = \<lparr>cc_Peers = mw_peer_client down n,
     cc_ListNodes = (\<lambda>w. (if map_of down n = Some Unreachable then Inl (outage_error Unreachable) else Inr (fst (mw_env w) n), w))\<rparr>"

definition mw_same :: "ClusterMesh \<Rightarrow> ClusterMesh \<Rightarrow> bool" where
  "mw_same m m' \<longleftrightarrow> mesh_Namespace m = mesh_Namespace m' \<and> mesh_Name m = mesh_Name m'"

definition mw_Get :: "string \<times> string \<Rightarrow> mem_world \<Rightarrow> (error + ClusterMesh) \<times> mem_world" where
  "mw_Get req w =
     (case find (\<lambda>m. (mesh_Namespace m, mesh_Name m) = req) (mw_meshes w) of
        None \<Rightarrow> (Inl (APIError NotFound), w)
      | Some m \<Rightarrow> (Inr m, w))"

definition mw_List :: "string option \<Rightarrow> mem_world \<Rightarrow> (error + ClusterMesh list) \<times> mem_world" where
  "mw_List ns w =
     (Inr (case ns of None \<Rightarrow> mw_meshes w | Some ns \<Rightarrow> filter (\<lambda>m. mesh_Namespace m = ns) (mw_meshes w)), w)"

text \<open>An update of a mesh that is being deleted and has no finalizer left removes it.\<close>

definition mw_Update :: "ClusterMesh \<Rightarrow> mem_world \<Rightarrow> error option \<times> mem_world" where
  "mw_Update m w =
     (if \<not> list_ex (mw_same m) (mw_meshes w) then (Some (APIError NotFound), w)
      else if mesh_Deleting m \<and> mesh_Finalizers m = []
      then (None, w\<lparr>mw_meshes := filter (\<lambda>m'. \<not> mw_same m m') (mw_meshes w)\<rparr>)
      else (None, w\<lparr>mw_meshes := map (\<lambda>m'. if mw_same m m' then m\<lparr>mesh_Status := mesh_Status m'\<rparr> else m') (mw_meshes w)\<rparr>))"

definition mw_StatusUpdate :: "ClusterMesh \<Rightarrow> mem_world \<Rightarrow> error option \<times> mem_world" where
  "mw_StatusUpdate m w =
     (if \<not> list_ex (mw_same m) (mw_meshes w) then (Some (APIError NotFound), w)
      else (None, w\<lparr>mw_meshes := map (\<lambda>m'. if mw_same m m' then m'\<lparr>mesh_Status := mesh_Status m\<rparr> else m') (mw_meshes w)\<rparr>))"

definition mem_SetStatusCondition :: "Condition \<Rightarrow> Condition list \<Rightarrow> Condition list" where
  "mem_SetStatusCondition c cs =
     (if list_ex (\<lambda>c'. cond_Type c' = cond_Type c) cs
      then map (\<lambda>c'. if cond_Type c' = cond_Type c then c else c') cs else cs @ [c])"

definition mem_reconciler :: "outages \<Rightarrow> string list \<Rightarrow> mem_world ClusterMeshReconciler" where
  "mem_reconciler down names = \<lparr>
     r_Get = mw_Get, r_List = mw_List, r_Update = mw_Update, r_StatusUpdate = mw_StatusUpdate,
     r_Eventf = (\<lambda>m ev w. w\<lparr>mw_events := mw_events w @ [ev]\<rparr>),
     r_Registry = \<lparr>reg_clusters = map (\<lambda>n. (n, \<lparr>cluster_client = mw_client down n,
       cluster_mapper = Some (Resettable (\<lambda>w. w\<lparr>mw_resets := mw_resets w @ [n]\<rparr>))\<rparr>)) names, reg_local = ''''\<rparr>,
     r_order = (\<lambda>_ ks. ks),
     r_ContainsFinalizer = (\<lambda>m f. f \<in> set (mesh_Finalizers m)),
     r_AddFinalizer = (\<lambda>m f. m\<lparr>mesh_Finalizers := mesh_Finalizers m @ [f]\<rparr>),
     r_RemoveFinalizer = (\<lambda>m f. m\<lparr>mesh_Finalizers := removeAll f (mesh_Finalizers m)\<rparr>),
     r_SetStatusCondition = mem_SetStatusCondition\<rparr>"

section \<open>It satisfies the laws\<close>

lemma mw_peer_client_simps [simp]:
  "cl_List (mw_peer_client down n) sel = mw_call down Inl n (mem_List sel)"
  "cl_Create (mw_peer_client down n) p = mw_call down Some n (mem_Create p)"
  "cl_Update (mw_peer_client down n) p = mw_call down Some n (mem_Update p)"
  "cl_Delete (mw_peer_client down n) p = mw_call down Some n (mem_Delete p)"
  "cl_order (mw_peer_client down n) w ks = ks"
  by (simp_all add: mw_peer_client_def)

lemma mw_store_update:
  "mw_store k (w\<lparr>mw_peers := AList.update n ps (mw_peers w)\<rparr>) = (if k = n then ps else mw_store k w)"
  by (simp add: mw_store_def update_conv')

lemma mw_call_cases:
  assumes "mw_call down failed n f w = (r, w')"
  obtains (outage) x where "r = failed (outage_error x)" "w' = w" | (ran) ps where "f (mw_store n w) = (r, ps)"
    "w' = w\<lparr>mw_peers := AList.update n ps (mw_peers w)\<rparr>" "mw_store n w' = ps"
proof (cases "map_of down n")
  case (Some x)
  then show ?thesis using assms outage by (auto simp: mw_call_def)
next
  case None
  obtain r' ps where f: "f (mw_store n w) = (r', ps)" by fastforce
  with None assms have "r = r'" "w' = w\<lparr>mw_peers := AList.update n ps (mw_peers w)\<rparr>" by (simp_all add: mw_call_def)
  with f show ?thesis by (intro ran [of ps]) (simp_all add: mw_store_update)
qed

lemma mw_api: "peer_api (mw_peer_client down n) (mw_view n)"
proof (unfold_locales, unfold mw_peer_client_simps mw_view_def)
  fix w w' :: mem_world and p q :: Peer and k sel r ps e err
  show "mem_view (mw_store n w) k = Some p \<Longrightarrow> peer_Name p = k" by (rule mem_view_name)
  show "mw_call down Inl n (mem_List sel) w = (r, w') \<Longrightarrow> mem_view (mw_store n w') = mem_view (mw_store n w)"
    by (erule mw_call_cases) (auto simp: mem_List_def)
  show "mw_call down Inl n (mem_List sel) w = (Inr ps, w') \<Longrightarrow> distinct (map peer_Name ps)"
    by (erule mw_call_cases) (auto dest: mem_List_facts)
  show "mw_call down Inl n (mem_List sel) w = (Inr ps, w') \<Longrightarrow>
      (p \<in> set ps) = (mem_view (mw_store n w) (peer_Name p) = Some p \<and> selects sel p)"
    by (erule mw_call_cases) (simp_all add: mem_List_facts)
  show "mw_call down Some n (mem_Create p) w = (e, w') \<Longrightarrow> k \<noteq> peer_Name p \<Longrightarrow>
      mem_view (mw_store n w') k = mem_view (mw_store n w) k"
    by (erule mw_call_cases) (use mem_Create_view in auto)
  show "mw_call down Some n (mem_Create p) w = (None, w') \<Longrightarrow>
      mem_view (mw_store n w) (peer_Name p) = None \<and>
      (\<exists>rv. mem_view (mw_store n w') (peer_Name p) = Some (p\<lparr>peer_ResourceVersion := rv\<rparr>))"
    by (erule mw_call_cases) (use mem_Create_view in auto)
  show "mw_call down Some n (mem_Update p) w = (e, w') \<Longrightarrow> k \<noteq> peer_Name p \<Longrightarrow>
      mem_view (mw_store n w') k = mem_view (mw_store n w) k"
    by (erule mw_call_cases) (use mem_Update_view(2) in auto)
  show "mw_call down Some n (mem_Update p) w = (None, w') \<Longrightarrow>
      \<exists>q rv. mem_view (mw_store n w) (peer_Name p) = Some q \<and> peer_ResourceVersion q = peer_ResourceVersion p \<and>
        mem_view (mw_store n w') (peer_Name p) = Some (p\<lparr>peer_ResourceVersion := rv\<rparr>) \<and>
        (rv = peer_ResourceVersion p \<longrightarrow> p = q)"
    by (erule mw_call_cases) (simp, drule mem_Update_law, simp)
  show "mw_call down Some n (mem_Delete p) w = (e, w') \<Longrightarrow> k \<noteq> peer_Name p \<Longrightarrow>
      mem_view (mw_store n w') k = mem_view (mw_store n w) k"
    by (erule mw_call_cases) (use mem_Delete_view in auto)
  show "mw_call down Some n (mem_Delete p) w = (None, w') \<Longrightarrow> mem_view (mw_store n w') (peer_Name p) = None"
    by (erule mw_call_cases) (use mem_Delete_view in auto)
  show "mw_call down Some n (mem_Delete p) w = (e, w') \<Longrightarrow>
      mem_view (mw_store n w') (peer_Name p) = None \<or>
      mem_view (mw_store n w') (peer_Name p) = mem_view (mw_store n w) (peer_Name p)"
    by (erule mw_call_cases) (use mem_Delete_view in auto)
  show "mw_call down Some n (mem_Delete p) w = (Some err, w') \<Longrightarrow> is_not_found err \<Longrightarrow>
      mem_view (mw_store n w') (peer_Name p) = None"
    by (erule mw_call_cases) (use mem_Delete_view in auto)
qed simp

lemma mw_call_keeps:
  "mw_call down failed n f w = (r, w') \<Longrightarrow> mw_env w' = mw_env w"
  "mw_call down failed n f w = (r, w') \<Longrightarrow> k \<noteq> n \<Longrightarrow> mw_view k w' = mw_view k w"
  by (auto simp: mw_call_def mw_env_def mw_view_def mw_store_update split: option.splits prod.splits)

lemma mem_reconciler_simps [simp]:
  "r_Get (mem_reconciler down names) = mw_Get" "r_List (mem_reconciler down names) = mw_List"
  "r_Update (mem_reconciler down names) = mw_Update" "r_StatusUpdate (mem_reconciler down names) = mw_StatusUpdate"
  "r_Eventf (mem_reconciler down names) m ev w = w\<lparr>mw_events := mw_events w @ [ev]\<rparr>"
  "r_order (mem_reconciler down names) w ks = ks"
  by (simp_all add: mem_reconciler_def)

lemma mem_reconciler_Client:
  "reg_Client (r_Registry (mem_reconciler down names)) n = (if n \<in> set names then Some (mw_client down n) else None)"
  by (induction names) (auto simp: mem_reconciler_def reg_Client_def)

lemma mw_view_other [simp]:
  "mw_view k (w\<lparr>mw_meshes := ms\<rparr>) = mw_view k w" "mw_view k (w\<lparr>mw_events := es\<rparr>) = mw_view k w"
  "mw_view k (w\<lparr>mw_resets := rs\<rparr>) = mw_view k w"
  by (simp_all add: mw_view_def mw_store_def)

interpretation mw: mesh_world "mem_reconciler down names" mw_view mw_env for down names
proof (rule mesh_world.intro, unfold mem_reconciler_simps mem_reconciler_Client)
  fix n k c and w w' :: mem_world and ns rm rl req nso mesh e ev cl reset ks nl ml
  assume "(if n \<in> set names then Some (mw_client down n) else None) = Some c"
  then have c: "c = mw_client down n" by (simp split: if_splits)
  show "peer_api (cc_Peers c) (mw_view n)" by (simp add: c mw_client_def mw_api)
  show "k \<noteq> n \<Longrightarrow> client_keeps (cc_Peers c) (mw_view k)"
    by (simp add: c mw_client_def client_keeps_def mw_call_keeps(2))
  show "client_keeps (cc_Peers c) mw_env"
    by (simp add: c mw_client_def client_keeps_def mw_call_keeps(1))
  show "cc_ListNodes c w = (ns, w') \<Longrightarrow> mw_view k w' = mw_view k w" by (simp add: c mw_client_def)
  show "cc_ListNodes c w = (Inr nl, w') \<Longrightarrow> nl = fst (mw_env w) n" by (auto simp: c mw_client_def split: if_splits)
  show "cc_ListNodes c w = (ns, w') \<Longrightarrow> mw_env w' = mw_env w" by (simp add: c mw_client_def)
next
  fix n k cl reset and w :: mem_world
  show "(n, cl) \<in> set (reg_clusters (r_Registry (mem_reconciler down names))) \<Longrightarrow>
       cluster_mapper cl = Some (Resettable reset) \<Longrightarrow> mw_view k (reset w) = mw_view k w"
    by (auto simp: mem_reconciler_def)
qed (auto simp: mw_Get_def mw_List_def mw_Update_def mw_StatusUpdate_def mw_env_def find_Some_iff
    split: option.splits if_splits)

section \<open>When every cluster is reachable\<close>

lemma mw_call_up: "mw_call [] failed n f w = (case f (mw_store n w) of (r, ps) \<Rightarrow>
    (r, w\<lparr>mw_peers := AList.update n ps (mw_peers w)\<rparr>))"
  by (simp add: mw_call_def)

lemma mw_reliable: "reliable_api (mw_peer_client [] n) (mw_view n)"
proof (rule reliable_api.intro [OF mw_api], unfold_locales, unfold mw_peer_client_simps mw_view_def mw_call_up)
  fix w :: mem_world and p q :: Peer and sel
  show "\<exists>ps w'. (case mem_List sel (mw_store n w) of (r, ps) \<Rightarrow>
      (r, w\<lparr>mw_peers := AList.update n ps (mw_peers w)\<rparr>)) = (Inr ps, w')" by (simp add: mem_List_def)
  show "mem_view (mw_store n w) (peer_Name p) = None \<Longrightarrow> peer_ResourceVersion p = '''' \<Longrightarrow>
      \<exists>w'. (case mem_Create p (mw_store n w) of (r, ps) \<Rightarrow>
        (r, w\<lparr>mw_peers := AList.update n ps (mw_peers w)\<rparr>)) = (None, w')" by (simp add: mem_Create_def)
  show "mem_view (mw_store n w) (peer_Name p) = Some q \<Longrightarrow> peer_ResourceVersion q = peer_ResourceVersion p \<Longrightarrow>
      \<exists>w'. (case mem_Update p (mw_store n w) of (r, ps) \<Rightarrow>
        (r, w\<lparr>mw_peers := AList.update n ps (mw_peers w)\<rparr>)) = (None, w')" by (simp add: mem_Update_def)
  show "mem_view (mw_store n w) (peer_Name p) = Some q \<Longrightarrow>
      \<exists>w'. (case mem_Delete p (mw_store n w) of (r, ps) \<Rightarrow>
        (r, w\<lparr>mw_peers := AList.update n ps (mw_peers w)\<rparr>)) = (None, w')" by (simp add: mem_Delete_def)
qed

interpretation hw: healthy_world "mem_reconciler [] names" mw_view mw_env for names
proof (rule healthy_world.intro [OF mw.mesh_world_axioms], rule healthy_world_axioms.intro,
    unfold mem_reconciler_simps mem_reconciler_Client)
  fix n c and w :: mem_world and mesh
  show "(if n \<in> set names then Some (mw_client [] n) else None) = Some c \<Longrightarrow> reliable_api (cc_Peers c) (mw_view n)"
    by (auto simp: mw_client_def mw_reliable split: if_splits)
  show "(if n \<in> set names then Some (mw_client [] n) else None) = Some c \<Longrightarrow> \<exists>nl w'. cc_ListNodes c w = (Inr nl, w')"
    by (auto simp: mw_client_def split: if_splits)
  show "\<exists>ml w'. mw_List None w = (Inr ml, w')" by (simp add: mw_List_def)
  show "mesh_key mesh \<in> snd (mw_env w) \<Longrightarrow> \<exists>w'. mw_StatusUpdate mesh w = (None, w')"
    by (auto simp: mw_StatusUpdate_def mw_env_def mw_same_def list_ex_iff)
qed

end
