(* ===== verification/TwoClusters.thy ===== *)
theory TwoClusters
  imports MemWorld
begin

text \<open>
  A mesh of two clusters in memory, on which the properties of the controller are evaluated: cluster a has two nodes, cluster b
  one, and b holds a stale, an outdated and an orphaned Peer.
\<close>

section \<open>Two clusters in memory\<close>

definition entry_b :: ClusterEntry where
  "entry_b = \<lparr>entry_Name = ''b'', entry_Local = False,
     entry_KubeconfigSecretRef = Some \<lparr>ref_Name = ''kb'', ref_Key = ''kubeconfig''\<rparr>,
     entry_AllowedNetworks = [''10.245.0.0/16'', ''100.67.0.0/16''],
     entry_WireguardPort = 51820, entry_PersistentKeepalive = 25\<rparr>"

definition node_b :: Node where
  "node_b = \<lparr>node_Name = ''b1'',
     node_Annotations = [(AnnotationWireguardIP, ''100.67.0.3/16''), (AnnotationPublicKey, ''K4'')],
     node_PodCIDRs = [''10.245.1.0/24''], node_Addresses = []\<rparr>"

definition live_mesh :: ClusterMesh where
  "live_mesh = (new_mesh ''m'' ''ns'' [example_entry, entry_b])\<lparr>mesh_Finalizers := [finalizerName]\<rparr>"

definition live_nodes :: "string \<Rightarrow> Node list" where
  "live_nodes n = (if n = ''a'' then [example_node, example_node3] else if n = ''b'' then [node_b] else [])"

definition live_world :: mem_world where
  "live_world = \<lparr>mw_peers = [(''b'', example_store)],
     mw_nodes = [(''a'', live_nodes ''a''), (''b'', live_nodes ''b'')],
     mw_meshes = [live_mesh], mw_events = [], mw_resets = []\<rparr>"

abbreviation two_clusters :: "mem_world ClusterMeshReconciler" where
  "two_clusters \<equiv> mem_reconciler [] [''a'', ''b'']"

lemma live_mesh_simps [simp]:
  "mesh_Name live_mesh = ''m''" "mesh_Namespace live_mesh = ''ns''" "mesh_Deleting live_mesh = False"
  "mesh_Clusters live_mesh = [example_entry, entry_b]" "mesh_Finalizers live_mesh = [finalizerName]"
  by (simp_all add: live_mesh_def)

lemma example_names [simp]: "entry_Name example_entry = ''a''" "entry_Name entry_b = ''b''"
  by (simp_all add: example_entry_def entry_b_def)

lemma live_env: "fst (mw_env live_world) = live_nodes"
  by (auto simp: mw_env_def live_world_def live_nodes_def)

lemma live_plan:
  "map (\<lambda>p. (peer_Name p, PublicKey (peer_Spec p))) (desired_for live_mesh live_nodes ''a'') =
     [(''m--a--n1'', ''K1''), (''m--a--n3'', ''K3'')]"
  "map (\<lambda>p. (peer_Name p, PublicKey (peer_Spec p))) (desired_for live_mesh live_nodes ''b'') = [(''m--b--b1'', ''K4'')]"
  by code_simp+

lemma live_plan_mem:
  "p \<in> set (desired_for live_mesh live_nodes ''a'') \<Longrightarrow>
     (peer_Name p, PublicKey (peer_Spec p)) \<in> {(''m--a--n1'', ''K1''), (''m--a--n3'', ''K3'')}"
  "p \<in> set (desired_for live_mesh live_nodes ''b'') \<Longrightarrow> (peer_Name p, PublicKey (peer_Spec p)) = (''m--b--b1'', ''K4'')"
  using live_plan by (auto simp: map_eq_Cons_conv)

lemma live_separate: "separate (desired_for live_mesh live_nodes) {''a'', ''b''}"
proof -
  have "map peer_Name (desired_for live_mesh live_nodes ''a'') = [''m--a--n1'', ''m--a--n3'']"
    "map peer_Name (desired_for live_mesh live_nodes ''b'') = [''m--b--b1'']"
    using live_plan by (auto simp: map_eq_Cons_conv)
  then show ?thesis by (auto simp: separate_def dest!: live_plan_mem)
qed

lemma live_consistent: "plan_ok two_clusters mw_view live_mesh live_nodes live_world"
proof -
  have v: "mw_view ''b'' live_world = mem_view example_store" "mw_view ''a'' live_world = mem_view []"
    by (simp_all add: mw_view_def mw_store_def live_world_def)
  have a: "consistent ''m'' (desired_for live_mesh live_nodes) {''b''} (mw_view ''a'' live_world)"
    by (simp add: consistent_def v)
  have b: "consistent ''m'' (desired_for live_mesh live_nodes) {''a''} (mw_view ''b'' live_world)"
    by (auto simp: consistent_def v example_store_def split: if_splits dest!: live_plan_mem)
  show ?thesis
    unfolding plan_ok_def
  proof (intro allI impI)
    fix t assume "reg_Client (r_Registry two_clusters) t \<noteq> None"
    then consider "t = ''a''" | "t = ''b''" by (auto simp: mem_reconciler_Client split: if_splits)
    then show "consistent (mesh_Name live_mesh) (desired_for live_mesh live_nodes) (cluster_names live_mesh - {t}) (mw_view t live_world)"
      using a b by cases (simp_all add: insert_Diff_if)
  qed
qed

end
