(* ===== verification/Ledger.thy ===== *)
theory Ledger
  imports MeshHealth
begin

text \<open>
  What the operator promises about a cluster, without names of operations or order of calls: the ledger of a cluster
  maps a mesh and a source cluster to the specification of each Peer, by name. The three routines that write Peers
  are functional refinements of three operations on ledgers, and a whole reconcile is their composition.
\<close>

section \<open>The abstract state\<close>

type_synonym ledger = "string \<times> string \<Rightarrow> string \<Rightarrow> PeerSpec option"

text \<open>The order of the AllowedIPs does not matter to the comparison of the code.\<close>

definition canon :: "PeerSpec \<Rightarrow> PeerSpec" where
  "canon sp = sp\<lparr>AllowedIPs := sort (AllowedIPs sp)\<rparr>"

definition ledger_of :: "(string \<Rightarrow> Peer option) \<Rightarrow> ledger" where
  "ledger_of v = (\<lambda>(m, s) n. case v n of
       None \<Rightarrow> None
     | Some q \<Rightarrow> if owned m s q then Some (canon (peer_Spec q)) else None)"

definition plan_of :: "Peer list \<Rightarrow> string \<Rightarrow> PeerSpec option" where
  "plan_of ds = map_of (map (\<lambda>p. (peer_Name p, canon (peer_Spec p))) ds)"

definition put_plan :: "string \<Rightarrow> string \<Rightarrow> Peer list \<Rightarrow> ledger \<Rightarrow> ledger" where
  "put_plan m s ds L = L((m, s) := plan_of ds)"

definition retire :: "string \<Rightarrow> string list \<Rightarrow> ledger \<Rightarrow> ledger" where
  "retire m valid L = (\<lambda>(m', s). if m' = m \<and> s \<notin> set valid then (\<lambda>_. None) else L (m', s))"

definition bury :: "string set \<Rightarrow> ledger \<Rightarrow> ledger" where
  "bury living L = (\<lambda>(m', s). if m' \<in> insert '''' living then L (m', s) else (\<lambda>_. None))"

lemma canon_eq_iff: "canon a = canon b \<longleftrightarrow> peerSpecEqual a b"
  unfolding canon_def peerSpecEqual_iff sort_eq_iff_mset [symmetric] by (cases a; cases b) auto

lemma ledger_of_simp [simp]:
  "ledger_of v (m, s) n = (case v n of None \<Rightarrow> None | Some q \<Rightarrow> if owned m s q then Some (canon (peer_Spec q)) else None)"
  by (simp add: ledger_of_def)

lemma owned_same: "owned m s q \<Longrightarrow> owned m' s' q \<Longrightarrow> m' = m \<and> s' = s"
  by (simp add: owned_def selects_OrphanSelector)

lemma plan_of_mem:
  assumes "distinct (map peer_Name ds)" "p \<in> set ds"
  shows "plan_of ds (peer_Name p) = Some (canon (peer_Spec p))"
  using assms unfolding plan_of_def
proof (induction ds)
  case (Cons a ds)
  then show ?case by (cases "p = a") (auto simp: image_iff)
qed simp

lemma plan_of_None: "n \<notin> peer_Name ` set ds \<Longrightarrow> plan_of ds n = None"
  by (auto simp: plan_of_def map_of_eq_None_iff)

text \<open>A cluster holds exactly the desired Peers of a pair when the entry of its ledger is the plan.\<close>

lemma synced_ledger:
  assumes "distinct (map peer_Name ds)"
  shows "synced m s ds v \<longleftrightarrow> ledger_of v (m, s) = plan_of ds"
proof
  assume sy: "synced m s ds v"
  show "ledger_of v (m, s) = plan_of ds"
  proof
    fix n
    show "ledger_of v (m, s) n = plan_of ds n"
    proof (cases "n \<in> peer_Name ` set ds")
      case True
      then obtain p q where "p \<in> set ds" "n = peer_Name p" "v n = Some q" "owned m s q" "peerSpecEqual (peer_Spec q) (peer_Spec p)"
        using sy by (auto simp: synced_def)
      then show ?thesis using plan_of_mem [OF assms] by (simp add: canon_eq_iff)
    next
      case False
      then show ?thesis using sy by (auto simp: synced_def plan_of_None split: option.split)
    qed
  qed
next
  assume l: "ledger_of v (m, s) = plan_of ds"
  show "synced m s ds v"
    unfolding synced_def
  proof (intro conjI ballI allI impI)
    fix p assume "p \<in> set ds"
    then have "ledger_of v (m, s) (peer_Name p) = Some (canon (peer_Spec p))" using l plan_of_mem [OF assms] by simp
    then show "\<exists>q. v (peer_Name p) = Some q \<and> owned m s q \<and> peerSpecEqual (peer_Spec q) (peer_Spec p)"
      by (auto simp: canon_eq_iff split: option.splits if_splits)
  next
    fix n q assume q: "v n = Some q \<and> owned m s q"
    have "ledger_of v (m, s) n \<noteq> None" using q unfolding ledger_of_simp by (elim conjE) simp
    then have "plan_of ds n \<noteq> None" unfolding l .
    then show "n \<in> peer_Name ` set ds" by (rule contrapos_np) (rule plan_of_None)
  qed
qed

section \<open>The operations refine the abstract ones\<close>

context peer_api
begin

lemma push_ledger:
  assumes r: "ReconcilePeers C m s ds w = (None, w')" and sp: "same_plan ds (D s)" and s: "s \<in> S"
    and sep: "separate D S" and con: "consistent m D S (view w)" and lab: "\<forall>p \<in> set (D s). owned m s p"
  shows "ledger_of (view w') = put_plan m s ds (ledger_of (view w))"
proof -
  note ready = push_ready [where D = D and S = S, OF sp s sep con lab]
  note eff = push_effect [where D = D and S = S, OF r sp s sep con lab]
  have same: "ledger_of (view w') (m, s) = plan_of ds" using eff(1) synced_ledger [OF ready(2)] by blast
  have other: "ledger_of (view w') (m', s') n = ledger_of (view w) (m', s') n" if ne: "(m', s') \<noteq> (m, s)" for m' s' n
  proof (cases "n \<in> peer_Name ` set ds")
    case True
    then obtain p where p: "p \<in> set ds" "n = peer_Name p" by blast
    then obtain q where q: "view w' n = Some q" "owned m s q" using eff(1) by (auto simp: synced_def)
    have "\<not> owned m' s' q'" if "view w n = Some q'" for q'
      using ready(4) [OF p(1) that] p(2) ne owned_same by blast
    moreover have "\<not> owned m' s' q" using q(2) ne owned_same by blast
    ultimately show ?thesis using q(1) by (auto split: option.split)
  next
    case False
    then have out: "n \<notin> peer_Name ` set (D s)" using ready(1) by (metis list.set_map)
    show ?thesis
    proof (cases "\<exists>q. view w n = Some q \<and> owned m s q")
      case True
      with eff(2) [OF out] obtain q where "view w n = Some q" "owned m s q" "view w' n = None" by auto
      moreover from this(2) have "\<not> owned m' s' q" using ne owned_same by blast
      ultimately show ?thesis by simp
    next
      case False
      with eff(2) [OF out] have "view w' n = view w n" by (auto split: option.split)
      then show ?thesis by simp
    qed
  qed
  show ?thesis
  proof (rule ext)
    fix k show "ledger_of (view w') k = put_plan m s ds (ledger_of (view w)) k"
      using same other by (cases k) (auto simp: put_plan_def fun_eq_iff simp del: ledger_of_simp)
  qed
qed

lemma DeleteStale_ledger:
  assumes "DeleteStaleSourceClusters C m valid w = (None, w')"
  shows "ledger_of (view w') = retire m valid (ledger_of (view w))"
proof (rule ext)
  fix k :: "string \<times> string"
  obtain m' s' where k: "k = (m', s')" by fastforce
  have "ledger_of (view w') (m', s') n = retire m valid (ledger_of (view w)) (m', s') n" for n
  proof (cases "\<exists>q. view w n = Some q \<and> map_of (peer_Labels q) LabelMesh = Some m \<and>
      map_get (peer_Labels q) LabelSourceCluster \<notin> set valid")
    case True
    with DeleteStale_gone [OF assms] show ?thesis
      by (auto simp: retire_def owned_def selects_OrphanSelector map_get_def split: option.split)
  next
    case False
    then have "view w' n = view w n" by (intro DeleteStale_frame [OF assms]) auto
    with False show ?thesis
      by (auto simp: retire_def owned_def selects_OrphanSelector map_get_def split: option.split)
  qed
  then show "ledger_of (view w') k = retire m valid (ledger_of (view w)) k" unfolding k by (rule ext)
qed

lemma orphan_peer_gone:
  assumes "orphan_peer C living q w = ([], w')" "map_get (peer_Labels q) LabelMesh \<notin> insert '''' (set living)"
  shows "view w' (peer_Name q) = None"
  using assms
  by (auto simp: orphan_peer_def Let_def split: prod.splits option.splits if_splits dest: delete_ok delete_not_found)

lemma sweep_exact:
  assumes "sweepOrphanPeersInCluster C living w = ([], w')"
  shows "view w' n = (case view w n of
       None \<Rightarrow> None
     | Some q \<Rightarrow> if map_get (peer_Labels q) LabelMesh \<in> insert '''' (set living) then Some q else None)"
  using assms
proof (cases rule: sweep_run)
  case (ran items w1)
  have v1: "view w1 = view w" using ran(1) by (rule list_frame)
  have item: "x \<in> set items \<longleftrightarrow> view w (peer_Name x) = Some x" for x using list_exact [OF ran(1)] by simp
  show ?thesis
  proof (cases "\<exists>q. view w n = Some q \<and> map_get (peer_Labels q) LabelMesh \<notin> insert '''' (set living)")
    case False
    have "view w' n = view w1 n"
    proof (rule each_preserves [OF ran(2), where g = "\<lambda>w. view w n"])
      fix x v es' v' assume x: "x \<in> set items" "orphan_peer C living x v = (es', v')"
      then have "n \<noteq> peer_Name x \<or> map_get (peer_Labels x) LabelMesh \<in> insert '''' (set living)"
        using False item by auto
      with x(2) show "view v' n = view v n" by (rule orphan_peer_frame)
    qed
    with v1 False show ?thesis by (auto split: option.split)
  next
    case True
    then obtain q where q: "view w n = Some q" "map_get (peer_Labels q) LabelMesh \<notin> insert '''' (set living)" by blast
    have n: "peer_Name q = n" using q(1) by (rule view_name)
    have "view w' n = None"
    proof (rule each_establishes [OF ran(2), where x = q and g = "\<lambda>w. view w n" and P = "\<lambda>x. x = None"])
      show "q \<in> set items" using item q n by simp
      show "distinct items" using list_names [OF ran(1)] by (simp add: distinct_map)
      show "view v' n = None" if "orphan_peer C living q v = ([], v')" for v v'
        using orphan_peer_gone [OF that q(2)] n by simp
      show "view v' n = view v n" if "y \<in> set items" "y \<noteq> q" "orphan_peer C living y v = (es, v')" for y v es v'
        using that item q n by (intro orphan_peer_frame [OF that(3)]) auto
    qed
    with q show ?thesis by simp
  qed
qed simp

lemma sweep_ledger:
  assumes "sweepOrphanPeersInCluster C living w = ([], w')"
  shows "ledger_of (view w') = bury (set living) (ledger_of (view w))"
proof (rule ext)
  fix k :: "string \<times> string"
  obtain m' s' where k: "k = (m', s')" by fastforce
  have "ledger_of (view w') (m', s') n = bury (set living) (ledger_of (view w)) (m', s') n" for n
    by (auto simp: sweep_exact [OF assms] bury_def owned_def selects_OrphanSelector map_get_def split: option.splits)
  then show "ledger_of (view w') k = bury (set living) (ledger_of (view w)) k" unfolding k by (rule ext)
qed

end

context reliable_api
begin

lemma deletes_succeed:
  assumes "\<And>x v. x \<in> set items \<Longrightarrow> f x v = ([], v) \<or> (\<exists>e v'. cl_Delete C x v = (e, v') \<and> f x v = (if e = None then [] else es x v e, v'))"
    and "\<And>x. x \<in> set items \<Longrightarrow> view w (peer_Name x) = Some x" and "distinct items"
  shows "\<exists>w'. each f items w = ([], w')"
proof (rule each_succeeds [where Q = "\<lambda>x w. view w (peer_Name x) = Some x"])
  fix x y v es' v' assume a: "x \<in> set items" "y \<in> set items" "x \<noteq> y" "f y v = (es', v')" "view v (peer_Name x) = Some x"
  then have "peer_Name x \<noteq> peer_Name y" using assms(2) by (metis option.inject)
  then show "view v' (peer_Name x) = Some x" using assms(1) [OF a(2), of v] a(4,5) by (auto dest: delete_frame)
next
  fix x v assume "x \<in> set items" "view v (peer_Name x) = Some x"
  then show "\<exists>v'. f x v = ([], v')" using assms(1) [of x v] delete_total by fastforce
qed (use assms in auto)

lemma DeleteStale_total: "\<exists>w'. DeleteStaleSourceClusters C m valid w = (None, w')"
proof -
  obtain items w1 where l: "cl_List C [(LabelMesh, m)] w = (Inr items, w1)" using list_total by blast
  have "\<exists>w'. each (stale_entry C valid) items w1 = ([], w')"
  proof (rule deletes_succeed [where es = "\<lambda>x v e. fst (stale_entry C valid x v)"])
    show "view w1 (peer_Name x) = Some x" if "x \<in> set items" for x
      using that list_exact [OF l] list_frame [OF l] by simp
    show "distinct items" using list_names [OF l] by (simp add: distinct_map)
    show "stale_entry C valid x v = ([], v) \<or> (\<exists>e v'. cl_Delete C x v = (e, v') \<and>
        stale_entry C valid x v = (if e = None then [] else fst (stale_entry C valid x v), v'))" for x v
      by (auto simp: stale_entry_def Let_def split: prod.splits option.splits)
  qed
  then show ?thesis using l by (auto simp: DeleteStaleSourceClusters_def)
qed

lemma sweep_total: "\<exists>w'. sweepOrphanPeersInCluster C living w = ([], w')"
proof -
  obtain items w1 where l: "cl_List C [] w = (Inr items, w1)" using list_total by blast
  have "\<exists>w'. each (orphan_peer C living) items w1 = ([], w')"
  proof (rule deletes_succeed [where es = "\<lambda>x v e. fst (orphan_peer C living x v)"])
    show "view w1 (peer_Name x) = Some x" if "x \<in> set items" for x
      using that list_exact [OF l] list_frame [OF l] by simp
    show "distinct items" using list_names [OF l] by (simp add: distinct_map)
    show "orphan_peer C living x v = ([], v) \<or> (\<exists>e v'. cl_Delete C x v = (e, v') \<and>
        orphan_peer C living x v = (if e = None then [] else fst (orphan_peer C living x v), v'))" for x v
      by (auto simp: orphan_peer_def Let_def split: prod.splits option.splits)
  qed
  then show ?thesis using l by (simp add: sweepOrphanPeersInCluster_def)
qed

end

end
