(* ===== verification/MeshSpec.thy ===== *)
theory MeshSpec
  imports Ledger
begin

text \<open>
  The specification of a reconcile: for each registered cluster, its ledger afterwards as a function of its ledger
  before, the mesh, the Nodes of the clusters and the living meshes; and the proof that the controller implements it in
  a healthy world.
\<close>

section \<open>The specification\<close>

definition target_plan :: "ClusterMesh \<Rightarrow> (string \<Rightarrow> Node list) \<Rightarrow> string \<Rightarrow> string \<Rightarrow> string \<Rightarrow> PeerSpec option" where
  "target_plan mesh N s t = plan_of (seen (N t) (desired_for mesh N s))"

definition pushed ::
  "ClusterMesh \<Rightarrow> (string \<Rightarrow> Node list) \<Rightarrow> string set \<Rightarrow> string set \<Rightarrow> string \<Rightarrow> ledger \<Rightarrow> ledger" where
  "pushed mesh N srcs tgts t L = (\<lambda>(m, s).
     if m = mesh_Name mesh \<and> s \<in> srcs \<and> t \<in> tgts \<and> s \<noteq> t then target_plan mesh N s t else L (m, s))"

definition meant ::
  "ClusterMesh \<Rightarrow> (string \<Rightarrow> Node list) \<Rightarrow> string set \<Rightarrow> string set \<Rightarrow> string \<Rightarrow> ledger \<Rightarrow> ledger" where
  "meant mesh N reg living t L = (\<lambda>(m, s).
     if m = mesh_Name mesh then
       (if t \<notin> cluster_names mesh \<or> s \<notin> cluster_names mesh then (\<lambda>_. None)
        else if s \<in> reg \<and> s \<noteq> t then target_plan mesh N s t
        else L (m, s))
     else if m \<in> insert '''' living then L (m, s)
     else (\<lambda>_. None))"

abbreviation registered :: "'w ClusterMeshReconciler \<Rightarrow> string set" where
  "registered R \<equiv> {n. reg_Client (r_Registry R) n \<noteq> None}"

lemma registered_names:
  "reg_Client r n \<noteq> None \<longleftrightarrow> n \<in> fst ` set (reg_clusters r)"
proof -
  have "reg_Client r n \<noteq> None \<longleftrightarrow> map_of (reg_clusters r) n \<noteq> None"
    by (auto simp: reg_Client_def split: option.splits)
  then show ?thesis by (simp add: map_of_eq_None_iff)
qed

lemma pushed_none [simp]: "pushed mesh N {} tgts t L = L" "pushed mesh N srcs {} t L = L"
  by (auto simp: pushed_def)

section \<open>The controller implements it\<close>

context mesh_world
begin

lemma visited: "set (reg_Clusters (r_order R w) (r_Registry R)) = registered R"
proof -
  have "set (r_order R w ks) = set ks" for ks using registry_order by (metis set_mset_mset)
  then show ?thesis unfolding reg_Clusters_def registered_names by simp
qed

end

context healthy_world
begin

lemma enrich_exact:
  assumes "reg_Client (r_Registry R) t = Some c" "enrichEndpointsFromDiscovered c ds w = (r, w')"
  shows "r = Inr (seen (fst (env w) t) ds)"
  using nodes_total [OF assms(1), of w] enrich_seen [OF assms] by blast

lemma push_target_ledger:
  assumes p: "push_targets R mesh e (desired_for mesh N (entry_Name e)) [tgt] w = (None, w')"
    and d: "distinct (map entry_Name (mesh_Clusters mesh))" and e: "e \<in> set (mesh_Clusters mesh)"
    and sep: "separate (desired_for mesh N) (cluster_names mesh)" and ok: "plan_ok R cview mesh N w"
    and N: "fst (env w) = N"
  shows "ledger_of (cview t w') =
     pushed mesh N {entry_Name e} ({entry_Name tgt} \<inter> registered R) t (ledger_of (cview t w))"
proof -
  let ?s = "entry_Name e" and ?t = "entry_Name tgt" and ?m = "mesh_Name mesh" and ?D = "desired_for mesh N"
  show ?thesis
  proof (cases "?t = ?s \<or> reg_Client (r_Registry R) ?t = None")
    case True
    then have "w' = w" using p by (auto split: if_splits)
    with True show ?thesis by (auto simp: pushed_def fun_eq_iff)
  next
    case False
    then obtain c where c: "reg_Client (r_Registry R) ?t = Some c" "?t \<noteq> ?s" by auto
    obtain r w1 where en: "enrichEndpointsFromDiscovered c (?D ?s) w = (r, w1)" by fastforce
    define ds where "ds = seen (N ?t) (?D ?s)"
    have r: "r = Inr ds" using enrich_exact [OF c(1) en] N by (simp add: ds_def)
    have v1: "cview k w1 = cview k w" for k using discovered_kept [OF c(1) en] .
    have rp: "ReconcilePeers (cc_Peers c) ?m ?s ds w1 = (None, w')"
      using p c en r by (auto simp: Let_def split: prod.splits option.splits)
    show ?thesis
    proof (cases "t = ?t")
      case True
      have con: "consistent ?m ?D (cluster_names mesh - {?t}) (cview ?t w1)" using ok c(1) v1 by (simp add: plan_ok_def)
      have lab: "\<forall>p \<in> set (?D ?s). owned ?m ?s p"
        using buildDesiredPeers_owned(1) [OF desired_for_entry [OF d e]] by blast
      have sub: "separate ?D (cluster_names mesh - {?t})" using sep by (rule separate_mono) auto
      have "ledger_of (cview ?t w') = put_plan ?m ?s ds (ledger_of (cview ?t w1))"
        by (rule peer_api.push_ledger [OF cluster_api [OF c(1)] rp _ _ sub con lab])
          (use e c(2) in \<open>auto simp: ds_def seen_same_plan\<close>)
      then show ?thesis using True c v1
        by (auto simp: pushed_def put_plan_def target_plan_def ds_def fun_eq_iff)
    next
      case False
      have "cview t w' = cview t w1" using ReconcilePeers_keeps [OF other_kept [OF c(1) False] rp] .
      with False v1 show ?thesis by (auto simp: pushed_def fun_eq_iff)
    qed
  qed
qed

lemma push_targets_Cons:
  assumes "push_targets R mesh e ds (tgt # tgts) w = (None, w')"
  obtains w1 where "push_targets R mesh e ds [tgt] w = (None, w1)" "push_targets R mesh e ds tgts w1 = (None, w')"
  using assms by (auto simp: Let_def split: if_splits option.splits prod.splits)

lemma pushed_targets:
  "pushed mesh N srcs (insert x tgts) t L = pushed mesh N srcs tgts t (pushed mesh N srcs {x} t L)"
  by (auto simp: pushed_def fun_eq_iff)

lemma push_targets_ledger:
  assumes d: "distinct (map entry_Name (mesh_Clusters mesh))" and e: "e \<in> set (mesh_Clusters mesh)"
    and sep: "separate (desired_for mesh N) (cluster_names mesh)"
    and "push_targets R mesh e (desired_for mesh N (entry_Name e)) tgts w = (None, w')"
    and "plan_ok R cview mesh N w" "fst (env w) = N"
  shows "ledger_of (cview t w') =
     pushed mesh N {entry_Name e} (entry_Name ` set tgts \<inter> registered R) t (ledger_of (cview t w))"
  using assms(4-6)
proof (induction tgts arbitrary: w)
  case (Cons tgt tgts)
  obtain w1 where w1: "push_targets R mesh e (desired_for mesh N (entry_Name e)) [tgt] w = (None, w1)"
    "push_targets R mesh e (desired_for mesh N (entry_Name e)) tgts w1 = (None, w')"
    using Cons.prems(1) by (rule push_targets_Cons)
  have "plan_ok R cview mesh N w1" using push_targets_sound [OF w1(1) d e sep _ Cons.prems(2,3)] by simp
  moreover have "fst (env w1) = N" using push_targets_env [OF w1(1)] Cons.prems(3) by simp
  ultimately have "ledger_of (cview t w') = pushed mesh N {entry_Name e} (entry_Name ` set tgts \<inter> registered R) t
      (pushed mesh N {entry_Name e} ({entry_Name tgt} \<inter> registered R) t (ledger_of (cview t w)))"
    using Cons.IH [OF w1(2)] push_target_ledger [OF w1(1) d e sep Cons.prems(2,3)] by simp
  then show ?case by (auto simp: pushed_def fun_eq_iff)
qed simp

lemma reconcile_sources_ledger:
  assumes d: "distinct (map entry_Name (mesh_Clusters mesh))"
    and sep: "separate (desired_for mesh N) (cluster_names mesh)"
    and "reconcile_sources R mesh srcs sts inc w = (Inr res, w')" "set srcs \<subseteq> set (mesh_Clusters mesh)"
      "plan_ok R cview mesh N w" "fst (env w) = N"
  shows "ledger_of (cview t w') =
     pushed mesh N (entry_Name ` set srcs \<inter> registered R) (cluster_names mesh \<inter> registered R) t (ledger_of (cview t w))"
  using assms(3-6)
proof (induction srcs arbitrary: w sts inc)
  case (Cons e srcs)
  let ?s = "entry_Name e"
  have e: "e \<in> set (mesh_Clusters mesh)" using Cons.prems(2) by simp
  show ?case
  proof (cases "reg_Client (r_Registry R) ?s")
    case None
    then have "reconcile_sources R mesh srcs sts True w = (Inr res, w')" using Cons.prems(1) by simp
    from Cons.IH [OF this] Cons.prems(2-4) None show ?thesis by (auto simp: pushed_def fun_eq_iff)
  next
    case (Some c)
    obtain ns w1 where ns: "cc_ListNodes c w = (Inr ns, w1)" using nodes_total [OF Some] by blast
    have N: "ns = N ?s" using nodes_exact [OF Some ns] Cons.prems(4) by simp
    obtain v sk tr ev where f: "filterNodes ns e = (v, sk, tr, ev)" by (cases "filterNodes ns e") auto
    define w2 where "w2 = fold (r_Eventf R mesh) ev w1"
    have v2: "cview k w2 = cview k w" for k unfolding w2_def using events_kept nodes_kept [OF Some ns] by simp
    have env2: "fst (env w2) = N" using events_env env_nodes [OF Some ns] Cons.prems(4) by (simp add: w2_def)
    have ok2: "plan_ok R cview mesh N w2" using Cons.prems(3) v2 by (simp add: plan_ok_def)
    have b: "buildDesiredPeers (mesh_Name mesh) e v (meshPersistentKeepalive mesh) = Inr (desired_for mesh N ?s)"
      using desired_for_entry [OF d e, of N] f N by simp
    obtain w3 sts' inc' where p: "push_targets R mesh e (desired_for mesh N ?s) (mesh_Clusters mesh) w2 = (None, w3)"
      "reconcile_sources R mesh srcs sts' inc' w3 = (Inr res, w')"
      using Cons.prems(1) Some ns f b
      by (auto simp: listNodes_def pushPeersToTargets_def Let_def w2_def [symmetric] split: prod.splits option.splits)
    have "plan_ok R cview mesh N w3" using push_targets_sound [OF p(1) d e sep d ok2 env2] by blast
    moreover have "fst (env w3) = N" using push_targets_env [OF p(1)] env2 by simp
    ultimately have "ledger_of (cview t w') =
        pushed mesh N (entry_Name ` set srcs \<inter> registered R) (cluster_names mesh \<inter> registered R) t (ledger_of (cview t w3))"
      using Cons.IH [OF p(2)] Cons.prems(2) by simp
    also have "ledger_of (cview t w3) = pushed mesh N {?s} (cluster_names mesh \<inter> registered R) t (ledger_of (cview t w))"
      using push_targets_ledger [OF d e sep p(1) ok2 env2] v2 by simp
    finally show ?thesis using Some by (auto simp: pushed_def fun_eq_iff)
  qed
qed simp

lemma stale_targets_ledger:
  "ledger_of (cview t (stale_targets R mesh valid names w)) =
     (if t \<in> set names \<and> t \<in> registered R
      then retire (mesh_Name mesh) (if t \<in> set valid then valid else []) (ledger_of (cview t w))
      else ledger_of (cview t w))"
proof (induction names arbitrary: w)
  case (Cons n names)
  show ?case
  proof (cases "reg_Client (r_Registry R) n")
    case (Some c)
    obtain w1 where d: "DeleteStaleSourceClusters (cc_Peers c) (mesh_Name mesh) (if n \<in> set valid then valid else []) w = (None, w1)"
      using reliable_api.DeleteStale_total [OF reliable [OF Some]] by blast
    have "ledger_of (cview t w1) = (if t = n then retire (mesh_Name mesh) (if t \<in> set valid then valid else []) (ledger_of (cview t w))
        else ledger_of (cview t w))"
      using peer_api.DeleteStale_ledger [OF cluster_api [OF Some] d] DeleteStale_keeps [OF other_kept [OF Some] d, of t] by auto
    moreover have "stale_targets R mesh valid (n # names) w = stale_targets R mesh valid names w1"
      using Some d by (simp add: Let_def)
    ultimately show ?thesis using Cons.IH [of w1] Some by (auto simp: retire_def fun_eq_iff)
  qed (use Cons in auto)
qed simp

lemma orphan_targets_ledger:
  "ledger_of (cview t (orphan_targets R living names w)) =
     (if t \<in> set names \<and> t \<in> registered R then bury (set living) (ledger_of (cview t w)) else ledger_of (cview t w))"
proof (induction names arbitrary: w)
  case (Cons n names)
  show ?case
  proof (cases "reg_Client (r_Registry R) n")
    case (Some c)
    obtain w1 where d: "sweepOrphanPeersInCluster (cc_Peers c) living w = ([], w1)"
      using reliable_api.sweep_total [OF reliable [OF Some]] by blast
    have "ledger_of (cview t w1) = (if t = n then bury (set living) (ledger_of (cview t w)) else ledger_of (cview t w))"
      using peer_api.sweep_ledger [OF cluster_api [OF Some] d] sweepOrphanPeers_keeps [OF other_kept [OF Some] d, of t] by auto
    moreover have "orphan_targets R living (n # names) w = orphan_targets R living names w1" using Some d by simp
    ultimately show ?thesis using Cons.IH [of w1] Some by (auto simp: bury_def fun_eq_iff)
  qed (use Cons in auto)
qed simp

end

section \<open>A whole reconcile\<close>

context healthy_world
begin

lemma cleanup_ledger:
  assumes "t \<in> registered R"
  shows "ledger_of (cview t (cleanupOrphanMeshPeers R ns (cleanupStaleSourceClusters R mesh w))) =
     bury (snd ` snd (env w)) (retire (mesh_Name mesh)
       (if t \<in> cluster_names mesh then map entry_Name (mesh_Clusters mesh) else []) (ledger_of (cview t w)))"
proof -
  let ?w = "cleanupStaleSourceClusters R mesh w"
  obtain ml w1 where l: "r_List R None ?w = (Inr ml, w1)" using meshes_total by blast
  have "env ?w = env w" by (simp add: cleanupStaleSourceClusters_def stale_targets_env)
  then have "mesh_key ` set ml = snd (env w)" using meshes_exact [OF l] by simp
  then have ml: "snd ` snd (env w) = mesh_Name ` set ml" by (metis (no_types, lifting) image_cong image_image snd_conv)
  have "ledger_of (cview t ?w) = retire (mesh_Name mesh)
      (if t \<in> cluster_names mesh then map entry_Name (mesh_Clusters mesh) else []) (ledger_of (cview t w))"
    using assms visited by (simp add: cleanupStaleSourceClusters_def stale_targets_ledger)
  moreover have "ledger_of (cview t (cleanupOrphanMeshPeers R ns ?w)) = bury (mesh_Name ` set ml) (ledger_of (cview t ?w))"
    using assms visited [of w1] meshes_kept [OF l]
    by (simp add: cleanupOrphanMeshPeers_def collectLivingMeshes_def l orphan_targets_ledger)
  ultimately show ?thesis by (simp add: ml)
qed

lemma meant_compose:
  assumes "mesh_Name mesh \<in> living" "t \<in> reg"
  shows "bury living (retire (mesh_Name mesh) (if t \<in> cluster_names mesh then map entry_Name (mesh_Clusters mesh) else [])
      (pushed mesh N (cluster_names mesh \<inter> reg) (cluster_names mesh \<inter> reg) t L)) = meant mesh N reg living t L"
  using assms by (auto simp: bury_def retire_def pushed_def meant_def fun_eq_iff)

lemma reconcile_meant:
  assumes r: "reconcile R req w = ((st, None), w')" "st \<noteq> reconcileStateDone" "r_Get R req w = (Inr mesh, w1)"
    and d: "distinct (map entry_Name (mesh_Clusters mesh))" and N: "fst (env w) = N"
    and sep: "separate (desired_for mesh N) (cluster_names mesh)" and ok: "plan_ok R cview mesh N w"
    and t: "t \<in> registered R"
  shows "ledger_of (cview t w') = meant mesh N (registered R) (snd ` snd (env w)) t (ledger_of (cview t w))"
proof -
  obtain w2 sts inc w3 mesh' where x: "mesh' = setCondition R mesh ''NetworksOverlap'' ''False'' ''NoOverlap'' (Newf ''all CIDRs are disjoint'' [])"
    "\<And>k. cview k w2 = cview k w" "env w2 = env w" "reconcileAllClusters R mesh' w2 = (Inr (sts, inc), w3)"
    "\<And>k. cview k w' = cview k (cleanupOrphanMeshPeers R (mesh_Namespace mesh') (cleanupStaleSourceClusters R mesh' w3))"
    using r by (rule reconcile_live) (rule that)
  have same: "mesh_Clusters mesh' = mesh_Clusters mesh" "mesh_Name mesh' = mesh_Name mesh" "desired_for mesh' = desired_for mesh"
    unfolding x(1) by (simp_all add: fun_eq_iff)
  have ok2: "plan_ok R cview mesh' N w2" "fst (env w2) = N" using ok N x(1,2,3) by (simp_all add: plan_ok_def)
  have pre: "distinct (map entry_Name (mesh_Clusters mesh'))" "separate (desired_for mesh' N) (cluster_names mesh')"
    using d sep by (simp_all add: same)
  note a = x(4) [unfolded reconcileAllClusters_def]
  have env3: "env w3 = env w" using reconcile_sources_sound [OF a pre subset_refl pre(1) ok2] x(3) by simp
  have "mesh_Name mesh' \<in> snd ` snd (env w)" using get_exact [OF r(3)] by (force simp: same)
  then have "ledger_of (cview t w') = meant mesh' N (registered R) (snd ` snd (env w)) t (ledger_of (cview t w))"
    using reconcile_sources_ledger [OF pre a subset_refl ok2, of t] meant_compose [of mesh' "snd ` snd (env w)" t "registered R" N] t
    by (simp add: x(2,5) cleanup_ledger [OF t] env3)
  then show ?thesis by (simp add: meant_def target_plan_def same cong: if_cong)
qed

end

end
