(* ===== verification/MeshSafety.thy ===== *)
theory MeshSafety
  imports MeshSpec
begin

text \<open>
  What a reconcile never touches, whatever the API servers answer: Peers that are not the operator's; and what the
  deletion of a mesh removes.
\<close>

section \<open>Peers of others\<close>

text \<open>
  A Peer without a mesh label is spared by a plan when no planned Peer has its name or its public key.
\<close>

definition spared :: "ClusterMesh \<Rightarrow> (string \<Rightarrow> Node list) \<Rightarrow> string \<Rightarrow> Peer \<Rightarrow> bool" where
  "spared mesh N n q \<longleftrightarrow> map_get (peer_Labels q) LabelMesh = '''' \<and> map_of (peer_Labels q) LabelMesh \<noteq> Some (mesh_Name mesh) \<and>
     (\<forall>s \<in> cluster_names mesh. \<forall>p \<in> set (desired_for mesh N s).
        peer_Name p \<noteq> n \<and> PublicKey (peer_Spec p) \<noteq> PublicKey (peer_Spec q))"

lemma spared_not_owned: "spared mesh N n q \<Longrightarrow> \<not> owned (mesh_Name mesh) s q"
  by (simp add: spared_def owned_def selects_OrphanSelector)

lemma spared_plan:
  assumes "spared mesh N n q" "s \<in> cluster_names mesh" "same_plan ds (desired_for mesh N s)"
  shows "n \<notin> peer_Name ` set ds" "\<forall>p \<in> set ds. PublicKey (peer_Spec q) \<noteq> PublicKey (peer_Spec p)"
proof -
  have sp: "peer_Name p \<noteq> n \<and> PublicKey (peer_Spec p) \<noteq> PublicKey (peer_Spec q)" if p: "p \<in> set ds" for p
  proof -
    obtain p' where p': "p' \<in> set (desired_for mesh N s)" "peer_Name p' = peer_Name p"
      "PublicKey (peer_Spec p') = PublicKey (peer_Spec p)"
      using same_plan_facts(2) [OF assms(3) p] by blast
    then show ?thesis using assms(1,2) unfolding spared_def by metis
  qed
  then show "n \<notin> peer_Name ` set ds" "\<forall>p \<in> set ds. PublicKey (peer_Spec q) \<noteq> PublicKey (peer_Spec p)" by force+
qed

context peer_api
begin

lemma sweep_frame:
  assumes r: "sweepOrphanPeersInCluster C living w = (es, w')" and q: "view w n = Some q" "map_get (peer_Labels q) LabelMesh = ''''"
  shows "view w' n = Some q"
  using r
proof (cases rule: sweep_run)
  case (ran items w1)
  have "view w' n = view w1 n"
  proof (rule each_preserves [OF ran(2), where g = "\<lambda>w. view w n"])
    fix x v es' v' assume x: "x \<in> set items" "orphan_peer C living x v = (es', v')"
    then have "n \<noteq> peer_Name x \<or> x = q" using list_exact [OF ran(1), of x] q(1) by auto
    with q(2) show "view v' n = view v n" by (intro orphan_peer_frame [OF x(2)]) auto
  qed
  with q(1) list_frame [OF ran(1)] show ?thesis by simp
qed (use q in simp)

end

context mesh_world
begin

lemma push_targets_spares:
  assumes "push_targets R mesh e (desired_for mesh N (entry_Name e)) tgts w = (r, w')"
    and e: "entry_Name e \<in> cluster_names mesh" and q: "spared mesh N n q" and "cview k w n = Some q"
  shows "cview k w' n = Some q"
  using assms(1,4)
proof (induction tgts arbitrary: w)
  case (Cons tgt tgts)
  let ?s = "entry_Name e" and ?t = "entry_Name tgt" and ?D = "desired_for mesh N (entry_Name e)"
  show ?case
  proof (cases "?t = ?s \<or> reg_Client (r_Registry R) ?t = None")
    case True
    with Cons show ?thesis by (auto split: if_splits)
  next
    case False
    then obtain c where c: "reg_Client (r_Registry R) ?t = Some c" "?t \<noteq> ?s" by auto
    obtain r1 w1 where en: "enrichEndpointsFromDiscovered c ?D w = (r1, w1)" by fastforce
    define ds where "ds = (case r1 of Inl _ \<Rightarrow> ?D | Inr ps \<Rightarrow> ps)"
    have sp: "same_plan ds ?D" unfolding ds_def using en by (rule enrichEndpoints_same_plan)
    obtain r2 w2 where rp: "ReconcilePeers (cc_Peers c) (mesh_Name mesh) ?s ds w1 = (r2, w2)" by fastforce
    have v1: "cview k w1 n = Some q" using discovered_kept [OF c(1) en] Cons.prems(2) by simp
    have v2: "cview k w2 n = Some q"
    proof (cases "k = ?t")
      case True
      have "cview ?t w2 n = cview ?t w1 n"
        by (rule peer_api.ReconcilePeers_frame [OF cluster_api [OF c(1)] rp])
          (use spared_plan [OF q e sp] spared_not_owned [OF q] v1 True in auto)
      with v1 True show ?thesis by simp
    next
      case False
      with ReconcilePeers_keeps [OF other_kept [OF c(1) False] rp] v1 show ?thesis by simp
    qed
    from Cons c en rp v2 show ?thesis by (auto simp: ds_def Let_def split: option.splits)
  qed
qed simp

lemma reconcile_sources_spares:
  assumes d: "distinct (map entry_Name (mesh_Clusters mesh))" and q: "spared mesh N n q"
    and "reconcile_sources R mesh srcs sts inc w = (r, w')" "set srcs \<subseteq> set (mesh_Clusters mesh)"
      "fst (env w) = N" "cview k w n = Some q"
  shows "cview k w' n = Some q \<and> env w' = env w"
  using assms(3-6)
proof (induction srcs arbitrary: w sts inc)
  case (Cons e srcs)
  let ?s = "entry_Name e"
  have e: "e \<in> set (mesh_Clusters mesh)" using Cons.prems(2) by simp
  show ?case
  proof (cases "reg_Client (r_Registry R) ?s")
    case None
    with Cons show ?thesis by auto
  next
    case (Some c)
    obtain nl w1 where l: "cc_ListNodes c w = (nl, w1)" by fastforce
    have v1: "cview k w1 n = Some q" "env w1 = env w" using nodes_kept [OF Some l] env_nodes [OF Some l] Cons.prems(4) by simp_all
    show ?thesis
    proof (cases nl)
      case (Inl err)
      with Some l v1 Cons.prems(1) show ?thesis by (auto simp: listNodes_def)
    next
      case (Inr ns)
      have N: "ns = N ?s" using nodes_exact [OF Some] l Inr Cons.prems(3) by blast
      obtain v sk tr ev where f: "filterNodes ns e = (v, sk, tr, ev)" by (cases "filterNodes ns e") auto
      define w2 where "w2 = fold (r_Eventf R mesh) ev w1"
      have v2: "cview k w2 n = Some q" "env w2 = env w" unfolding w2_def using events_kept events_env v1 by simp_all
      have b: "buildDesiredPeers (mesh_Name mesh) e v (meshPersistentKeepalive mesh) = Inr (desired_for mesh N ?s)"
        using desired_for_entry [OF d e, of N] f N by simp
      obtain pr w3 where p: "push_targets R mesh e (desired_for mesh N ?s) (mesh_Clusters mesh) w2 = (pr, w3)" by fastforce
      have v3: "cview k w3 n = Some q" "env w3 = env w"
        using push_targets_spares [OF p _ q v2(1)] e push_targets_env [OF p] v2(2) by auto
      show ?thesis
      proof (cases pr)
        case (Some err)
        then have "w' = w3" using Cons.prems(1) \<open>reg_Client (r_Registry R) ?s = Some c\<close> l Inr f b p
          by (simp add: listNodes_def pushPeersToTargets_def Let_def w2_def [symmetric])
        with v3 show ?thesis by simp
      next
        case None
        then obtain sts' inc' where "reconcile_sources R mesh srcs sts' inc' w3 = (r, w')"
          using Cons.prems(1) \<open>reg_Client (r_Registry R) ?s = Some c\<close> l Inr f b p
          by (simp add: listNodes_def pushPeersToTargets_def Let_def w2_def [symmetric])
        from Cons.IH [OF this] Cons.prems(2,3) v3 show ?thesis by simp
      qed
    qed
  qed
qed simp

lemma stale_targets_spares:
  assumes "map_of (peer_Labels q) LabelMesh \<noteq> Some (mesh_Name mesh)" "cview k w n = Some q"
  shows "cview k (stale_targets R mesh valid names w) n = Some q"
  using assms(2)
proof (induction names arbitrary: w)
  case (Cons t names)
  show ?case
  proof (cases "reg_Client (r_Registry R) t")
    case (Some c)
    obtain e w1 where d: "DeleteStaleSourceClusters (cc_Peers c) (mesh_Name mesh) (if t \<in> set valid then valid else []) w = (e, w1)"
      by fastforce
    have "cview k w1 n = cview k w n"
    proof (cases "t = k")
      case True
      then show ?thesis using peer_api.DeleteStale_frame [OF cluster_api [OF Some] d, of n] Cons.prems assms(1) by simp
    next
      case False
      then show ?thesis using DeleteStale_keeps [OF other_kept [OF Some] d, of k] by simp
    qed
    with Cons.IH [of w1] Cons.prems Some d show ?thesis by (simp add: Let_def)
  qed (use Cons in simp)
qed simp

lemma orphan_targets_spares:
  assumes "map_get (peer_Labels q) LabelMesh = ''''" "cview k w n = Some q"
  shows "cview k (orphan_targets R living names w) n = Some q"
  using assms(2)
proof (induction names arbitrary: w)
  case (Cons t names)
  show ?case
  proof (cases "reg_Client (r_Registry R) t")
    case (Some c)
    obtain es w1 where d: "sweepOrphanPeersInCluster (cc_Peers c) living w = (es, w1)" by fastforce
    have "cview k w1 n = Some q"
    proof (cases "t = k")
      case True
      then show ?thesis using peer_api.sweep_frame [OF cluster_api [OF Some] d] Cons.prems assms(1) by simp
    next
      case False
      then show ?thesis using sweepOrphanPeers_keeps [OF other_kept [OF Some] d, of k] Cons.prems by simp
    qed
    with Cons.IH [of w1] Some d show ?thesis by simp
  qed (use Cons in simp)
qed simp

lemma delete_targets_spares:
  assumes "\<not> owned (mesh_Name mesh) (entry_Name e) q" "cview k w n = Some q"
  shows "cview k (delete_targets R mesh e tgts w) n = Some q"
  using assms(2)
proof (induction tgts arbitrary: w)
  case (Cons tgt tgts)
  show ?case
  proof (cases "entry_Name tgt = entry_Name e \<or> reg_Client (r_Registry R) (entry_Name tgt) = None")
    case True
    with Cons show ?thesis by auto
  next
    case False
    then obtain c where c: "reg_Client (r_Registry R) (entry_Name tgt) = Some c" "entry_Name tgt \<noteq> entry_Name e" by auto
    obtain r w1 where rp: "ReconcilePeers (cc_Peers c) (mesh_Name mesh) (entry_Name e) [] w = (r, w1)" by fastforce
    have "cview k w1 n = cview k w n"
    proof (cases "entry_Name tgt = k")
      case True
      then show ?thesis using peer_api.ReconcilePeers_frame [OF cluster_api [OF c(1)] rp, of n] Cons.prems assms(1) by simp
    next
      case False
      then show ?thesis using ReconcilePeers_keeps [OF other_kept [OF c(1)] rp, of k] by simp
    qed
    with Cons.IH [of w1] Cons.prems c rp show ?thesis by simp
  qed
qed simp

lemma delete_sources_spares:
  assumes "\<And>s. \<not> owned (mesh_Name mesh) s q" "cview k w n = Some q"
  shows "cview k (delete_sources R mesh es w) n = Some q"
  using assms(2) unfolding delete_sources_def
  by (induction es arbitrary: w) (auto intro: delete_targets_spares [OF assms(1)])

end

context mesh_world
begin

lemma cleanup_spares:
  assumes "map_get (peer_Labels q) LabelMesh = ''''" "map_of (peer_Labels q) LabelMesh \<noteq> Some (mesh_Name mesh)" "cview k w n = Some q"
  shows "cview k (cleanupOrphanMeshPeers R ns (cleanupStaleSourceClusters R mesh w)) n = Some q"
proof -
  let ?w = "cleanupStaleSourceClusters R mesh w"
  have st: "cview k ?w n = Some q" by (simp add: cleanupStaleSourceClusters_def stale_targets_spares assms(2,3))
  obtain l w1 where c: "collectLivingMeshes R ?w = (l, w1)" by fastforce
  have "cview k w1 = cview k ?w"
    using c by (auto simp: collectLivingMeshes_def split: prod.splits sum.splits dest: meshes_kept)
  with c st assms(1) show ?thesis by (simp add: cleanupOrphanMeshPeers_def orphan_targets_spares split: option.split)
qed

lemma handleDeletion_spares:
  assumes "handleDeletion R mesh w = (e, w')" "\<And>s. \<not> owned (mesh_Name mesh) s q" "cview k w n = Some q"
  shows "cview k w' n = Some q"
proof (cases "r_ContainsFinalizer R mesh finalizerName")
  case True
  obtain ue wu where u: "r_Update R (r_RemoveFinalizer R mesh finalizerName) (delete_sources R mesh (mesh_Clusters mesh) w) = (ue, wu)"
    by fastforce
  then have "w' = wu" using assms(1) True by (simp add: handleDeletion_def Let_def)
  with update_kept [OF u, of k] delete_sources_spares [OF assms(2,3)] show ?thesis by simp
qed (use assms in \<open>simp add: handleDeletion_def\<close>)

lemma spared_of_condition [simp]: "spared (setCondition R' mesh a b c d) N = spared mesh N"
  by (intro ext) (simp add: spared_def)

lemma reconcile_live_spares:
  assumes d: "distinct (map entry_Name (mesh_Clusters mesh))" and N: "fst (env w) = N"
    and q: "spared mesh N n q" and v: "cview k w n = Some q" and r: "reconcileAllClusters R mesh w = (res, w1)"
    and out: "cview k w' = cview k (case res of Inl _ \<Rightarrow> w1 | Inr _ \<Rightarrow>
      cleanupOrphanMeshPeers R (mesh_Namespace mesh) (cleanupStaleSourceClusters R mesh w1))"
  shows "cview k w' n = Some q"
proof -
  have "cview k w1 n = Some q"
    using reconcile_sources_spares [OF d q r [unfolded reconcileAllClusters_def] subset_refl N v] by blast
  moreover have "map_get (peer_Labels q) LabelMesh = ''''" "map_of (peer_Labels q) LabelMesh \<noteq> Some (mesh_Name mesh)"
    using q by (simp_all add: spared_def)
  ultimately show ?thesis unfolding out by (cases res) (simp_all add: cleanup_spares)
qed

lemma reconcile_spares:
  assumes r: "reconcile R req w = (res, w')" and g: "r_Get R req w = (Inr mesh, w1)"
    and d: "distinct (map entry_Name (mesh_Clusters mesh))" and N: "fst (env w) = N"
    and q: "spared mesh N n q" and v: "cview k w n = Some q"
  shows "cview k w' n = Some q"
proof -
  have v1: "cview k w1 n = Some q" "env w1 = env w" using get_kept [OF g] env_get [OF g] v by simp_all
  obtain ov w2 where o: "validateMeshNetworks R mesh w1 = (ov, w2)" by fastforce
  have v2: "cview k w2 n = Some q" "env w2 = env w"
    using overlap_kept(1) [OF o] v1 o by (auto simp: validateMeshNetworks_def split: prod.splits sum.splits dest: env_meshes)
  let ?mesh = "setCondition R mesh ''NetworksOverlap'' ''False'' ''NoOverlap'' (Newf ''all CIDRs are disjoint'' [])"
  obtain ra w3 where a: "reconcileAllClusters R ?mesh w2 = (ra, w3)" by fastforce
  consider (del) "mesh_Deleting mesh" | (fin) "\<not> mesh_Deleting mesh" "\<not> r_ContainsFinalizer R mesh finalizerName"
    | (over) msg where "\<not> mesh_Deleting mesh" "r_ContainsFinalizer R mesh finalizerName" "ov = Some msg"
    | (live) "\<not> mesh_Deleting mesh" "r_ContainsFinalizer R mesh finalizerName" "ov = None" by (cases ov) auto
  then show ?thesis
  proof cases
    case del
    obtain e wd where h: "handleDeletion R mesh w1 = (e, wd)" by fastforce
    then have "w' = wd" using r g del by (simp add: reconcile_def)
    with handleDeletion_spares [OF h spared_not_owned [OF q] v1(1)] show ?thesis by simp
  next
    case fin
    with r g v1 update_kept show ?thesis by (fastforce simp: reconcile_def split: prod.splits option.splits)
  next
    case over
    obtain e wo where h: "setOverlapCondition R mesh msg w2 = (e, wo)" by fastforce
    then have "w' = wo" using r g o over by (simp add: reconcile_def)
    with overlap_kept(2) [OF h, of k] v2 show ?thesis by simp
  next
    case live
    have "cview k w' = cview k (case ra of Inl _ \<Rightarrow> w3 | Inr _ \<Rightarrow>
        cleanupOrphanMeshPeers R (mesh_Namespace ?mesh) (cleanupStaleSourceClusters R ?mesh w3))"
      using r g o live a overlap_kept(3) by (fastforce simp: reconcile_def Let_def split: prod.splits sum.splits)
    with reconcile_live_spares [of ?mesh w2 N n q k ra w3 w'] d N q v2 a show ?thesis by simp
  qed
qed

end

section \<open>Deletion of a mesh\<close>

text \<open>The ledger of a cluster after the deletion of a mesh: the entries of the mesh are gone.\<close>

definition erased :: "ClusterMesh \<Rightarrow> string set \<Rightarrow> string set \<Rightarrow> string \<Rightarrow> ledger \<Rightarrow> ledger" where
  "erased mesh srcs tgts t L = (\<lambda>(m, s).
     if m = mesh_Name mesh \<and> s \<in> srcs \<and> t \<in> tgts \<and> s \<noteq> t then (\<lambda>_. None) else L (m, s))"

context reliable_api
begin

lemma purge:
  "\<exists>w'. ReconcilePeers C m s [] w = (None, w') \<and> ledger_of (view w') = put_plan m s [] (ledger_of (view w))"
proof -
  have e: "same_plan [] ((\<lambda>_. []) s)" "s \<in> {s}" "separate (\<lambda>_. []) {s}" "consistent m (\<lambda>_. []) {s} (view w)"
    "\<forall>p \<in> set ((\<lambda>_. []) s). owned m s p" "\<forall>p \<in> set ((\<lambda>_. []) s). owned m s p \<and> peer_ResourceVersion p = []"
    by (simp_all add: separate_def consistent_def)
  obtain w' where r: "ReconcilePeers C m s [] w = (None, w')" using push_total [OF e(1-4,6)] by blast
  with push_ledger [OF r e(1-5)] show ?thesis by blast
qed

end

context healthy_world
begin

lemma delete_targets_ledger:
  "ledger_of (cview t (delete_targets R mesh e tgts w)) =
     erased mesh {entry_Name e} (entry_Name ` set tgts \<inter> registered R) t (ledger_of (cview t w))"
proof (induction tgts arbitrary: w)
  case (Cons tgt tgts)
  let ?s = "entry_Name e" and ?t = "entry_Name tgt"
  show ?case
  proof (cases "?t = ?s \<or> reg_Client (r_Registry R) ?t = None")
    case True
    with Cons [of w] show ?thesis by (auto simp: erased_def fun_eq_iff)
  next
    case False
    then obtain c where c: "reg_Client (r_Registry R) ?t = Some c" "?t \<noteq> ?s" by auto
    obtain w1 where p: "ReconcilePeers (cc_Peers c) (mesh_Name mesh) ?s [] w = (None, w1)"
      "ledger_of (cview ?t w1) = put_plan (mesh_Name mesh) ?s [] (ledger_of (cview ?t w))"
      using reliable_api.purge [OF reliable [OF c(1)]] by blast
    have "ledger_of (cview t w1) = erased mesh {?s} {?t} t (ledger_of (cview t w))"
    proof (cases "t = ?t")
      case True
      with p(2) c(2) show ?thesis by (auto simp: erased_def put_plan_def plan_of_def fun_eq_iff)
    next
      case False
      with ReconcilePeers_keeps [OF other_kept [OF c(1)] p(1), of t] show ?thesis by (auto simp: erased_def fun_eq_iff)
    qed
    moreover have "delete_targets R mesh e (tgt # tgts) w = delete_targets R mesh e tgts w1" using c p(1) by simp
    ultimately show ?thesis using Cons [of w1] c by (auto simp: erased_def fun_eq_iff)
  qed
qed (simp add: erased_def)

lemma delete_sources_ledger:
  "ledger_of (cview t (delete_sources R mesh es w)) =
     erased mesh (entry_Name ` set es) (cluster_names mesh \<inter> registered R) t (ledger_of (cview t w))"
proof (induction es arbitrary: w)
  case (Cons e es)
  have "delete_sources R mesh (e # es) w = delete_sources R mesh es (delete_targets R mesh e (mesh_Clusters mesh) w)"
    by (simp add: delete_sources_def)
  then show ?case using Cons [of "delete_targets R mesh e (mesh_Clusters mesh) w"]
    by (auto simp: delete_targets_ledger erased_def fun_eq_iff)
qed (simp add: delete_sources_def erased_def)

lemma reconcile_deleting:
  assumes "r_Get R req w = (Inr mesh, w1)" "mesh_Deleting mesh" "r_ContainsFinalizer R mesh finalizerName"
    and "reconcile R req w = ((st, e), w')"
  shows "st = reconcileStateDone"
    and "ledger_of (cview t w') = erased mesh (cluster_names mesh) (cluster_names mesh \<inter> registered R) t (ledger_of (cview t w))"
proof -
  obtain ue wu where u: "r_Update R (r_RemoveFinalizer R mesh finalizerName) (delete_sources R mesh (mesh_Clusters mesh) w1) = (ue, wu)"
    by fastforce
  have w': "st = reconcileStateDone" "w' = wu" using assms u by (auto simp: reconcile_def handleDeletion_def Let_def)
  show "st = reconcileStateDone" by fact
  have "cview t w1 = cview t w" by (rule get_kept [OF assms(1)])
  with w'(2) update_kept [OF u, of t] show "ledger_of (cview t w') =
      erased mesh (cluster_names mesh) (cluster_names mesh \<inter> registered R) t (ledger_of (cview t w))"
    by (simp add: delete_sources_ledger)
qed

end

text \<open>A cluster whose Peers cannot be listed keeps them, whatever happens to the other clusters.\<close>

definition peers_unlistable :: "'w ClusterMeshReconciler \<Rightarrow> string \<Rightarrow> bool" where
  "peers_unlistable R t \<longleftrightarrow>
     (\<forall>c sel v. reg_Client (r_Registry R) t = Some c \<longrightarrow> (\<exists>err v'. cl_List (cc_Peers c) sel v = (Inl err, v')))"

context mesh_world
begin

lemma purge_unlistable:
  assumes "peers_unlistable R n" "reg_Client (r_Registry R) n = Some c" "ReconcilePeers (cc_Peers c) m s [] w = (e, w')"
  shows "e \<noteq> None \<and> cview n w' = cview n w"
proof -
  obtain err w1 where l: "cl_List (cc_Peers c) [] w = (Inl err, w1)"
    using assms(1,2) unfolding peers_unlistable_def by blast
  have "cview n w1 = cview n w" using peer_writes.list_frame [OF peer_api.axioms(1) [OF cluster_api [OF assms(2)]] l] by simp
  with assms(3) l show ?thesis by (auto simp: ReconcilePeers_def buildAllPeersByPublicKey_def)
qed

lemma delete_targets_unlistable:
  "peers_unlistable R t \<Longrightarrow> cview t (delete_targets R mesh e tgts w) = cview t w"
proof (induction tgts arbitrary: w)
  case (Cons tgt tgts)
  show ?case
  proof (cases "entry_Name tgt = entry_Name e \<or> reg_Client (r_Registry R) (entry_Name tgt) = None")
    case True
    with Cons show ?thesis by auto
  next
    case False
    then obtain c where c: "reg_Client (r_Registry R) (entry_Name tgt) = Some c" "entry_Name tgt \<noteq> entry_Name e" by auto
    obtain pe w1 where p: "ReconcilePeers (cc_Peers c) (mesh_Name mesh) (entry_Name e) [] w = (pe, w1)" by fastforce
    have "cview t w1 = cview t w"
      using purge_unlistable [OF _ c(1) p] ReconcilePeers_keeps [OF other_kept [OF c(1)] p, of t] Cons.prems
      by (cases "entry_Name tgt = t") auto
    with Cons c p show ?thesis by simp
  qed
qed simp

lemma delete_sources_unlistable:
  "peers_unlistable R t \<Longrightarrow> cview t (delete_sources R mesh es w) = cview t w"
  by (induction es arbitrary: w) (auto simp: delete_sources_def delete_targets_unlistable)

end

section \<open>Meshes that are not processed\<close>

context mesh_world
begin

lemma reconcile_inert:
  assumes r: "reconcile R req w = ((st, e), w')"
    and c: "case r_Get R req w of
        (Inl _, _) \<Rightarrow> True
      | (Inr mesh, w1) \<Rightarrow> \<not> mesh_Deleting mesh \<and>
          (\<not> r_ContainsFinalizer R mesh finalizerName \<or> fst (validateMeshNetworks R mesh w1) \<noteq> None)"
  shows "st = reconcileStateDone \<and> cview t w' = cview t w"
proof -
  obtain g w1 where g: "r_Get R req w = (g, w1)" by fastforce
  have v1: "cview t w1 = cview t w" by (rule get_kept [OF g])
  show ?thesis
  proof (cases g)
    case (Inl err)
    with r g v1 show ?thesis by (auto simp: reconcile_def)
  next
    case (Inr mesh)
    obtain ov w2 where o: "validateMeshNetworks R mesh w1 = (ov, w2)" by fastforce
    have v2: "cview t w2 = cview t w" using overlap_kept(1) [OF o] v1 by simp
    have nd: "\<not> mesh_Deleting mesh" using c g Inr by simp
    show ?thesis
    proof (cases "r_ContainsFinalizer R mesh finalizerName")
      case False
      obtain ue w3 where u: "r_Update R (r_AddFinalizer R mesh finalizerName) w1 = (ue, w3)" by fastforce
      have "st = reconcileStateDone" "w' = w3" using r g Inr nd False u by (auto simp: reconcile_def split: option.splits)
      with update_kept [OF u, of t] v1 show ?thesis by simp
    next
      case True
      then obtain msg where msg: "ov = Some msg" using c g Inr o by auto
      obtain se w3 where u: "setOverlapCondition R mesh msg w2 = (se, w3)" by fastforce
      have "st = reconcileStateDone" "w' = w3" using r g Inr nd True o msg u by (auto simp: reconcile_def)
      with overlap_kept(2) [OF u, of t] v2 show ?thesis by simp
    qed
  qed
qed

end

end
