(* ===== verification/MeshReconcile.thy ===== *)
theory MeshReconcile
  imports TwoClusters MeshSafety
begin

text \<open>
  The properties of a whole reconcile of \<^verbatim>\<open>ClusterMeshReconciler\<close>.
\<close>

section \<open>Convergence\<close>

text \<open>
  C1. A reconcile of a living mesh implements its specification: when the clusters answer, the mesh passes the overlap
  check, no two desired Peers share a name or a key, and no foreign Peer holds one of them, \<^verbatim>\<open>Reconcile\<close> returns nil with a
  positive requeue delay, and the ledger of every registered cluster is the one meant: for every other registered
  cluster of the mesh exactly the planned Peers with the endpoints the target observed, nothing for clusters that left the mesh
  or for meshes that no longer exist, and everything else as before.
\<close>

theorem Reconcile_refines:
  assumes "healthy_world R cview env" and "r_Get R req w = (Inr mesh, w1)" and "\<not> mesh_Deleting mesh"
    and "r_ContainsFinalizer R mesh finalizerName" and "validateMeshNetworks R mesh w1 = (None, w2)"
    and "distinct (map entry_Name (mesh_Clusters mesh))"
    and "separate (desired_for mesh (fst (env w))) (cluster_names mesh)" and "plan_ok R cview mesh (fst (env w)) w"
  shows "\<exists>d w'. Reconcile R req w = ((d, None), w') \<and> 0 < d \<and>
     (\<forall>t. reg_Client (r_Registry R) t \<noteq> None \<longrightarrow>
        ledger_of (cview t w') =
        meant mesh (fst (env w)) (registered R) (snd ` snd (env w)) t (ledger_of (cview t w)))"
proof -
  obtain st w' where r: "reconcile R req w = ((st, None), w')" "st \<noteq> reconcileStateDone"
    using healthy_world.reconcile_total [OF assms(1-6) refl assms(7,8)] by blast
  have mw: "mesh_world R cview env" using assms(1) by (rule healthy_world.axioms)
  let ?w = "refresh_mappers None (reg_Mappers (r_order R w') (r_Registry R)) w'"
  have "Reconcile R req w = (selectResult st None, ?w)" using r(1) by (simp add: Reconcile_def Let_def)
  moreover have "cview t ?w = cview t w'" for t by (rule mesh_world.refresh_kept [OF mw])
  moreover have "\<exists>d. selectResult st None = (d, None) \<and> 0 < d"
    using r(2) by (cases st) (simp_all add: selectResult_def bootstrapRequeueAfter_def syncRequeueAfter_def)
  moreover have "ledger_of (cview t w') = meant mesh (fst (env w)) (registered R) (snd ` snd (env w)) t (ledger_of (cview t w))"
    if "reg_Client (r_Registry R) t \<noteq> None" for t
    using healthy_world.reconcile_meant [OF assms(1) r(1,2) assms(2,6) refl assms(7,8)] that by blast
  ultimately show ?thesis by auto
qed

theorem Reconcile_refines_witness:
  "\<exists>d w'. Reconcile two_clusters (''ns'', ''m'') live_world = ((d, None), w') \<and> 0 < d \<and>
     ledger_of (mw_view ''b'' w') (''m'', ''a'') = target_plan live_mesh live_nodes ''a'' ''b'' \<and>
     ledger_of (mw_view ''a'' w') (''m'', ''b'') = target_plan live_mesh live_nodes ''b'' ''a'' \<and>
     ledger_of (mw_view ''b'' w') (''x'', ''b'') = (\<lambda>_. None)"
proof -
  have g: "r_Get two_clusters (''ns'', ''m'') live_world = (Inr live_mesh, live_world)"
    by (simp add: mw_Get_def live_world_def)
  have v: "validateMeshNetworks two_clusters live_mesh live_world = (None, live_world)" by code_simp
  have f: "r_ContainsFinalizer two_clusters live_mesh finalizerName" by (simp add: mem_reconciler_def)
  have pre: "\<not> mesh_Deleting live_mesh" "distinct (map entry_Name (mesh_Clusters live_mesh))"
    "separate (desired_for live_mesh (fst (mw_env live_world))) (cluster_names live_mesh)"
    "plan_ok two_clusters mw_view live_mesh (fst (mw_env live_world)) live_world"
    using live_separate live_consistent by (simp_all add: live_env)
  have living: "snd ` snd (mw_env live_world) = {''m''}" by (simp add: mw_env_def live_world_def)
  have reg: "registered two_clusters = {''a'', ''b''}" by (auto simp: mem_reconciler_Client)
  obtain d w' where r: "Reconcile two_clusters (''ns'', ''m'') live_world = ((d, None), w')" "0 < d"
    "\<forall>t. reg_Client (r_Registry two_clusters) t \<noteq> None \<longrightarrow> ledger_of (mw_view t w') =
      meant live_mesh live_nodes {''a'', ''b''} {''m''} t (ledger_of (mw_view t live_world))"
    using Reconcile_refines [OF hw.healthy_world_axioms g pre(1) f v pre(2-4)] unfolding live_env living reg by blast
  have "ledger_of (mw_view ''a'' w') = meant live_mesh live_nodes {''a'', ''b''} {''m''} ''a'' (ledger_of (mw_view ''a'' live_world))"
    "ledger_of (mw_view ''b'' w') = meant live_mesh live_nodes {''a'', ''b''} {''m''} ''b'' (ledger_of (mw_view ''b'' live_world))"
    using r(3) by (simp_all add: mem_reconciler_Client)
  with r(1,2) show ?thesis by (simp add: meant_def)
qed

text \<open>
  C2. No false success: whatever the API servers answered on the way, when \<^verbatim>\<open>Reconcile\<close> returns nil and asks to be
  called again after a positive delay (the mesh is alive and was processed), every registered cluster \<open>t\<close> of the mesh holds
  exactly the planned Peers of every other registered cluster \<open>s\<close> of the mesh: a Peer labelled for the pair is there if and
  only if it is planned, with the planned content and with the endpoints that the Nodes of \<open>t\<close> observed. Only if a list of
  the Nodes of \<open>t\<close> can fail, the endpoints may be the configured ones instead. This holds under two conditions on names and
  keys: the planned Peers of the mesh have pairwise different names and keys (\<open>separate\<close>), and a Peer that a cluster
  stored before with the name or the key of a planned one is the Peer of that very name and pair (\<open>plan_ok\<close>).
\<close>

theorem Reconcile_nil_synced:
  assumes "mesh_world R cview env" and "Reconcile R req w = ((d, None), w')" and "0 < d"
    and "r_Get R req w = (Inr mesh, w1)" and "distinct (map entry_Name (mesh_Clusters mesh))"
    and "separate (desired_for mesh (fst (env w))) (cluster_names mesh)" and "plan_ok R cview mesh (fst (env w)) w"
    and "s \<in> cluster_names mesh" and "t \<in> cluster_names mesh" and "s \<noteq> t"
    and "reg_Client (r_Registry R) s \<noteq> None" and "reg_Client (r_Registry R) t \<noteq> None"
  shows "let N = fst (env w); plan = desired_for mesh N s
     in synced (mesh_Name mesh) s (seen (N t) plan) (cview t w') \<or>
        nodes_can_fail R t \<and> synced (mesh_Name mesh) s plan (cview t w')"
proof -
  obtain st w0 where r: "reconcile R req w = ((st, None), w0)" "\<And>k. cview k w' = cview k w0"
    "d = fst (selectResult st None)"
    using mesh_world.Reconcile_requeue [OF assms(1,2)] by metis
  have "st \<noteq> reconcileStateDone" using r(3) assms(3) by (auto simp: selectResult_def)
  from mesh_world.reconcile_syncs [OF assms(1) r(1) this assms(4,5) refl assms(6-12)] r(2) show ?thesis
    by (simp add: pair_synced_def Let_def)
qed

theorem Reconcile_nil_synced_witness:
  "\<exists>d w'. Reconcile two_clusters (''ns'', ''m'') live_world = ((d, None), w') \<and> d = syncRequeueAfter \<and>
     synced ''m'' ''a'' (seen (live_nodes ''b'') (desired_for live_mesh live_nodes ''a'')) (mw_view ''b'' w')"
proof -
  have "fst (Reconcile two_clusters (''ns'', ''m'') live_world) = (syncRequeueAfter, None)" by code_simp
  then obtain w' where r: "Reconcile two_clusters (''ns'', ''m'') live_world = ((syncRequeueAfter, None), w')"
    by (metis prod.collapse)
  have g: "r_Get two_clusters (''ns'', ''m'') live_world = (Inr live_mesh, live_world)"
    by (simp add: mw_Get_def live_world_def)
  have up: "\<not> nodes_can_fail two_clusters ''b''"
    by (auto simp: nodes_can_fail_def mem_reconciler_Client mw_client_def)
  have "synced ''m'' ''a'' (seen (live_nodes ''b'') (desired_for live_mesh live_nodes ''a'')) (mw_view ''b'' w')"
    using Reconcile_nil_synced [OF mw.mesh_world_axioms r _ g, of "''a''" "''b''"] live_separate live_consistent up
    by (simp add: live_env mem_reconciler_Client syncRequeueAfter_def Let_def)
  with r show ?thesis by blast
qed

section \<open>Safety\<close>

text \<open>
  C3. The Peers of others are safe: whatever the API servers answer, and whether the mesh is alive, invalid or being deleted,
  \<^verbatim>\<open>Reconcile\<close> leaves every Peer without a mesh label in every cluster as it is, unless a planned Peer has its name or its
  public key.
\<close>

theorem Reconcile_spares_others:
  assumes "mesh_world R cview env" and "Reconcile R req w = (res, w')" and "r_Get R req w = (Inr mesh, w1)"
    and "distinct (map entry_Name (mesh_Clusters mesh))" and "spared mesh (fst (env w)) n q" and "cview t w n = Some q"
  shows "cview t w' n = Some q"
proof -
  obtain st e w0 where r: "reconcile R req w = ((st, e), w0)" by (metis prod.exhaust)
  then have "w' = refresh_mappers e (reg_Mappers (r_order R w0) (r_Registry R)) w0"
    using assms(2) by (simp add: Reconcile_def Let_def)
  then have "cview t w' = cview t w0" by (simp add: mesh_world.refresh_kept [OF assms(1)])
  with mesh_world.reconcile_spares [OF assms(1) r assms(3,4) refl assms(5,6)] show ?thesis by simp
qed

definition user_peer :: Peer where
  "user_peer = (simple_peer ''laptop'' ''m'' ''a'' ''K8'' [''10.9.0.0/24''] ''7'')\<lparr>peer_Labels := []\<rparr>"

definition outage_world :: mem_world where
  "outage_world = live_world\<lparr>mw_peers := [(''a'', [user_peer]), (''b'', [user_peer])]\<rparr>"

theorem Reconcile_spares_others_witness:
  "mw_view ''a'' (snd (Reconcile (mem_reconciler [(''b'', NoPeerCRD)] [''a'', ''b'']) (''ns'', ''m'') outage_world)) ''laptop'' = Some user_peer"
proof -
  have g: "r_Get (mem_reconciler [(''b'', NoPeerCRD)] [''a'', ''b'']) (''ns'', ''m'') outage_world = (Inr live_mesh, outage_world)"
    by (simp add: mw_Get_def live_world_def outage_world_def)
  have env: "fst (mw_env outage_world) = live_nodes" by (auto simp: mw_env_def outage_world_def live_world_def live_nodes_def)
  have v: "mw_view ''a'' outage_world ''laptop'' = Some user_peer"
    by (simp add: mw_view_def mw_store_def outage_world_def user_peer_def simple_peer_def)
  have q: "spared live_mesh live_nodes ''laptop'' user_peer"
    by (auto simp: spared_def user_peer_def simple_peer_def map_get_def dest!: live_plan_mem)
  show ?thesis
    by (rule Reconcile_spares_others [OF mw.mesh_world_axioms surjective_pairing g]) (simp_all add: env q v)
qed

text \<open>
  C9. A mesh that is not processed changes no Peer: when the mesh is absent or cannot be fetched, has just been given its
  finalizer, or overlaps another mesh, \<^verbatim>\<open>Reconcile\<close> leaves every Peer of every cluster as it is and asks for no requeue.
\<close>

theorem Reconcile_inert:
  assumes "mesh_world R cview env" and "Reconcile R req w = ((d, e), w')"
    and "case r_Get R req w of
        (Inl _, _) \<Rightarrow> True
      | (Inr mesh, w1) \<Rightarrow> \<not> mesh_Deleting mesh \<and>
          (\<not> r_ContainsFinalizer R mesh finalizerName \<or> fst (validateMeshNetworks R mesh w1) \<noteq> None)"
  shows "d = 0 \<and> (\<forall>t. cview t w' = cview t w)"
proof -
  obtain st e0 w0 where r: "reconcile R req w = ((st, e0), w0)" by (metis prod.exhaust)
  then have w': "selectResult st e0 = (d, e)" "w' = refresh_mappers e0 (reg_Mappers (r_order R w0) (r_Registry R)) w0"
    using assms(2) by (simp_all add: Reconcile_def Let_def)
  have "st = reconcileStateDone \<and> cview t w0 = cview t w" for t
    by (rule mesh_world.reconcile_inert [OF assms(1) r assms(3)])
  with w' mesh_world.refresh_kept [OF assms(1)] show ?thesis by (auto simp: selectResult_def split: option.splits)
qed

definition overlap_world :: mem_world where
  "overlap_world = live_world\<lparr>mw_meshes := [live_mesh, new_mesh ''m2'' ''ns'' [entry_b\<lparr>entry_Name := ''c''\<rparr>]]\<rparr>"

theorem Reconcile_inert_witness:
  "fst (fst (Reconcile two_clusters (''ns'', ''m'') overlap_world)) = 0 \<and>
     mw_view ''b'' (snd (Reconcile two_clusters (''ns'', ''m'') overlap_world)) = mem_view example_store"
proof -
  obtain d e w' where r: "Reconcile two_clusters (''ns'', ''m'') overlap_world = ((d, e), w')" by (metis prod.exhaust)
  have g: "mw_Get (''ns'', ''m'') overlap_world = (Inr live_mesh, overlap_world)"
    by (simp add: mw_Get_def live_world_def overlap_world_def)
  have "(fst (validateMeshNetworks two_clusters live_mesh overlap_world) = None) = False" by code_simp
  then have "d = 0 \<and> (\<forall>t. mw_view t w' = mw_view t overlap_world)"
    by (intro Reconcile_inert [OF mw.mesh_world_axioms r]) (simp add: g)
  moreover have "mw_view ''b'' overlap_world = mem_view example_store"
    by (simp add: mw_view_def mw_store_def overlap_world_def live_world_def)
  ultimately show ?thesis using r by simp
qed

section \<open>Deletion\<close>

text \<open>
  C8. What deletion cleans up: in a healthy world, the reconcile of a mesh that is being deleted removes from every registered
  cluster of its specification exactly the Peers of the mesh for the other clusters of its specification, and asks for no
  requeue. Every other entry of every ledger stays; so Peers of the mesh for a cluster that the specification no longer
  lists, and Peers of the mesh on such a cluster, are not removed by it, although the function is documented to remove
  all Peers of the mesh from every cluster.
\<close>

theorem Reconcile_deletion:
  assumes "healthy_world R cview env" and "r_Get R req w = (Inr mesh, w1)" and "mesh_Deleting mesh"
    and "r_ContainsFinalizer R mesh finalizerName" and "Reconcile R req w = ((d, e), w')"
  shows "d = 0 \<and> (\<forall>t. ledger_of (cview t w') =
     erased mesh (cluster_names mesh) (cluster_names mesh \<inter> registered R) t (ledger_of (cview t w)))"
proof -
  have mw: "mesh_world R cview env" using assms(1) by (rule healthy_world.axioms)
  obtain st e0 w0 where r: "reconcile R req w = ((st, e0), w0)" by (metis prod.exhaust)
  then have w': "selectResult st e0 = (d, e)" "w' = refresh_mappers e0 (reg_Mappers (r_order R w0) (r_Registry R)) w0"
    using assms(5) by (simp_all add: Reconcile_def Let_def)
  note del = healthy_world.reconcile_deleting [OF assms(1-4) r]
  with w' mesh_world.refresh_kept [OF mw] show ?thesis by (auto simp: selectResult_def split: option.splits)
qed

definition deleting_world :: mem_world where
  "deleting_world = live_world\<lparr>mw_meshes := [live_mesh\<lparr>mesh_Deleting := True\<rparr>]\<rparr>"

theorem Reconcile_deletion_witness:
  "ledger_of (mw_view ''b'' (snd (Reconcile two_clusters (''ns'', ''m'') deleting_world))) (''m'', ''a'') = (\<lambda>_. None)"
proof -
  obtain d e w' where r: "Reconcile two_clusters (''ns'', ''m'') deleting_world = ((d, e), w')" by (metis prod.exhaust)
  let ?mesh = "live_mesh\<lparr>mesh_Deleting := True\<rparr>"
  have g: "r_Get two_clusters (''ns'', ''m'') deleting_world = (Inr ?mesh, deleting_world)"
    by (simp add: mw_Get_def live_world_def deleting_world_def)
  have f: "r_ContainsFinalizer two_clusters ?mesh finalizerName" by (simp add: mem_reconciler_def)
  have "ledger_of (mw_view ''b'' w') = erased ?mesh (cluster_names ?mesh) (cluster_names ?mesh \<inter> registered two_clusters) ''b''
      (ledger_of (mw_view ''b'' deleting_world))"
    using Reconcile_deletion [OF hw.healthy_world_axioms g _ f r] by simp
  with r show ?thesis by (simp add: erased_def mem_reconciler_Client)
qed

text \<open>
  C23. The finalizer is dropped even when the clean-up failed: if the Peers of a registered cluster \<open>t\<close> of a mesh that is being
  deleted cannot be listed, \<^verbatim>\<open>Reconcile\<close> leaves every Peer of \<open>t\<close> in place (those of the mesh included), yet it still asks the API
  server to remove the finalizer, and what it returns depends on that update alone: nil with no requeue when the update
  succeeds, so that the mesh object disappears and no reconcile of it follows.
\<close>

theorem deletion_leaves_orphans:
  assumes "mesh_world R cview env" and "r_Get R req w = (Inr mesh, w1)" and "mesh_Deleting mesh"
    and "r_ContainsFinalizer R mesh finalizerName" and "peers_unlistable R t"
  shows "\<exists>w2 updateErr w3.
     r_Update R (r_RemoveFinalizer R mesh finalizerName) w2 = (updateErr, w3) \<and> cview t w2 = cview t w \<and>
     fst (Reconcile R req w) = (0, wrapf updateErr ''removing finalizer'' []) \<and>
     cview t (snd (Reconcile R req w)) = cview t w"
proof -
  let ?w2 = "delete_sources R mesh (mesh_Clusters mesh) w1"
  obtain ue w3 where u: "r_Update R (r_RemoveFinalizer R mesh finalizerName) ?w2 = (ue, w3)" by fastforce
  have r: "reconcile R req w = ((reconcileStateDone, wrapf ue ''removing finalizer'' []), w3)"
    using assms(2-4) u by (simp add: reconcile_def handleDeletion_def Let_def)
  have w2: "cview t ?w2 = cview t w"
    using mesh_world.delete_sources_unlistable [OF assms(1,5)] mesh_world.get_kept [OF assms(1,2)] by simp
  moreover have "fst (Reconcile R req w) = (0, wrapf ue ''removing finalizer'' [])"
    using r by (simp add: Reconcile_def Let_def selectResult_def split: option.splits)
  moreover have "cview t (snd (Reconcile R req w)) = cview t w"
    using r w2 mesh_world.update_kept [OF assms(1) u] mesh_world.refresh_kept [OF assms(1)]
    by (simp add: Reconcile_def Let_def)
  ultimately show ?thesis using u by blast
qed

theorem deletion_leaves_orphans_witness:
  "let R = mem_reconciler [(''b'', Unreachable)] [''a'', ''b''];
       w' = snd (Reconcile R (''ns'', ''m'') deleting_world)
   in fst (Reconcile R (''ns'', ''m'') deleting_world) = (0, None) \<and> mw_meshes w' = [] \<and>
      mw_view ''b'' w' = mem_view example_store \<and> mem_view example_store ''m--a--n1'' \<noteq> None"
proof -
  let ?R = "mem_reconciler [(''b'', Unreachable)] [''a'', ''b'']" and ?mesh = "live_mesh\<lparr>mesh_Deleting := True\<rparr>"
  have g: "r_Get ?R (''ns'', ''m'') deleting_world = (Inr ?mesh, deleting_world)"
    by (simp add: mw_Get_def live_world_def deleting_world_def)
  have f: "r_ContainsFinalizer ?R ?mesh finalizerName" by (simp add: mem_reconciler_def)
  have down: "peers_unlistable ?R ''b''"
    by (auto simp: peers_unlistable_def mem_reconciler_Client mw_client_def mw_call_def)
  have "mw_view ''b'' (snd (Reconcile ?R (''ns'', ''m'') deleting_world)) = mw_view ''b'' deleting_world"
    using deletion_leaves_orphans [OF mw.mesh_world_axioms g _ f down] by auto
  moreover have "mw_view ''b'' deleting_world = mem_view example_store"
    by (simp add: mw_view_def mw_store_def deleting_world_def live_world_def)
  moreover have "fst (Reconcile ?R (''ns'', ''m'') deleting_world) = (0, None)"
    "mw_meshes (snd (Reconcile ?R (''ns'', ''m'') deleting_world)) = []" by code_simp+
  moreover have "(mem_view example_store ''m--a--n1'' = None) = False" by code_simp
  ultimately show ?thesis by (simp add: Let_def)
qed

end
