(* ===== verification/ControllerProps.thy ===== *)
theory ControllerProps
  imports TwoClusters Ledger
begin

text \<open>
  Properties of the parts of the reconcile loop: the statuses and the requeue delay, the errors that come back from a push
  and the reset of the REST mappers, the orphan sweep of one cluster, and the requests a Node event stands for.
\<close>

section \<open>Statuses\<close>

definition source_status :: "(string \<Rightarrow> Node list) \<Rightarrow> ClusterEntry \<Rightarrow> ClusterStatus" where
  "source_status N e =
     (case filterNodes (N (entry_Name e)) e of (valid, skipped, _, _) \<Rightarrow>
        \<lparr>status_Name = entry_Name e, status_RegisteredPeers = length valid, status_SkippedNodes = skipped\<rparr>)"

definition bootstrapping :: "'w ClusterMeshReconciler \<Rightarrow> (string \<Rightarrow> Node list) \<Rightarrow> ClusterEntry \<Rightarrow> bool" where
  "bootstrapping R N e \<longleftrightarrow> reg_Client (r_Registry R) (entry_Name e) = None \<or>
     (case filterNodes (N (entry_Name e)) e of (valid, _, transient, _) \<Rightarrow>
        valid = [] \<and> (N (entry_Name e) = [] \<or> 0 < transient))"

context mesh_world
begin

lemma reconcile_sources_status:
  assumes "reconcile_sources R mesh srcs sts inc w = (Inr (sts', inc'), w')" "fst (env w) = N"
  shows "sts' = sts @ map (source_status N) (filter (\<lambda>e. reg_Client (r_Registry R) (entry_Name e) \<noteq> None) srcs) \<and>
     (inc' \<longleftrightarrow> inc \<or> list_ex (bootstrapping R N) srcs)"
  using assms
proof (induction srcs arbitrary: w sts inc)
  case (Cons e srcs)
  let ?s = "entry_Name e"
  show ?case
  proof (cases "reg_Client (r_Registry R) ?s")
    case None
    with Cons.IH [of sts True w] Cons.prems show ?thesis by (simp add: bootstrapping_def)
  next
    case (Some c)
    obtain ns w1 where ns: "cc_ListNodes c w = (Inr ns, w1)"
      using Cons.prems(1) Some by (auto simp: listNodes_def split: prod.splits sum.splits)
    have N: "ns = N ?s" using nodes_exact [OF Some ns] Cons.prems(2) by simp
    obtain v sk tr ev where f: "filterNodes ns e = (v, sk, tr, ev)" by (cases "filterNodes ns e") auto
    define w2 where "w2 = fold (r_Eventf R mesh) ev w1"
    obtain ds where b: "buildDesiredPeers (mesh_Name mesh) e v (meshPersistentKeepalive mesh) = Inr ds"
      using filterNodes_builds [of "mesh_Name mesh" e ns "meshPersistentKeepalive mesh"] f by auto
    then have len: "length ds = length v" by (simp add: buildDesiredPeers_Inr_iff)
    let ?st = "\<lparr>status_Name = ?s, status_RegisteredPeers = length v, status_SkippedNodes = sk\<rparr>"
    let ?inc = "if v = [] \<and> (ns = [] \<or> 0 < tr) then True else inc"
    obtain w3 where p: "push_targets R mesh e ds (mesh_Clusters mesh) w2 = (None, w3)"
      "reconcile_sources R mesh srcs (sts @ [?st]) ?inc w3 = (Inr (sts', inc'), w')"
      using Cons.prems(1) Some ns f b len
      by (auto simp: listNodes_def pushPeersToTargets_def Let_def w2_def [symmetric] split: prod.splits option.splits)
    have "fst (env w3) = N"
      using push_targets_env [OF p(1)] events_env env_nodes [OF Some ns] Cons.prems(2) by (simp add: w2_def)
    from Cons.IH [OF p(2) this] Some f N show ?thesis by (auto simp: source_status_def bootstrapping_def)
  qed
qed simp

end

text \<open>
  C11. The status and the requeue delay are exact: when a reconcile of a living mesh returns nil, the statuses it reports are,
  in the order of the specification, those of the registered clusters, each with the number of its valid and of its skipped nodes,
  and the delay is the short one exactly when some cluster is not registered yet or has no valid node but may get one.
\<close>

theorem reconcileAllClusters_status:
  assumes "mesh_world R cview env" and "reconcileAllClusters R mesh w = (Inr (statuses, incomplete), w')"
  shows "statuses = map (source_status (fst (env w)))
       (filter (\<lambda>e. reg_Client (r_Registry R) (entry_Name e) \<noteq> None) (mesh_Clusters mesh)) \<and>
     (incomplete \<longleftrightarrow> list_ex (bootstrapping R (fst (env w))) (mesh_Clusters mesh))"
  using mesh_world.reconcile_sources_status [OF assms(1) assms(2) [unfolded reconcileAllClusters_def] refl] by simp

definition empty_world :: mem_world where
  "empty_world = \<lparr>mw_peers = [], mw_nodes = [], mw_meshes = [], mw_events = [], mw_resets = []\<rparr>"

theorem reconcileAllClusters_status_witness:
  "fst (reconcileAllClusters (mem_reconciler [] [''a'']) example_mesh empty_world) =
     Inr ([\<lparr>status_Name = ''a'', status_RegisteredPeers = 0, status_SkippedNodes = 0\<rparr>], True)"
proof -
  have ok: "(case fst (reconcileAllClusters (mem_reconciler [] [''a'']) example_mesh empty_world) of Inl _ \<Rightarrow> False | Inr _ \<Rightarrow> True) = True"
    by code_simp
  then obtain sts inc w' where r: "reconcileAllClusters (mem_reconciler [] [''a'']) example_mesh empty_world = (Inr (sts, inc), w')"
    by (auto split: sum.splits) (metis prod.collapse)
  have n: "fst (mw_env empty_world) = (\<lambda>_. [])" by (simp add: mw_env_def empty_world_def)
  have f: "filterNodes [] e = ([], 0, 0, [])" for e by (simp add: filterNodes_def)
  from reconcileAllClusters_status [OF mw.mesh_world_axioms r] r show ?thesis
    by (simp add: n f source_status_def bootstrapping_def mem_reconciler_Client example_mesh_def example_entry_def)
qed

section \<open>Errors and REST mappers\<close>

lemma push_targets_error:
  assumes "push_targets R mesh e ds tgts w = (Some err, w')"
  shows "\<exists>tgt c ds' w1 pe. tgt \<in> set tgts \<and> reg_Client (r_Registry R) (entry_Name tgt) = Some c \<and>
     ReconcilePeers (cc_Peers c) (mesh_Name mesh) (entry_Name e) ds' w1 = (Some pe, w') \<and>
     err = Wrapf pe ''reconciling peers from %q to %q'' [entry_Name e, entry_Name tgt]"
  using assms
proof (induction tgts arbitrary: w)
  case (Cons tgt tgts)
  show ?case
  proof (cases "entry_Name tgt = entry_Name e \<or> reg_Client (r_Registry R) (entry_Name tgt) = None")
    case True
    with Cons show ?thesis by (fastforce split: if_splits)
  next
    case False
    then obtain c where c: "reg_Client (r_Registry R) (entry_Name tgt) = Some c" "entry_Name tgt \<noteq> entry_Name e" by auto
    obtain r w1 where en: "enrichEndpointsFromDiscovered c ds w = (r, w1)" by fastforce
    define ds' where "ds' = (case r of Inl _ \<Rightarrow> ds | Inr ps \<Rightarrow> ps)"
    obtain pr w2 where rp: "ReconcilePeers (cc_Peers c) (mesh_Name mesh) (entry_Name e) ds' w1 = (pr, w2)" by fastforce
    show ?thesis
    proof (cases pr)
      case None
      with Cons.prems c en rp have "push_targets R mesh e ds tgts w2 = (Some err, w')" by (simp add: ds'_def Let_def)
      from Cons.IH [OF this] show ?thesis by force
    next
      case (Some pe)
      with Cons.prems c en rp have "err = Wrapf pe ''reconciling peers from %q to %q'' [entry_Name e, entry_Name tgt]" "w' = w2"
        by (auto simp: ds'_def Let_def)
      with Some c(1) rp show ?thesis by force
    qed
  qed
qed simp

lemma reconcile_sources_error:
  assumes "reconcile_sources R mesh srcs sts inc w = (Inl err, w')" "set srcs \<subseteq> set (mesh_Clusters mesh)"
  shows "(\<exists>n c w1 le. reg_Client (r_Registry R) n = Some c \<and> cc_ListNodes c w1 = (Inl le, w') \<and> is_no_match err = is_no_match le) \<or>
     (\<exists>s tgt c ds w1 pe. tgt \<in> set (mesh_Clusters mesh) \<and> reg_Client (r_Registry R) (entry_Name tgt) = Some c \<and>
       ReconcilePeers (cc_Peers c) (mesh_Name mesh) s ds w1 = (Some pe, w') \<and> is_no_match err = is_no_match pe)"
  using assms
proof (induction srcs arbitrary: w sts inc)
  case (Cons e srcs)
  show ?case
  proof (cases "reg_Client (r_Registry R) (entry_Name e)")
    case None
    with Cons show ?thesis by simp
  next
    case (Some c)
    obtain nl w1 where l: "cc_ListNodes c w = (nl, w1)" by fastforce
    show ?thesis
    proof (cases nl)
      case (Inl le)
      with Cons.prems(1) Some l have "w' = w1" "is_no_match err = is_no_match le" by (auto simp: listNodes_def)
      with Some l Inl show ?thesis by blast
    next
      case (Inr ns)
      obtain v sk tr ev where f: "filterNodes ns e = (v, sk, tr, ev)" by (cases "filterNodes ns e") auto
      obtain ds where b: "buildDesiredPeers (mesh_Name mesh) e v (meshPersistentKeepalive mesh) = Inr ds"
        using filterNodes_builds [of "mesh_Name mesh" e ns "meshPersistentKeepalive mesh"] f by auto
      obtain pr w3 where p: "push_targets R mesh e ds (mesh_Clusters mesh) (fold (r_Eventf R mesh) ev w1) = (pr, w3)" by fastforce
      show ?thesis
      proof (cases pr)
        case None
        then obtain sts' inc' where "reconcile_sources R mesh srcs sts' inc' w3 = (Inl err, w')"
          using Cons.prems(1) \<open>reg_Client (r_Registry R) (entry_Name e) = Some c\<close> l Inr f b p
          by (simp add: listNodes_def pushPeersToTargets_def Let_def)
        from Cons.IH [OF this] Cons.prems(2) show ?thesis by simp
      next
        case (Some perr)
        then have "err = perr" "w' = w3"
          using Cons.prems(1) \<open>reg_Client (r_Registry R) (entry_Name e) = Some c\<close> l Inr f b p
          by (simp_all add: listNodes_def pushPeersToTargets_def Let_def)
        then obtain tgt c' ds' v1 pe where "tgt \<in> set (mesh_Clusters mesh)" "reg_Client (r_Registry R) (entry_Name tgt) = Some c'"
          "ReconcilePeers (cc_Peers c') (mesh_Name mesh) (entry_Name e) ds' v1 = (Some pe, w')" "is_no_match err = is_no_match pe"
          using push_targets_error [OF p [unfolded Some]] by auto
        then show ?thesis by blast
      qed
    qed
  qed
qed simp

lemma refresh_mappers_no_match:
  "refresh_mappers (Some e) ms w =
     (if is_no_match e then foldl (\<lambda>w m. case m of Resettable reset \<Rightarrow> reset w | NotResettable \<Rightarrow> w) w ms else w)"
  by (induction ms arbitrary: w) (auto simp: RefreshMapperOnNoMatch_def split: rest_mapper.split)

text \<open>The reset of the REST mapper of one cluster, nothing for a cluster without a resettable one.\<close>

definition reset_mapper_of :: "'w ClusterMeshReconciler \<Rightarrow> string \<Rightarrow> 'w \<Rightarrow> 'w" where
  "reset_mapper_of R n w =
     (case reg_Get (r_Registry R) n of
        None \<Rightarrow> w
      | Some cl \<Rightarrow> (case cluster_mapper cl of Some (Resettable reset) \<Rightarrow> reset w | _ \<Rightarrow> w))"

lemma refresh_mappers_all:
  "refresh_mappers (Some e) (reg_Mappers order (r_Registry R)) w =
     (if is_no_match e then fold (reset_mapper_of R) (reg_Clusters order (r_Registry R)) w else w)"
proof -
  let ?ms = "\<lambda>n. case map_of (reg_clusters (r_Registry R)) n of
      None \<Rightarrow> [] | Some c \<Rightarrow> (case cluster_mapper c of None \<Rightarrow> [] | Some m \<Rightarrow> [m])"
  have one: "foldl (\<lambda>w m. case m of Resettable reset \<Rightarrow> reset w | NotResettable \<Rightarrow> w) w (?ms n) = reset_mapper_of R n w" for n w
    by (simp add: reset_mapper_of_def reg_Get_def split: option.splits rest_mapper.splits)
  have "foldl (\<lambda>w m. case m of Resettable reset \<Rightarrow> reset w | NotResettable \<Rightarrow> w) w (concat (map ?ms ns)) =
      fold (reset_mapper_of R) ns w" for ns
    by (induction ns arbitrary: w) (simp_all add: one)
  then show ?thesis by (simp add: refresh_mappers_no_match reg_Mappers_def reg_Clusters_def)
qed

text \<open>
  C10. A missing Peer CRD is recovered from: when pushing the Peers of a living mesh fails, \<^verbatim>\<open>Reconcile\<close> returns that error with no
  requeue delay (so that the queue retries). The error is a NoKindMatch error exactly when the call that failed, the list of
  the Nodes of a registered cluster or the reconcile of the Peers of one, failed with such an error; and exactly then the
  mappers are reset: those of all registered clusters, each once, in some order. The range over the registry visits every
  entry once (the order of the visit is free), and a registered name has one entry.
\<close>

theorem Reconcile_push_error:
  assumes "r_Get R req w = (Inr mesh, w1)" and "\<not> mesh_Deleting mesh" and "r_ContainsFinalizer R mesh finalizerName"
    and "validateMeshNetworks R mesh w1 = (None, w2)"
    and "reconcileAllClusters R (setCondition R mesh ''NetworksOverlap'' ''False'' ''NoOverlap''
       (Newf ''all CIDRs are disjoint'' [])) w2 = (Inl err, w3)"
    and "\<And>v ks. mset (r_order R v ks) = mset ks" and "distinct (map fst (reg_clusters (r_Registry R)))"
  shows "(\<exists>names. distinct names \<and> set names = {n. reg_Get (r_Registry R) n \<noteq> None} \<and>
       Reconcile R req w = ((0, Some err), if is_no_match err then fold (reset_mapper_of R) names w3 else w3)) \<and>
     ((\<exists>n c v le. reg_Client (r_Registry R) n = Some c \<and> cc_ListNodes c v = (Inl le, w3) \<and> is_no_match err = is_no_match le) \<or>
      (\<exists>s tgt c ds v pe. tgt \<in> set (mesh_Clusters mesh) \<and> reg_Client (r_Registry R) (entry_Name tgt) = Some c \<and>
        ReconcilePeers (cc_Peers c) (mesh_Name mesh) s ds v = (Some pe, w3) \<and> is_no_match err = is_no_match pe))"
proof
  let ?names = "reg_Clusters (r_order R w3) (r_Registry R)"
  have "reconcile R req w = ((reconcileStateDone, Some err), w3)" using assms by (simp add: reconcile_def Let_def)
  then have "Reconcile R req w = ((0, Some err), if is_no_match err then fold (reset_mapper_of R) ?names w3 else w3)"
    by (simp add: Reconcile_def Let_def selectResult_def refresh_mappers_all)
  moreover have ms: "mset ?names = mset (map fst (reg_clusters (r_Registry R)))"
    by (simp only: reg_Clusters_def assms(6))
  have "distinct ?names" using mset_eq_imp_distinct_iff [OF ms] assms(7) by blast
  moreover have "set ?names = {n. reg_Get (r_Registry R) n \<noteq> None}"
    using mset_eq_setD [OF ms] by (auto simp: reg_Get_def map_of_eq_None_iff)
  ultimately show "\<exists>names. distinct names \<and> set names = {n. reg_Get (r_Registry R) n \<noteq> None} \<and>
      Reconcile R req w = ((0, Some err), if is_no_match err then fold (reset_mapper_of R) names w3 else w3)"
    by blast
  show "(\<exists>n c v le. reg_Client (r_Registry R) n = Some c \<and> cc_ListNodes c v = (Inl le, w3) \<and> is_no_match err = is_no_match le) \<or>
      (\<exists>s tgt c ds v pe. tgt \<in> set (mesh_Clusters mesh) \<and> reg_Client (r_Registry R) (entry_Name tgt) = Some c \<and>
        ReconcilePeers (cc_Peers c) (mesh_Name mesh) s ds v = (Some pe, w3) \<and> is_no_match err = is_no_match pe)"
    using reconcile_sources_error [OF assms(5) [unfolded reconcileAllClusters_def]] by simp
qed

theorem Reconcile_push_error_witness:
  "\<exists>err. is_no_match err \<and>
     fst (Reconcile (mem_reconciler [(''b'', NoPeerCRD)] [''a'', ''b'']) (''ns'', ''m'') live_world) = (0, Some err) \<and>
     set (mw_resets (snd (Reconcile (mem_reconciler [(''b'', NoPeerCRD)] [''a'', ''b'']) (''ns'', ''m'') live_world))) = {''a'', ''b''}"
proof -
  let ?R = "mem_reconciler [(''b'', NoPeerCRD)] [''a'', ''b'']"
  let ?mesh = "setCondition ?R live_mesh ''NetworksOverlap'' ''False'' ''NoOverlap'' (Newf ''all CIDRs are disjoint'' [])"
  have g: "r_Get ?R (''ns'', ''m'') live_world = (Inr live_mesh, live_world)"
    by (simp add: mw_Get_def live_world_def)
  have v: "validateMeshNetworks ?R live_mesh live_world = (None, live_world)" by code_simp
  have f: "r_ContainsFinalizer ?R live_mesh finalizerName" by (simp add: mem_reconciler_def)
  have ev: "(case reconcileAllClusters ?R ?mesh live_world of (Inl e, w3) \<Rightarrow> is_no_match e \<and> mw_resets w3 = [] | (Inr _, _) \<Rightarrow> False) = True"
    by code_simp
  obtain x w3 where x: "reconcileAllClusters ?R ?mesh live_world = (x, w3)" by fastforce
  with ev obtain err where a: "reconcileAllClusters ?R ?mesh live_world = (Inl err, w3)" "is_no_match err" "mw_resets w3 = []"
    by (cases x) auto
  have d: "\<not> mesh_Deleting live_mesh" by simp
  have k: "mset (r_order ?R u ks) = mset ks" "distinct (map fst (reg_clusters (r_Registry ?R)))" for u ks
    by (simp_all add: mem_reconciler_def)
  obtain names where n: "set names = {n. reg_Get (r_Registry ?R) n \<noteq> None}"
    "Reconcile ?R (''ns'', ''m'') live_world = ((0, Some err), fold (reset_mapper_of ?R) names w3)"
    using Reconcile_push_error [OF g d f v a(1) k] a(2) by auto
  have reg: "{n. reg_Get (r_Registry ?R) n \<noteq> None} = {''a'', ''b''}"
    by (auto simp: reg_Get_def mem_reconciler_def split: if_splits)
  have "mw_resets (fold (reset_mapper_of ?R) ns u) = mw_resets u @ ns" if "set ns \<subseteq> {''a'', ''b''}" for ns u
    using that by (induction ns arbitrary: u) (auto simp: reset_mapper_of_def reg_Get_def mem_reconciler_def)
  with n(1) reg a(3) have "set (mw_resets (fold (reset_mapper_of ?R) names w3)) = {''a'', ''b''}" by simp
  with n(2) a(2) show ?thesis by simp
qed

section \<open>The orphan sweep\<close>

text \<open>
  The orphan sweep of a cluster is exact: when it logs no error, the Peers that remain are exactly those without a mesh
  label and those labelled with the name of a living mesh, unchanged.
\<close>

theorem sweepOrphanPeersInCluster_exact:
  assumes "peer_api C view" and "sweepOrphanPeersInCluster C living w = ([], w')"
  shows "view w' n = (case view w n of
       None \<Rightarrow> None
     | Some q \<Rightarrow> if map_get (peer_Labels q) LabelMesh \<in> insert '''' (set living) then Some q else None)"
  by (rule peer_api.sweep_exact [OF assms])

theorem sweepOrphanPeersInCluster_exact_witness:
  "map (mem_view (snd (sweepOrphanPeersInCluster mem_client [''m''] example_store))) [''m--a--n1'', ''x--b--n1''] =
     [mem_view example_store ''m--a--n1'', None]"
proof -
  have "fst (sweepOrphanPeersInCluster mem_client [''m''] example_store) = []" by code_simp
  then have r: "sweepOrphanPeersInCluster mem_client [''m''] example_store =
      ([], snd (sweepOrphanPeersInCluster mem_client [''m''] example_store))" by (metis prod.collapse)
  show ?thesis
    using sweepOrphanPeersInCluster_exact [OF mem.peer_api_axioms r, of "''m--a--n1''"]
      sweepOrphanPeersInCluster_exact [OF mem.peer_api_axioms r, of "''x--b--n1''"]
    by (simp add: example_store_def simple_peer_def Labels_def map_get_def)
qed

section \<open>Node events\<close>

text \<open>
  A Node event of a cluster requeues exactly the meshes that list the cluster, each once, in the order in
  which the meshes are listed; when they cannot be listed nothing is requeued.
\<close>

theorem nodeToClusterMeshRequests_exact:
  "nodeToClusterMeshRequests R clusterName w =
     (case r_List R None w of
        (Inl err, w') \<Rightarrow> ([], w')
      | (Inr meshes, w') \<Rightarrow> (map mesh_key (filter (\<lambda>mesh. clusterName \<in> cluster_names mesh) meshes), w'))"
proof -
  have "mesh_requests clusterName meshes = map mesh_key (filter (\<lambda>mesh. clusterName \<in> cluster_names mesh) meshes)" for meshes
    by (induction meshes) (auto simp: list_ex_iff)
  then show ?thesis by (simp add: nodeToClusterMeshRequests_def split: prod.splits sum.splits)
qed

end
