(* ===== verification/Flags.thy ===== *)
theory Flags
  imports GoStrings
begin

text \<open>
  The command line of the operator: \<^verbatim>\<open>runtimeOpts\<close> and \<^verbatim>\<open>parseFlags\<close> of \<^verbatim>\<open>cmd/main.go\<close>, over a model of
  \<^verbatim>\<open>flag.Parse\<close> of the Go standard library on the command line's flag set, which exits the process on an error.
\<close>

section \<open>Options and flags\<close>

text \<open>The options of the logger are not kept: their flags are among those of the libraries, below.\<close>

record runtimeOpts =
  metricsAddr :: string
  probeAddr :: string
  metricsCertPath :: string
  metricsCertName :: string
  metricsCertKey :: string
  webhookCertPath :: string
  webhookCertName :: string
  webhookCertKey :: string
  enableLeaderElection :: bool
  secureMetrics :: bool
  enableHTTP2 :: bool

text \<open>
  Flags that libraries register (those of the logger, \<^verbatim>\<open>kubeconfig\<close>): whether a name is one of them and a
  boolean one, and whether a value is accepted.
\<close>

record extra_flags =
  fx_IsBool :: "string \<Rightarrow> bool option"
  fx_Set :: "string \<Rightarrow> string \<Rightarrow> bool"

text \<open>\<^verbatim>\<open>strconv.ParseBool\<close>.\<close>

definition ParseBool :: "string \<Rightarrow> bool option" where
  "ParseBool s =
     (if s \<in> {''1'', ''t'', ''T'', ''true'', ''TRUE'', ''True''} then Some True
      else if s \<in> {''0'', ''f'', ''F'', ''false'', ''FALSE'', ''False''} then Some False
      else None)"

text \<open>The flags of \<^verbatim>\<open>parseFlags\<close>: the fields that \<^verbatim>\<open>flag.StringVar\<close> and \<^verbatim>\<open>flag.BoolVar\<close> bind.\<close>

definition string_flags :: "(string \<times> (string \<Rightarrow> runtimeOpts \<Rightarrow> runtimeOpts)) list" where
  "string_flags = [
     (''metrics-bind-address'', \<lambda>v. metricsAddr_update (\<lambda>_. v)),
     (''health-probe-bind-address'', \<lambda>v. probeAddr_update (\<lambda>_. v)),
     (''webhook-cert-path'', \<lambda>v. webhookCertPath_update (\<lambda>_. v)),
     (''webhook-cert-name'', \<lambda>v. webhookCertName_update (\<lambda>_. v)),
     (''webhook-cert-key'', \<lambda>v. webhookCertKey_update (\<lambda>_. v)),
     (''metrics-cert-path'', \<lambda>v. metricsCertPath_update (\<lambda>_. v)),
     (''metrics-cert-name'', \<lambda>v. metricsCertName_update (\<lambda>_. v)),
     (''metrics-cert-key'', \<lambda>v. metricsCertKey_update (\<lambda>_. v))]"

definition bool_flags :: "(string \<times> (bool \<Rightarrow> runtimeOpts \<Rightarrow> runtimeOpts)) list" where
  "bool_flags = [
     (''leader-elect'', \<lambda>b. enableLeaderElection_update (\<lambda>_. b)),
     (''metrics-secure'', \<lambda>b. secureMetrics_update (\<lambda>_. b)),
     (''enable-http2'', \<lambda>b. enableHTTP2_update (\<lambda>_. b))]"

definition default_opts :: runtimeOpts where
  "default_opts = \<lparr>metricsAddr = ''0'', probeAddr = '':8081'', metricsCertPath = '''', metricsCertName = ''tls.crt'',
     metricsCertKey = ''tls.key'', webhookCertPath = '''', webhookCertName = ''tls.crt'', webhookCertKey = ''tls.key'',
     enableLeaderElection = False, secureMetrics = True, enableHTTP2 = False\<rparr>"

section \<open>Parsing\<close>

definition flag_is_bool :: "extra_flags \<Rightarrow> string \<Rightarrow> bool option" where
  "flag_is_bool X name =
     (if map_of string_flags name \<noteq> None then Some False
      else if map_of bool_flags name \<noteq> None then Some True
      else fx_IsBool X name)"

text \<open>\<^verbatim>\<open>Set\<close> of a flag; \<open>None\<close> when it refuses the value.\<close>

definition flag_Set :: "extra_flags \<Rightarrow> string \<Rightarrow> string \<Rightarrow> runtimeOpts \<Rightarrow> runtimeOpts option" where
  "flag_Set X name v opts =
     (case map_of string_flags name of
        Some f \<Rightarrow> Some (f v opts)
      | None \<Rightarrow>
          (case map_of bool_flags name of
             Some f \<Rightarrow> (case ParseBool v of None \<Rightarrow> None | Some b \<Rightarrow> Some (f b opts))
           | None \<Rightarrow> (if fx_Set X name v then Some opts else None)))"

text \<open>
  \<^verbatim>\<open>FlagSet.Parse\<close> with \<^verbatim>\<open>ExitOnError\<close>: \<open>Inl\<close> is the exit status, 0 for a request of help and 2 for an error. Arguments
  after the last flag are ignored by the operator.
\<close>

fun parse_args :: "extra_flags \<Rightarrow> string list \<Rightarrow> runtimeOpts \<Rightarrow> nat + runtimeOpts" where
  "parse_args X [] opts = Inr opts"
| "parse_args X (s # args) opts =
     (if length s < 2 \<or> hd s \<noteq> CHR ''-'' then Inr opts
      else if s = ''--'' then Inr opts
      else
        (let name = drop (if s ! 1 = CHR ''-'' then 2 else 1) s
         in if name = [] \<or> hd name = CHR ''-'' \<or> hd name = CHR ''='' then Inl 2
            else
              (let value = (case IndexByte name CHR ''='' of None \<Rightarrow> None | Some i \<Rightarrow> Some (drop (Suc i) name));
                   name = (case IndexByte name CHR ''='' of None \<Rightarrow> name | Some i \<Rightarrow> take i name)
               in case flag_is_bool X name of
                    None \<Rightarrow> Inl (if name = ''help'' \<or> name = ''h'' then 0 else 2)
                  | Some True \<Rightarrow>
                      (case flag_Set X name (case value of None \<Rightarrow> ''true'' | Some v \<Rightarrow> v) opts of
                         None \<Rightarrow> Inl 2
                       | Some opts \<Rightarrow> parse_args X args opts)
                  | Some False \<Rightarrow>
                      (case value of
                         Some v \<Rightarrow> (case flag_Set X name v opts of None \<Rightarrow> Inl 2 | Some opts \<Rightarrow> parse_args X args opts)
                       | None \<Rightarrow>
                           (case args of
                              [] \<Rightarrow> Inl 2
                            | v # args \<Rightarrow> (case flag_Set X name v opts of None \<Rightarrow> Inl 2 | Some opts \<Rightarrow> parse_args X args opts))))))"

definition parseFlags :: "extra_flags \<Rightarrow> string list \<Rightarrow> nat + runtimeOpts" where
  "parseFlags X args = parse_args X args default_opts"

section \<open>Facts\<close>

definition flag_name_ok :: "string \<Rightarrow> bool" where
  "flag_name_ok name \<longleftrightarrow> name \<noteq> [] \<and> hd name \<noteq> CHR ''-'' \<and> CHR ''='' \<notin> set name"

definition flag_arg :: "string \<Rightarrow> string \<Rightarrow> string" where
  "flag_arg name v = ''--'' @ name @ ''='' @ v"

lemma parse_flag_arg:
  assumes "flag_name_ok name" "flag_is_bool X name \<noteq> None"
  shows "parse_args X (flag_arg name v # args) opts =
     (case flag_Set X name v opts of None \<Rightarrow> Inl 2 | Some opts \<Rightarrow> parse_args X args opts)"
proof -
  obtain c cs where name: "name = c # cs" "c \<noteq> CHR ''-''" "c \<noteq> CHR ''=''"
    using assms(1) by (cases name) (auto simp: flag_name_ok_def)
  have "IndexByte (name @ CHR ''='' # v) CHR ''='' = Some (length name)"
    using assms(1) by (intro IndexByte_first) (simp add: flag_name_ok_def)
  then have i: "IndexByte (c # cs @ CHR ''='' # v) CHR ''='' = Some (Suc (length cs))" by (simp add: name)
  have a: "flag_arg name v = CHR ''-'' # CHR ''-'' # c # cs @ CHR ''='' # v" by (simp add: flag_arg_def name)
  obtain b where b: "flag_is_bool X (c # cs) = Some b" using assms(2) by (auto simp: name)
  show ?thesis
    unfolding parse_args.simps(2) a using name(2,3) b
    by (cases b) (simp_all add: Let_def i name(1) del: parse_args.simps IndexByte.simps)
qed

section \<open>Properties\<close>

definition show_bool :: "bool \<Rightarrow> string" where
  "show_bool b = (if b then ''true'' else ''false'')"

definition show_opts :: "runtimeOpts \<Rightarrow> string list" where
  "show_opts opts = [
     flag_arg ''metrics-bind-address'' (metricsAddr opts), flag_arg ''health-probe-bind-address'' (probeAddr opts),
     flag_arg ''leader-elect'' (show_bool (enableLeaderElection opts)), flag_arg ''metrics-secure'' (show_bool (secureMetrics opts)),
     flag_arg ''webhook-cert-path'' (webhookCertPath opts), flag_arg ''webhook-cert-name'' (webhookCertName opts),
     flag_arg ''webhook-cert-key'' (webhookCertKey opts), flag_arg ''metrics-cert-path'' (metricsCertPath opts),
     flag_arg ''metrics-cert-name'' (metricsCertName opts), flag_arg ''metrics-cert-key'' (metricsCertKey opts),
     flag_arg ''enable-http2'' (show_bool (enableHTTP2 opts))]"

lemmas flag_tables = string_flags_def bool_flags_def flag_is_bool_def flag_Set_def flag_name_ok_def

text \<open>
  C37. Every setting of the operator can be given on the command line: the options written out as flags \<^verbatim>\<open>--name=value\<close>, with any
  values, are read back by \<^verbatim>\<open>parseFlags\<close> exactly, whatever follows them: the parse goes on with these options.
\<close>

theorem parseFlags_roundtrip: "parseFlags X (show_opts opts @ args) = parse_args X args opts"
proof -
  have b: "ParseBool (show_bool b) = Some b" for b by (simp add: ParseBool_def show_bool_def)
  show ?thesis
    unfolding parseFlags_def show_opts_def append.simps
    by (subst parse_flag_arg, simp add: flag_tables, simp add: flag_tables, simp add: flag_tables b del: parse_args.simps)+
      (cases opts, simp add: default_opts_def)
qed

end
