(* ===== verification/CrdInstall.thy ===== *)
theory CrdInstall
  imports MeshTypes
begin

text \<open>
  \<^verbatim>\<open>internal/crd/install.go\<close>: creating or updating the ClusterMesh CRD at start-up and waiting until the API server has
  established it. The waiting loop may run forever when time stands still or when nothing limits it, so it is a partial
  function; that it returns follows from its own timeout and the documented behaviour of tickers and contexts.
\<close>

section \<open>Installation\<close>

definition crdName :: string where "crdName = ''clustermeshes.kilo.squat.ai''"

text \<open>Durations in milliseconds.\<close>

definition waitTimeout :: nat where "waitTimeout = 30 * 1000"
definition pollInterval :: nat where "pollInterval = 500"

text \<open>A context by its deadline, in milliseconds; a context derived with a timeout keeps an earlier deadline of its parent.\<close>

type_synonym deadline = "nat option"

definition WithTimeout :: "deadline \<Rightarrow> nat \<Rightarrow> nat \<Rightarrow> deadline" where
  "WithTimeout ctx now timeout =
     Some (case ctx of None \<Rightarrow> now + timeout | Some d \<Rightarrow> min d (now + timeout))"

text \<open>A CRD by its name, its resource version, its spec (opaque here) and its conditions, by type and status.\<close>

record crd =
  crd_Name :: string
  crd_ResourceVersion :: string
  crd_Spec :: string
  crd_Conditions :: "(string \<times> string) list"

text \<open>
  The libraries: decoding the embedded YAML, the apiextensions client, the clock and the ticker. \<open>crd_Select\<close> waits until the
  context is done or the ticker has a tick and returns \<open>True\<close> for the context and \<open>False\<close> for a tick; when both are ready it may
  return either, as Go's \<^verbatim>\<open>select\<close> does.
\<close>

record ('w, 'c) crd_lib =
  crd_Unmarshal :: "error + crd"
  crd_NewForConfig :: "'c \<Rightarrow> error option"
  crd_Get :: "deadline \<Rightarrow> string \<Rightarrow> 'w \<Rightarrow> (error + crd) \<times> 'w"
  crd_Create :: "deadline \<Rightarrow> crd \<Rightarrow> 'w \<Rightarrow> error option \<times> 'w"
  crd_Update :: "deadline \<Rightarrow> crd \<Rightarrow> 'w \<Rightarrow> error option \<times> 'w"
  crd_Now :: "'w \<Rightarrow> nat"
  crd_NewTicker :: "nat \<Rightarrow> 'w \<Rightarrow> 'w"
  crd_Select :: "deadline \<Rightarrow> 'w \<Rightarrow> bool \<times> 'w"

definition parseCRD :: "('w, 'c) crd_lib \<Rightarrow> error + crd" where
  "parseCRD L = (case crd_Unmarshal L of Inl err \<Rightarrow> Inl (Wrapf err ''unmarshal CRD YAML'' []) | Inr c \<Rightarrow> Inr c)"

definition established :: "crd \<Rightarrow> bool" where
  "established c \<longleftrightarrow> list_ex (\<lambda>(t, s). t = ''Established'' \<and> s = ''True'') (crd_Conditions c)"

partial_function (option) wait_loop :: "('w, 'c) crd_lib \<Rightarrow> deadline \<Rightarrow> 'w \<Rightarrow> (error option \<times> 'w) option" where
  "wait_loop L ctx w =
     (case crd_Select L ctx w of (finished, w) \<Rightarrow>
        (if finished then Some (Some (Newf ''timed out waiting for CRD to become established'' []), w)
         else case crd_Get L ctx crdName w of (r, w) \<Rightarrow>
           (case r of
              Inl err \<Rightarrow> Some (Some (Wrapf err ''poll CRD status'' []), w)
            | Inr c \<Rightarrow> (if established c then Some (None, w) else wait_loop L ctx w))))"

definition waitForCRD :: "('w, 'c) crd_lib \<Rightarrow> deadline \<Rightarrow> 'w \<Rightarrow> (error option \<times> 'w) option" where
  "waitForCRD L ctx w =
     (let ctx = WithTimeout ctx (crd_Now L w) waitTimeout;
          w = crd_NewTicker L pollInterval w
      in wait_loop L ctx w)"

definition InstallOrUpdate ::
  "('w, 'c) crd_lib \<Rightarrow> deadline \<Rightarrow> 'c \<Rightarrow> 'w \<Rightarrow> (error option \<times> 'w) option" where
  "InstallOrUpdate L ctx cfg w =
     (case parseCRD L of
        Inl err \<Rightarrow> Some (Some err, w)
      | Inr desired \<Rightarrow>
          (case crd_NewForConfig L cfg of
             Some err \<Rightarrow> Some (Some (Wrapf err ''create apiextensions client'' []), w)
           | None \<Rightarrow>
               (case crd_Get L ctx crdName w of
                  (Inl err, w) \<Rightarrow>
                    (if is_not_found err then
                       (case crd_Create L ctx desired w of
                          (Some err, w) \<Rightarrow> Some (Some (Wrapf err ''create CRD'' []), w)
                        | (None, w) \<Rightarrow> waitForCRD L ctx w)
                     else Some (Some (Wrapf err ''get CRD'' []), w))
                | (Inr existing, w) \<Rightarrow>
                    (case crd_Update L ctx (desired\<lparr>crd_ResourceVersion := crd_ResourceVersion existing\<rparr>) w of
                       (Some err, w) \<Rightarrow> Some (Some (Wrapf err ''update CRD'' []), w)
                     | (None, w) \<Rightarrow> waitForCRD L ctx w))))"

section \<open>Tickers and contexts\<close>

text \<open>
  What is documented of them. \<open>next_tick\<close> is the time for which the next tick is scheduled and \<open>period\<close> the period of the ticker: a tick
  is received at or after its time, the next one is at least a period later (ticks are dropped for slow receivers), and a
  client call given a context whose deadline has passed fails. Nothing is said of which case a select takes.
\<close>

locale poll_clock =
  fixes L :: "('w, 'c) crd_lib" and next_tick :: "'w \<Rightarrow> nat" and period :: "'w \<Rightarrow> nat"
  assumes ticker: "period (crd_NewTicker L d w) = d"
    and tick: "crd_Select L ctx w = (False, w') \<Longrightarrow>
      next_tick w \<le> crd_Now L w' \<and> next_tick w + period w \<le> next_tick w' \<and> period w' = period w"
    and get_tick: "crd_Get L ctx n w = (r, w') \<Longrightarrow> next_tick w \<le> next_tick w' \<and> period w' = period w"
    and get_expired: "crd_Get L (Some d) n w = (r, w') \<Longrightarrow> d \<le> crd_Now L w \<Longrightarrow> \<exists>err. r = Inl err"
begin

lemma wait_loop_returns:
  "0 < period w \<Longrightarrow> \<exists>r w'. wait_loop L (Some d) w = Some (r, w')"
proof (induction "d - next_tick w" arbitrary: w rule: less_induct)
  case less
  obtain finished w1 where s: "crd_Select L (Some d) w = (finished, w1)" by fastforce
  obtain r w2 where g: "crd_Get L (Some d) crdName w1 = (r, w2)" by fastforce
  show ?case
  proof (cases "finished \<or> d \<le> crd_Now L w1")
    case True
    with s g get_expired [OF g] show ?thesis by (subst wait_loop.simps) auto
  next
    case False
    then have t: "next_tick w \<le> crd_Now L w1" "next_tick w + period w \<le> next_tick w1" "period w1 = period w"
      using tick [of "Some d" w w1] s by auto
    have "d - next_tick w2 < d - next_tick w" "0 < period w2"
      using t False get_tick [OF g] less.prems by auto
    from less.hyps [OF this] s g False show ?thesis
      by (subst wait_loop.simps) (auto split: sum.splits)
  qed
qed

lemma waitForCRD_returns: "\<exists>r w'. waitForCRD L ctx w = Some (r, w')"
  using wait_loop_returns [of "crd_NewTicker L pollInterval w"]
  by (simp add: waitForCRD_def WithTimeout_def ticker pollInterval_def)

end

section \<open>A store of CRDs\<close>

text \<open>
  \<open>spec_of\<close> is the spec of the stored CRD of a name. Creating and updating store the spec they are given under the name they
  are given; the timers and reads leave every spec alone.
\<close>

locale crd_api =
  fixes L :: "('w, 'c) crd_lib" and spec_of :: "'w \<Rightarrow> string \<Rightarrow> string option"
  assumes get_spec: "crd_Get L ctx n w = (r, w') \<Longrightarrow> spec_of w' = spec_of w"
    and create_spec: "crd_Create L ctx c w = (None, w') \<Longrightarrow> spec_of w' (crd_Name c) = Some (crd_Spec c)"
    and update_spec: "crd_Update L ctx c w = (None, w') \<Longrightarrow> spec_of w' (crd_Name c) = Some (crd_Spec c)"
    and ticker_spec: "spec_of (crd_NewTicker L d w) = spec_of w"
    and select_spec: "crd_Select L ctx w = (b, w') \<Longrightarrow> spec_of w' = spec_of w"
begin

lemma wait_loop_established:
  assumes "wait_loop L ctx w = Some (None, w')"
  shows "spec_of w' = spec_of w \<and> (\<exists>v c. crd_Get L ctx crdName v = (Inr c, w') \<and> established c)"
proof -
  let ?P = "\<lambda>L' ctx w y. L' = L \<and> fst y = (None :: error option) \<longrightarrow>
      spec_of (snd y) = spec_of w \<and> (\<exists>v c. crd_Get L ctx crdName v = (Inr c, snd y) \<and> established c)"
  have "?P L ctx w (None, w')"
  proof (rule wait_loop.raw_induct [where P = ?P, OF _ assms])
    fix loop L' ctx w y
    assume IH: "\<And>L' ctx w y. loop L' ctx w = Some y \<Longrightarrow> ?P L' ctx w y"
      and body: "(case crd_Select L' ctx w of (finished, w) \<Rightarrow>
        if finished then Some (Some (Newf ''timed out waiting for CRD to become established'' []), w)
        else case crd_Get L' ctx crdName w of
            (Inl err, w) \<Rightarrow> Some (Some (Wrapf err ''poll CRD status'' []), w)
          | (Inr c, w) \<Rightarrow> if established c then Some (None, w) else loop L' ctx w) = Some y"
    obtain finished w1 where s: "crd_Select L' ctx w = (finished, w1)" by fastforce
    obtain r w2 where g: "crd_Get L' ctx crdName w1 = (r, w2)" by fastforce
    show "?P L' ctx w y"
    proof
      assume y: "L' = L \<and> fst y = None"
      then obtain c where c: "\<not> finished" "r = Inr c"
        "(if established c then Some (None, w2) else loop L' ctx w2) = Some y"
        using body s g by (auto split: if_splits sum.splits)
      have "spec_of w2 = spec_of w" using select_spec s get_spec g y by metis
      show "spec_of (snd y) = spec_of w \<and> (\<exists>v c. crd_Get L ctx crdName v = (Inr c, snd y) \<and> established c)"
      proof (cases "established c")
        case True
        then have "y = (None, w2)" "crd_Get L ctx crdName w1 = (Inr c, w2)" using c g y by auto
        with True \<open>spec_of w2 = spec_of w\<close> show ?thesis by auto
      next
        case False
        with c IH [of L' ctx w2 y] y \<open>spec_of w2 = spec_of w\<close> show ?thesis by simp
      qed
    qed
  qed
  then show ?thesis by simp
qed

lemma waitForCRD_established:
  assumes "waitForCRD L ctx w = Some (None, w')"
  shows "spec_of w' = spec_of w \<and> (\<exists>ctx v c. crd_Get L ctx crdName v = (Inr c, w') \<and> established c)"
  using wait_loop_established [OF assms [unfolded waitForCRD_def Let_def]] ticker_spec by auto

end

section \<open>An API server in memory\<close>

text \<open>
  CRDs by name, the time, the time of the next tick, the period, and the number of polls until a CRD is established. A select
  takes whichever of the deadline and the tick comes first.
\<close>

record crd_world =
  kw_crds :: "(string \<times> crd) list"
  kw_now :: nat
  kw_next :: nat
  kw_period :: nat
  kw_delay :: nat

definition crd_status :: "crd_world \<Rightarrow> crd \<Rightarrow> crd" where
  "crd_status w c = c\<lparr>crd_Conditions := (if kw_delay w = 0 then [(''Established'', ''True'')] else [(''NamesAccepted'', ''True'')])\<rparr>"

definition past :: "deadline \<Rightarrow> nat \<Rightarrow> bool" where
  "past ctx now = (case ctx of None \<Rightarrow> False | Some d \<Rightarrow> d \<le> now)"

definition mem_crd_lib :: "crd \<Rightarrow> (crd_world, unit) crd_lib" where
  "mem_crd_lib desired = \<lparr>
     crd_Unmarshal = Inr desired, crd_NewForConfig = (\<lambda>_. None),
     crd_Get = (\<lambda>ctx n w.
       (if past ctx (kw_now w) then Inl (Newf ''context deadline exceeded'' [])
        else case map_of (kw_crds w) n of None \<Rightarrow> Inl (APIError NotFound) | Some c \<Rightarrow> Inr (crd_status w c),
        w\<lparr>kw_delay := kw_delay w - 1\<rparr>)),
     crd_Create = (\<lambda>ctx c w. case map_of (kw_crds w) (crd_Name c) of
         Some _ \<Rightarrow> (Some (APIError AlreadyExists), w)
       | None \<Rightarrow> (None, w\<lparr>kw_crds := AList.update (crd_Name c) (c\<lparr>crd_ResourceVersion := ''1''\<rparr>) (kw_crds w)\<rparr>)),
     crd_Update = (\<lambda>ctx c w. case map_of (kw_crds w) (crd_Name c) of
         None \<Rightarrow> (Some (APIError NotFound), w)
       | Some c' \<Rightarrow> if crd_ResourceVersion c' = crd_ResourceVersion c
           then (None, w\<lparr>kw_crds := AList.update (crd_Name c)
             (c\<lparr>crd_ResourceVersion := CHR ''1'' # crd_ResourceVersion c\<rparr>) (kw_crds w)\<rparr>)
           else (Some (APIError Conflict), w)),
     crd_Now = kw_now,
     crd_NewTicker = (\<lambda>d w. w\<lparr>kw_next := kw_now w + d, kw_period := d\<rparr>),
     crd_Select = (\<lambda>ctx w. if past ctx (max (kw_now w) (kw_next w)) then (True, w\<lparr>kw_now := max (kw_now w) (the ctx)\<rparr>)
       else (False, w\<lparr>kw_now := max (kw_now w) (kw_next w), kw_next := kw_next w + kw_period w\<rparr>))\<rparr>"

interpretation kt: poll_clock "mem_crd_lib desired" kw_next kw_period for desired
  by unfold_locales (auto simp: mem_crd_lib_def past_def split: option.splits if_splits)

interpretation kw: crd_api "mem_crd_lib desired" "\<lambda>w n. map_option crd_Spec (map_of (kw_crds w) n)" for desired
  by unfold_locales (auto simp: mem_crd_lib_def update_conv' split: option.splits if_splits)

section \<open>Properties\<close>

text \<open>
  C31. The installation of the CRD ends: whatever the API server answers and whichever ready case a select takes, \<^verbatim>\<open>waitForCRD\<close>
  returns, and so does \<^verbatim>\<open>InstallOrUpdate\<close>, also under a context without a deadline. It is the timeout of 30 seconds that ends the wait: of
  the libraries it is assumed that ticks come at or after their time and a period apart, and that a call with an expired
  context fails.
\<close>

theorem InstallOrUpdate_terminates:
  assumes "poll_clock L next_tick period"
  shows "\<exists>r w'. InstallOrUpdate L ctx cfg w = Some (r, w')"
  using poll_clock.waitForCRD_returns [OF assms]
  by (auto simp: InstallOrUpdate_def split: sum.splits option.splits prod.splits if_splits)

definition example_crd :: crd where
  "example_crd = \<lparr>crd_Name = crdName, crd_ResourceVersion = '''', crd_Spec = ''v1alpha1'', crd_Conditions = []\<rparr>"

theorem InstallOrUpdate_terminates_witness:
  "\<exists>r w'. InstallOrUpdate (mem_crd_lib example_crd) None ()
     \<lparr>kw_crds = [], kw_now = 7, kw_next = 0, kw_period = 0, kw_delay = 100\<rparr> = Some (r, w')"
  by (rule InstallOrUpdate_terminates) (rule kt.poll_clock_axioms)

text \<open>
  C32. A nil result of \<^verbatim>\<open>InstallOrUpdate\<close> can be trusted: the API server then stores the spec of the embedded CRD under its name,
  whether it was created or updated, and the last read of the CRD found it established.
\<close>

theorem InstallOrUpdate_installs:
  assumes "crd_api L spec_of" and "InstallOrUpdate L ctx cfg w = Some (None, w')"
  shows "\<exists>desired. crd_Unmarshal L = Inr desired \<and> spec_of w' (crd_Name desired) = Some (crd_Spec desired) \<and>
     (\<exists>ctx' v c. crd_Get L ctx' crdName v = (Inr c, w') \<and> established c)"
proof -
  obtain desired where d: "crd_Unmarshal L = Inr desired"
    using assms(2) by (auto simp: InstallOrUpdate_def parseCRD_def split: sum.splits)
  obtain w1 where w1: "spec_of w1 (crd_Name desired) = Some (crd_Spec desired)" "waitForCRD L ctx w1 = Some (None, w')"
  proof -
    obtain g w0 where g: "crd_Get L ctx crdName w = (g, w0)" by fastforce
    show thesis
    proof (cases g)
      case (Inl err)
      with assms(2) d g obtain w1 where "crd_Create L ctx desired w0 = (None, w1)" "waitForCRD L ctx w1 = Some (None, w')"
        by (auto simp: InstallOrUpdate_def parseCRD_def split: option.splits prod.splits if_splits)
      with crd_api.create_spec [OF assms(1)] that show thesis by blast
    next
      case (Inr existing)
      with assms(2) d g obtain w1 where
        "crd_Update L ctx (desired\<lparr>crd_ResourceVersion := crd_ResourceVersion existing\<rparr>) w0 = (None, w1)"
        "waitForCRD L ctx w1 = Some (None, w')"
        by (auto simp: InstallOrUpdate_def parseCRD_def split: option.splits prod.splits)
      with crd_api.update_spec [OF assms(1)] that show thesis by fastforce
    qed
  qed
  from crd_api.waitForCRD_established [OF assms(1) w1(2)] w1(1) d show ?thesis by auto
qed

theorem InstallOrUpdate_installs_witness:
  "map_option (\<lambda>(r, w'). (r, map_option crd_Spec (map_of (kw_crds w') crdName)))
     (InstallOrUpdate (mem_crd_lib example_crd) None ()
       \<lparr>kw_crds = [(crdName, example_crd\<lparr>crd_Spec := ''old''\<rparr>)], kw_now = 7, kw_next = 0, kw_period = 0, kw_delay = 2\<rparr>) =
   Some (None, Some ''v1alpha1'')"
proof -
  let ?L = "mem_crd_lib example_crd"
    and ?w = "\<lparr>kw_crds = [(crdName, example_crd\<lparr>crd_Spec := ''old''\<rparr>)], kw_now = 7, kw_next = 0, kw_period = 0, kw_delay = 2\<rparr>"
  have ok: "map_option fst (InstallOrUpdate ?L None () ?w) = Some None"
    by (simp add: InstallOrUpdate_def parseCRD_def mem_crd_lib_def waitForCRD_def WithTimeout_def waitTimeout_def pollInterval_def
        past_def crd_status_def example_crd_def established_def wait_loop.simps)
  then obtain w' where r: "InstallOrUpdate ?L None () ?w = Some (None, w')" by auto
  have u: "crd_Unmarshal ?L = Inr example_crd" by (simp add: mem_crd_lib_def)
  have "map_option crd_Spec (map_of (kw_crds w') (crd_Name example_crd)) = Some (crd_Spec example_crd)"
    using InstallOrUpdate_installs [OF kw.crd_api_axioms r] unfolding u by blast
  with r show ?thesis by (simp add: example_crd_def)
qed

end
