(* ===== verification/GoMarshal.thy ===== *)
theory GoMarshal
  imports GoJSON GoHash
begin

text \<open>
  \<^verbatim>\<open>json.Marshal\<close> of strings, objects with string members and slices, and that the decoder of GoJSON reads the result back:
  the encoding loses nothing on ASCII strings.
\<close>

section \<open>Encoding\<close>

text \<open>
  An ASCII byte: quote, backslash and the short escapes, six bytes for the other control characters and for the three
  characters that matter in HTML, and the byte itself otherwise.
\<close>

definition escape_byte :: "char \<Rightarrow> string" where
  "escape_byte c =
     (if c = CHR 0x22 \<or> c = CHR 0x5C then [CHR 0x5C, c]
      else if c = CHR 0x08 then [CHR 0x5C, CHR ''b''] else if c = CHR 0x0C then [CHR 0x5C, CHR ''f'']
      else if c = CHR 0x0A then [CHR 0x5C, CHR ''n''] else if c = CHR 0x0D then [CHR 0x5C, CHR ''r'']
      else if c = CHR 0x09 then [CHR 0x5C, CHR ''t'']
      else if of_char c < (32 :: nat) \<or> c = CHR ''<'' \<or> c = CHR ''>'' \<or> c = CHR ''&''
      then [CHR 0x5C, CHR ''u'', CHR ''0'', CHR ''0'', hex_digit (of_char c div 16), hex_digit (of_char c mod 16)]
      else [c])"

function escape_string :: "string \<Rightarrow> string" where
  "escape_string [] = []"
| "escape_string (c # s) =
     (if of_char c < (128 :: nat) then escape_byte c @ escape_string s
      else case DecodeRune c s of (rune, width) \<Rightarrow>
        (if rune = RuneError \<and> width = 1 then [CHR 0x5C] @ ''ufffd'' @ escape_string s
         else if rune = 8232 \<or> rune = 8233
         then [CHR 0x5C] @ ''u202'' @ [hex_digit (rune mod 16)] @ escape_string (drop (width - 1) s)
         else take width (c # s) @ escape_string (drop (width - 1) s)))"
  by pat_completeness auto

termination
  by (relation "measure length") auto

definition marshal_string :: "string \<Rightarrow> string" where
  "marshal_string s = [CHR 0x22] @ escape_string s @ [CHR 0x22]"

text \<open>A struct of strings, by its member names and values; the names in use need no escape.\<close>

fun marshal_fields :: "(string \<times> string) list \<Rightarrow> string" where
  "marshal_fields [] = ''}''"
| "marshal_fields ((k, v) # kvs) =
     marshal_string k @ '':'' @ marshal_string v @
     (if kvs = [] then ''}'' else '','' @ marshal_fields kvs)"

definition marshal_struct :: "(string \<times> string) list \<Rightarrow> string" where
  "marshal_struct kvs = ''{'' @ marshal_fields kvs"

fun marshal_elems :: "(string \<times> string) list list \<Rightarrow> string" where
  "marshal_elems [] = '']''"
| "marshal_elems (x # xs) = marshal_struct x @ (if xs = [] then '']'' else '','' @ marshal_elems xs)"

text \<open>A nil slice is written as null.\<close>

definition marshal_slice :: "(string \<times> string) list list \<Rightarrow> string" where
  "marshal_slice xs = (if xs = [] then ''null'' else ''['' @ marshal_elems xs)"

section \<open>Decoding what was encoded\<close>

definition ascii :: "string \<Rightarrow> bool" where
  "ascii s \<longleftrightarrow> list_all (\<lambda>c. of_char c < (128 :: nat)) s"

lemma hex_val_digit: "n < 16 \<Longrightarrow> hex_val (hex_digit n) = Some n"
proof -
  have "list_all (\<lambda>n. hex_val (hex_digit n) = Some n) [0..<16]" by code_simp
  then show "n < 16 \<Longrightarrow> ?thesis" by (simp add: list_all_iff)
qed

lemma hex4_byte:
  assumes "b < 128"
  shows "hex4 (CHR ''0'' # CHR ''0'' # hex_digit (b div 16) # hex_digit (b mod 16) # r) = Some b"
proof -
  have "hex_val (CHR ''0'') = Some 0" by code_simp
  moreover have "hex_val (hex_digit (b div 16)) = Some (b div 16)" "hex_val (hex_digit (b mod 16)) = Some (b mod 16)"
    using assms by (auto intro: hex_val_digit)
  ultimately show ?thesis by (simp add: hex4_def)
qed

lemma EncodeRune_ascii: "of_char c < (128 :: nat) \<Longrightarrow> EncodeRune (of_char c) = [c]"
  by (simp add: EncodeRune_def)

lemma jstring_escape:
  assumes "of_char c < (128 :: nat)"
  shows "jstring (escape_byte c @ r) = (case jstring r of None \<Rightarrow> None | Some (t, u) \<Rightarrow> Some (c # t, u))"
proof (cases "c = CHR 0x22 \<or> c = CHR 0x5C")
  case True
  then show ?thesis by (elim disjE) (simp_all add: escape_byte_def jchar_def simple_escape_def split: option.split)
next
  case quote: False
  show ?thesis
  proof (cases "c = CHR 0x08 \<or> c = CHR 0x0C \<or> c = CHR 0x0A \<or> c = CHR 0x0D \<or> c = CHR 0x09")
    case True
    then show ?thesis by (elim disjE) (simp_all add: escape_byte_def jchar_def simple_escape_def split: option.split)
  next
    case short: False
    show ?thesis
    proof (cases "of_char c < (32 :: nat) \<or> c = CHR ''<'' \<or> c = CHR ''>'' \<or> c = CHR ''&''")
      case True
      with quote short have e: "escape_byte c =
          [CHR 0x5C, CHR ''u'', CHR ''0'', CHR ''0'', hex_digit (of_char c div 16), hex_digit (of_char c mod 16)]"
        by (simp add: escape_byte_def)
      have "unicode_escape (of_char c) r = (of_char c, 0)" using assms by (simp add: unicode_escape_def)
      then have "jchar (CHR 0x5C) (tl (escape_byte c) @ r) = Some ([c], r)"
        using hex4_byte [OF assms, of r] EncodeRune_ascii [OF assms] unfolding e by (simp add: jchar_def)
      then show ?thesis unfolding e by (simp split: option.split)
    next
      case False
      then have "jchar c r = Some ([c], r)"
        using quote assms EncodeRune_ascii [OF assms] by (simp add: jchar_def DecodeRune_def Let_def split: prod.splits)
      moreover have "escape_byte c = [c]" using quote short False by (simp add: escape_byte_def)
      ultimately show ?thesis using quote by (simp split: option.split)
    qed
  qed
qed

lemma jstring_marshal: "ascii s \<Longrightarrow> jstring (escape_string s @ CHR 0x22 # r) = Some (s, r)"
  by (induction s) (auto simp: ascii_def jstring_escape simp del: jstring.simps(2), simp)

lemma skip_ws_quote [simp]:
  "skip_ws (CHR 0x22 # r) = CHR 0x22 # r" "skip_ws (CHR '':'' # r) = CHR '':'' # r" "skip_ws (CHR '','' # r) = CHR '','' # r"
  "skip_ws (CHR ''}'' # r) = CHR ''}'' # r" "skip_ws (CHR '']'' # r) = CHR '']'' # r" "skip_ws (CHR ''{'' # r) = CHR ''{'' # r"
  "skip_ws (CHR ''['' # r) = CHR ''['' # r"
  by (simp_all add: skip_ws_def is_ws_def)

lemma jvalue_string: "ascii s \<Longrightarrow> jvalue (Suc n) d (marshal_string s @ r) = Some (JStr s, r)"
  by (simp add: marshal_string_def jstring_marshal)

lemma jmembers_marshal:
  assumes "kvs \<noteq> []" "\<forall>(k, v) \<in> set kvs. ascii k \<and> ascii v"
  shows "jmembers (Suc (length kvs + n)) d (marshal_fields kvs @ r) = Some (map (\<lambda>(k, v). (k, JStr v)) kvs, r)"
  using assms
proof (induction kvs)
  case (Cons x kvs)
  obtain k v where x: "x = (k, v)" by fastforce
  have a: "ascii k" "ascii v" using Cons.prems(2) x by auto
  let ?rest = "if kvs = [] then ''}'' else '','' @ marshal_fields kvs"
  have key: "jstring (escape_string k @ CHR 0x22 # t) = Some (k, t)" for t using a(1) by (rule jstring_marshal)
  have L: "Suc (length (x # kvs) + n) = Suc (Suc (length kvs + n))" by simp
  have form: "marshal_fields (x # kvs) @ r = CHR 0x22 # escape_string k @ CHR 0x22 # CHR '':'' # marshal_string v @ ?rest @ r"
    by (simp add: x marshal_string_def)
  have "marshal_fields kvs = CHR 0x22 # tl (marshal_fields kvs)" if "kvs \<noteq> []"
    using that by (cases kvs) (auto simp: marshal_string_def)
  then have ws: "skip_ws (marshal_fields kvs @ r) = marshal_fields kvs @ r" if "kvs \<noteq> []" using that by (metis append_Cons skip_ws_quote(1))
  show ?case using Cons.IH Cons.prems(2) ws
    unfolding L form jmembers.simps(2) [of "Suc (length kvs + n)"]
    by (cases "kvs = []") (simp_all add: key jvalue_string [OF a(2)] x del: jvalue.simps jmembers.simps)
qed simp

lemma jvalue_struct:
  assumes "kvs \<noteq> []" "\<forall>(k, v) \<in> set kvs. ascii k \<and> ascii v" "length kvs < n" "0 < d"
  shows "jvalue (Suc n) d (marshal_struct kvs @ r) = Some (JObj (map (\<lambda>(k, v). (k, JStr v)) kvs), r)"
proof -
  obtain m where n: "n = Suc (length kvs + m)" using assms(3) by (metis less_iff_Suc_add add_Suc)
  have "marshal_fields kvs = CHR 0x22 # tl (marshal_fields kvs)"
    using assms(1) by (cases kvs) (auto simp: marshal_string_def)
  then have "skip_ws (marshal_fields kvs @ r) = marshal_fields kvs @ r" "take 1 (marshal_fields kvs @ r) = [CHR 0x22]"
    by (metis append_Cons skip_ws_quote(1), metis append_Cons take0 take_Suc_Cons One_nat_def)
  then show ?thesis using jmembers_marshal [OF assms(1,2), of m "d - 1" r] assms(4)
    by (simp add: marshal_struct_def n del: jmembers.simps)
qed

lemma jelems_marshal:
  assumes "xs \<noteq> []" "\<forall>kvs \<in> set xs. kvs \<noteq> [] \<and> length kvs < m \<and> (\<forall>(k, v) \<in> set kvs. ascii k \<and> ascii v)" "0 < d"
  shows "jelems (Suc (length xs + m + n)) d (marshal_elems xs @ r) =
     Some (map (\<lambda>kvs. JObj (map (\<lambda>(k, v). (k, JStr v)) kvs)) xs, r)"
  using assms(1,2)
proof (induction xs)
  case (Cons x xs)
  have v: "jvalue (Suc (length xs + m + n)) d (marshal_struct x @ t) = Some (JObj (map (\<lambda>(k, v). (k, JStr v)) x), t)" for t
    using Cons.prems(2) assms(3) by (intro jvalue_struct) auto
  have v0: "jvalue (Suc (m + n)) d (marshal_struct x @ t) = Some (JObj (map (\<lambda>(k, v). (k, JStr v)) x), t)" for t
    using Cons.prems(2) assms(3) by (intro jvalue_struct) auto
  have L: "Suc (length (x # xs) + m + n) = Suc (Suc (length xs + m + n))" by simp
  show ?case using Cons.IH Cons.prems(2)
    unfolding L marshal_elems.simps(2) append_assoc jelems.simps(2) [of "Suc (length xs + m + n)"]
    by (cases "xs = []") (simp_all add: v v0 del: jvalue.simps jelems.simps)
qed simp

text \<open>The decoder reads a marshalled slice back, whatever the strings in it.\<close>

lemma marshal_elems_head: "xs \<noteq> [] \<Longrightarrow> \<exists>t. marshal_elems xs = CHR ''{'' # t"
  by (cases xs) (auto simp: marshal_struct_def)

lemma jvalue_array:
  "jelems n d (CHR ''{'' # t) = Some (vs, r) \<Longrightarrow> jvalue (Suc n) (Suc d) (CHR ''['' # CHR ''{'' # t) = Some (JArr vs, r)"
  by (simp del: jelems.simps)

definition small_struct :: "(string \<times> string) list \<Rightarrow> bool" where
  "small_struct kvs \<longleftrightarrow> kvs \<noteq> [] \<and> length kvs \<le> 4 \<and> (\<forall>(k, v) \<in> set kvs. ascii k \<and> ascii v)"

lemma unmarshal_marshal_slice:
  assumes "list_all small_struct xs"
  shows "json_document (marshal_slice xs) =
     Some (if xs = [] then JNull else JArr (map (\<lambda>kvs. JObj (map (\<lambda>(k, v). (k, JStr v)) kvs)) xs))"
proof (cases "xs = []")
  case True
  have "json_document ''null'' = Some JNull" by code_simp
  with True show ?thesis by (simp add: marshal_slice_def)
next
  case False
  let ?s = "marshal_slice xs" and ?j = "map (\<lambda>kvs. JObj (map (\<lambda>(k, v). (k, JStr v)) kvs)) xs"
  obtain t where t: "marshal_elems xs = CHR ''{'' # t" using marshal_elems_head [OF False] by blast
  have d: "maxNestingDepth = Suc 9999" by (simp add: maxNestingDepth_def)
  have "jelems (Suc (length xs + 5 + 2 * length ?s)) 9999 (marshal_elems xs @ []) = Some (?j, [])"
    by (rule jelems_marshal) (use assms False in \<open>fastforce simp: list_all_iff small_struct_def\<close>)+
  then have "jvalue (Suc (Suc (length xs + 5 + 2 * length ?s))) (Suc 9999) (CHR ''['' # CHR ''{'' # t) = Some (JArr ?j, [])"
    unfolding t append_Nil2 by (rule jvalue_array)
  moreover have "?s = CHR ''['' # CHR ''{'' # t" using False t by (simp add: marshal_slice_def)
  ultimately have "jvalue (Suc (Suc (length xs + 5 + 2 * length ?s))) maxNestingDepth ?s = Some (JArr ?j, [])"
    unfolding d by (simp only:)
  moreover have "jvalue (2 * length ?s + 2 + (length xs + 5)) maxNestingDepth ?s = jvalue (2 * length ?s + 2) maxNestingDepth ?s"
    by (rule jfuel) simp
  moreover have "Suc (Suc (length xs + 5 + 2 * length ?s)) = 2 * length ?s + 2 + (length xs + 5)" by simp
  ultimately have "jvalue (2 * length ?s + 2) maxNestingDepth ?s = Some (JArr ?j, [])" by (simp only:)
  with False show ?thesis by (simp add: json_document_def skip_ws_def del: jvalue.simps)
qed

lemma marshal_slice_inject:
  assumes "marshal_slice xs = marshal_slice ys"
    and "list_all small_struct xs" "list_all small_struct ys"
  shows "xs = ys"
proof -
  have inj: "inj (\<lambda>kvs :: (string \<times> string) list. JObj (map (\<lambda>(k, v). (k, JStr v)) kvs))"
  proof (rule injI)
    fix a b :: "(string \<times> string) list"
    assume "JObj (map (\<lambda>(k, v). (k, JStr v)) a) = JObj (map (\<lambda>(k, v). (k, JStr v)) b)"
    then have "map (\<lambda>(k, v). (k, JStr v)) a = map (\<lambda>(k, v). (k, JStr v)) b" by simp
    then show "a = b" by (rule map_injective) (auto simp: inj_def)
  qed
  have "json_document (marshal_slice xs) = json_document (marshal_slice ys)" using assms(1) by simp
  then have "map (\<lambda>kvs. JObj (map (\<lambda>(k, v). (k, JStr v)) kvs)) xs = map (\<lambda>kvs. JObj (map (\<lambda>(k, v). (k, JStr v)) kvs)) ys"
    unfolding unmarshal_marshal_slice [OF assms(2)] unmarshal_marshal_slice [OF assms(3)] by (simp split: if_splits)
  then show ?thesis using inj by (rule map_injective)
qed

end
