(* ===== verification/Watcher.thy ===== *)
theory Watcher
  imports MeshTypes GoMarshal "HOL-Library.Multiset"
begin

text \<open>
  \<^verbatim>\<open>internal/restart/watcher.go\<close>: the change watcher restarts the operator when the fingerprint of the clusters and of the
  kubeconfig Secrets they refer to differs from the one taken at start-up.
\<close>

section \<open>The watcher\<close>

text \<open>
  The client lists ClusterMesh objects, of one namespace or of all, and reads the resource version of a Secret.
  \<open>cw_sort\<close> is \<^verbatim>\<open>sort.Slice\<close>, a slice sorted by a comparison; it is not stable. \<^verbatim>\<open>Cancel\<close>, when there is one, is its effect on the world.
\<close>

record clusterRef =
  cr_Name :: string
  cr_SecretNamespace :: string
  cr_SecretName :: string
  cr_SecretRV :: string

record 'w ChangeWatcher =
  cw_List :: "string option \<Rightarrow> 'w \<Rightarrow> (error + ClusterMesh list) \<times> 'w"
  cw_GetSecret :: "string \<times> string \<Rightarrow> 'w \<Rightarrow> (error + string) \<times> 'w"
  cw_sort :: "(clusterRef \<Rightarrow> clusterRef \<Rightarrow> bool) \<Rightarrow> clusterRef list \<Rightarrow> clusterRef list"
  cw_Cancel :: "('w \<Rightarrow> 'w) option"
  cw_StartFingerprint :: string

definition secretResourceVersion :: "'w ChangeWatcher \<Rightarrow> string \<Rightarrow> string \<Rightarrow> 'w \<Rightarrow> string \<times> 'w" where
  "secretResourceVersion W namespace name w =
     (case cw_GetSecret W (namespace, name) w of
        (Inl err, w) \<Rightarrow> ('''', w)
      | (Inr rv, w) \<Rightarrow> (rv, w))"

fun mesh_refs :: "'w ChangeWatcher \<Rightarrow> string \<Rightarrow> ClusterEntry list \<Rightarrow> 'w \<Rightarrow> clusterRef list \<times> 'w" where
  "mesh_refs W meshNS [] w = ([], w)"
| "mesh_refs W meshNS (c # cs) w =
     (let ref = \<lparr>cr_Name = entry_Name c, cr_SecretNamespace = '''', cr_SecretName = '''', cr_SecretRV = ''''\<rparr>
      in case (case entry_KubeconfigSecretRef c of
                 None \<Rightarrow> (ref, w)
               | Some sr \<Rightarrow>
                   (case secretResourceVersion W meshNS (ref_Name sr) w of (rv, w) \<Rightarrow>
                      (ref\<lparr>cr_SecretNamespace := meshNS, cr_SecretName := ref_Name sr, cr_SecretRV := rv\<rparr>, w))) of
        (ref, w) \<Rightarrow> (case mesh_refs W meshNS cs w of (refs, w) \<Rightarrow> (ref # refs, w)))"

fun all_refs :: "'w ChangeWatcher \<Rightarrow> ClusterMesh list \<Rightarrow> 'w \<Rightarrow> clusterRef list \<times> 'w" where
  "all_refs W [] w = ([], w)"
| "all_refs W (mesh # meshes) w =
     (case mesh_refs W (mesh_Namespace mesh) (mesh_Clusters mesh) w of (refs, w) \<Rightarrow>
       (case all_refs W meshes w of (refs', w) \<Rightarrow> (refs @ refs', w)))"

text \<open>The comparison of the sort: by name only.\<close>

definition ref_less :: "clusterRef \<Rightarrow> clusterRef \<Rightarrow> bool" where
  "ref_less a b \<longleftrightarrow> cr_Name a < cr_Name b"

definition collectRefs :: "'w ChangeWatcher \<Rightarrow> ClusterMesh list \<Rightarrow> 'w \<Rightarrow> clusterRef list \<times> 'w" where
  "collectRefs W meshes w = (case all_refs W meshes w of (refs, w) \<Rightarrow> (cw_sort W ref_less refs, w))"

text \<open>The JSON members of a reference, in the order of the struct.\<close>

definition ref_fields :: "clusterRef \<Rightarrow> (string \<times> string) list" where
  "ref_fields r = [(''name'', cr_Name r), (''secretNamespace'', cr_SecretNamespace r),
     (''secretName'', cr_SecretName r), (''secretRV'', cr_SecretRV r)]"

definition marshal_refs :: "clusterRef list \<Rightarrow> string" where
  "marshal_refs refs = marshal_slice (map ref_fields refs)"

definition fingerprint :: "clusterRef list \<Rightarrow> string" where
  "fingerprint refs = hex_EncodeToString (Sum256 (marshal_refs refs))"

definition computeFingerprint :: "'w ChangeWatcher \<Rightarrow> 'w \<Rightarrow> (error + string) \<times> 'w" where
  "computeFingerprint W w =
     (case cw_List W None w of
        (Inl err, w) \<Rightarrow> (Inl (Wrapf err ''listing ClusterMeshes'' []), w)
      | (Inr meshes, w) \<Rightarrow> (case collectRefs W meshes w of (refs, w) \<Rightarrow> (Inr (fingerprint refs), w)))"

definition ComputeFingerprint :: "'w ChangeWatcher \<Rightarrow> 'w \<Rightarrow> (error + string) \<times> 'w" where
  "ComputeFingerprint W w = computeFingerprint W w"

definition watcher_Reconcile :: "'w ChangeWatcher \<Rightarrow> 'w \<Rightarrow> error option \<times> 'w" where
  "watcher_Reconcile W w =
     (case computeFingerprint W w of
        (Inl err, w) \<Rightarrow> (Some err, w)
      | (Inr fp, w) \<Rightarrow>
          (None, if fp \<noteq> cw_StartFingerprint W
                 then (case cw_Cancel W of None \<Rightarrow> w | Some cancel \<Rightarrow> cancel w) else w))"

fun secret_requests :: "string \<Rightarrow> string \<times> string \<Rightarrow> ClusterEntry list \<Rightarrow> (string \<times> string) list" where
  "secret_requests secretName key [] = []"
| "secret_requests secretName key (c # cs) =
     (case entry_KubeconfigSecretRef c of
        None \<Rightarrow> secret_requests secretName key cs
      | Some sr \<Rightarrow> (if ref_Name sr = secretName then key # secret_requests secretName key cs
                    else secret_requests secretName key cs))"

definition secretToClusterMesh :: "'w ChangeWatcher \<Rightarrow> string \<times> string \<Rightarrow> 'w \<Rightarrow> (string \<times> string) list \<times> 'w" where
  "secretToClusterMesh W obj w =
     (case cw_List W (Some (fst obj)) w of
        (Inl err, w) \<Rightarrow> ([], w)
      | (Inr meshes, w) \<Rightarrow>
          (concat (map (\<lambda>m. secret_requests (snd obj) (mesh_Namespace m, mesh_Name m) (mesh_Clusters m)) meshes), w))"

section \<open>Facts\<close>

text \<open>The references of the meshes, as a function of the world.\<close>

definition entry_ref :: "('w \<Rightarrow> string \<times> string \<Rightarrow> string) \<Rightarrow> 'w \<Rightarrow> string \<Rightarrow> ClusterEntry \<Rightarrow> clusterRef" where
  "entry_ref version w ns c =
     (case entry_KubeconfigSecretRef c of
        None \<Rightarrow> \<lparr>cr_Name = entry_Name c, cr_SecretNamespace = '''', cr_SecretName = '''', cr_SecretRV = ''''\<rparr>
      | Some sr \<Rightarrow> \<lparr>cr_Name = entry_Name c, cr_SecretNamespace = ns, cr_SecretName = ref_Name sr,
          cr_SecretRV = version w (ns, ref_Name sr)\<rparr>)"

definition refs_of :: "('w \<Rightarrow> string \<times> string \<Rightarrow> string) \<Rightarrow> 'w \<Rightarrow> ClusterMesh list \<Rightarrow> clusterRef list" where
  "refs_of version w meshes = concat (map (\<lambda>m. map (entry_ref version w (mesh_Namespace m)) (mesh_Clusters m)) meshes)"

text \<open>What the watcher relies on: the sort permutes and sorts by the comparison, and reading a Secret changes nothing.\<close>

locale watcher_lib =
  fixes W :: "'w ChangeWatcher" and version :: "'w \<Rightarrow> string \<times> string \<Rightarrow> string"
  assumes sort_mset: "mset (cw_sort W ref_less refs) = mset refs"
    and sort_less: "sorted_wrt (\<lambda>a b. \<not> ref_less b a) (cw_sort W ref_less refs)"
    and get_version: "cw_GetSecret W nn w = (r, w') \<Longrightarrow> w' = w \<and> version w nn = (case r of Inl _ \<Rightarrow> '''' | Inr rv \<Rightarrow> rv)"
begin

lemma sort_set: "set (cw_sort W ref_less refs) = set refs"
  by (rule mset_eq_setD [OF sort_mset])

lemma sort_sorted: "sorted (map cr_Name (cw_sort W ref_less refs))"
  using sort_less by (simp add: sorted_map ref_less_def not_less)

lemma secretResourceVersion_eq: "secretResourceVersion W ns n w = (version w (ns, n), w)"
  using get_version [of "(ns, n)" w] by (auto simp: secretResourceVersion_def split: prod.splits sum.splits)

lemma mesh_refs_eq: "mesh_refs W ns cs w = (map (entry_ref version w ns) cs, w)"
  by (induction cs) (auto simp: Let_def entry_ref_def secretResourceVersion_eq split: option.splits)

lemma collectRefs_eq: "collectRefs W meshes w = (cw_sort W ref_less (refs_of version w meshes), w)"
proof -
  have "all_refs W meshes w = (refs_of version w meshes, w)"
    by (induction meshes) (simp_all add: refs_of_def mesh_refs_eq)
  then show ?thesis by (simp add: collectRefs_def)
qed

lemma sort_unique:
  assumes "mset refs = mset refs'" "distinct (map cr_Name refs)"
  shows "cw_sort W ref_less refs = cw_sort W ref_less refs'"
proof (rule map_sorted_distinct_set_unique [where f = cr_Name])
  have d: "distinct (map cr_Name (cw_sort W ref_less r))" if "mset r = mset refs" for r
  proof -
    have "mset (map cr_Name (cw_sort W ref_less r)) = mset (map cr_Name refs)" using that sort_mset [of r] by simp
    then show ?thesis using assms(2) by (metis mset_eq_imp_distinct_iff)
  qed
  show "inj_on cr_Name (set (cw_sort W ref_less refs) \<union> set (cw_sort W ref_less refs'))"
  proof -
    have "set (cw_sort W ref_less refs') = set (cw_sort W ref_less refs)" using sort_mset assms(1) by (metis set_mset_mset)
    then show ?thesis using d [of refs] by (simp add: distinct_map)
  qed
  show "distinct (map cr_Name (cw_sort W ref_less refs))" "distinct (map cr_Name (cw_sort W ref_less refs'))" using d assms(1) by simp_all
  show "set (cw_sort W ref_less refs) = set (cw_sort W ref_less refs')" using sort_mset assms(1) by (metis set_mset_mset)
qed (rule sort_sorted)+

end

text \<open>
  A sort that sees the elements through the comparison only, and makes no random choice: two slices on which all comparisons
  agree are permuted in the same way. So is \<^verbatim>\<open>sort.Slice\<close>, which is given the comparison of two positions and a swap.
\<close>

locale index_sort = watcher_lib +
  assumes sort_blind: "length xs = length ys \<Longrightarrow>
    (\<And>i j. i < length xs \<Longrightarrow> j < length xs \<Longrightarrow> ref_less (xs ! i) (xs ! j) = ref_less (ys ! i) (ys ! j)) \<Longrightarrow>
    \<exists>ix. mset ix = mset [0..<length xs] \<and>
      cw_sort W ref_less xs = map (nth xs) ix \<and> cw_sort W ref_less ys = map (nth ys) ix"
begin

lemma sort_same_names_inject:
  assumes "map cr_Name xs = map cr_Name ys" "cw_sort W ref_less xs = cw_sort W ref_less ys"
  shows "xs = ys"
proof -
  have len: "length xs = length ys" using assms(1) by (rule map_eq_imp_length_eq)
  have "cr_Name (xs ! i) = cr_Name (ys ! i)" if "i < length xs" for i
    using that len assms(1) by (metis nth_map)
  then obtain ix where ix: "mset ix = mset [0..<length xs]"
    "cw_sort W ref_less xs = map (nth xs) ix" "cw_sort W ref_less ys = map (nth ys) ix"
    using sort_blind [OF len] by (auto simp: ref_less_def)
  then have "\<forall>i \<in> set ix. xs ! i = ys ! i" using assms(2) by simp
  moreover have "set ix = {0..<length xs}" using mset_eq_setD [OF ix(1)] by simp
  ultimately show ?thesis using len by (intro nth_equalityI) auto
qed

end

lemma ref_fields_inject: "ref_fields r = ref_fields r' \<longleftrightarrow> r = r'"
  by (cases r; cases r') (simp add: ref_fields_def)

definition ascii_ref :: "clusterRef \<Rightarrow> bool" where
  "ascii_ref r \<longleftrightarrow> ascii (cr_Name r) \<and> ascii (cr_SecretNamespace r) \<and> ascii (cr_SecretName r) \<and> ascii (cr_SecretRV r)"

lemma ref_fields_ascii: "ascii_ref r \<Longrightarrow> small_struct (ref_fields r)"
proof -
  have "ascii ''name''" "ascii ''secretNamespace''" "ascii ''secretName''" "ascii ''secretRV''" by code_simp+
  then show "ascii_ref r \<Longrightarrow> ?thesis" by (simp add: small_struct_def ref_fields_def ascii_ref_def)
qed

lemma marshal_refs_inject:
  assumes "marshal_refs refs = marshal_refs refs'" "list_all ascii_ref refs" "list_all ascii_ref refs'"
  shows "refs = refs'"
proof -
  have "map ref_fields refs = map ref_fields refs'"
  proof (rule marshal_slice_inject)
    show "marshal_slice (map ref_fields refs) = marshal_slice (map ref_fields refs')" using assms(1) by (simp add: marshal_refs_def)
  qed (use assms(2,3) ref_fields_ascii in \<open>simp_all add: list_all_iff\<close>)
  moreover have "inj ref_fields" by (simp add: inj_def ref_fields_inject)
  ultimately show ?thesis by (rule map_injective)
qed

lemma hex_digit_inject: "a < 16 \<Longrightarrow> b < 16 \<Longrightarrow> hex_digit a = hex_digit b \<Longrightarrow> a = b"
  by (metis hex_val_digit option.inject)

lemma hex_EncodeToString_inject:
  "hex_EncodeToString bs = hex_EncodeToString bs' \<Longrightarrow> bs = bs'"
proof (induction bs arbitrary: bs')
  case Nil
  then show ?case by (cases bs') (simp_all add: hex_EncodeToString_def)
next
  case (Cons b bs)
  then obtain b' bs'' where b': "bs' = b' # bs''" by (cases bs') (simp_all add: hex_EncodeToString_def)
  have lt: "unat x div 16 < 16" "unat x mod 16 < 16" for x :: byte
  proof -
    have "unat x < 2 ^ LENGTH(8)" by (rule unsigned_less)
    then show "unat x div 16 < 16" "unat x mod 16 < 16" by simp_all
  qed
  have "hex_digit (unat b div 16) = hex_digit (unat b' div 16)" "hex_digit (unat b mod 16) = hex_digit (unat b' mod 16)"
    "hex_EncodeToString bs = hex_EncodeToString bs''"
    using Cons.prems by (simp_all add: b' hex_EncodeToString_def)
  then have "unat b div 16 = unat b' div 16" "unat b mod 16 = unat b' mod 16" "bs = bs''"
    using hex_digit_inject lt Cons.IH by blast+
  then have "unat b = unat b'" by (metis div_mult_mod_eq)
  then have "b = b'" by (simp add: word_unat_eq_iff)
  with \<open>bs = bs''\<close> show ?case by (simp add: b')
qed

text \<open>The fingerprint tells two sequences of references apart, unless SHA-256 collides on their documents.\<close>

lemma fingerprint_inject:
  assumes "list_all ascii_ref refs" "list_all ascii_ref refs'"
    and "Sum256 (marshal_refs refs) = Sum256 (marshal_refs refs') \<longrightarrow> marshal_refs refs = marshal_refs refs'"
  shows "fingerprint refs = fingerprint refs' \<longleftrightarrow> refs = refs'"
  using assms by (auto simp: fingerprint_def dest!: hex_EncodeToString_inject marshal_refs_inject)

section \<open>A watcher in memory\<close>

record watch_world =
  ww_meshes :: "ClusterMesh list"
  ww_secrets :: "((string \<times> string) \<times> string) list"
  ww_cancelled :: bool

text \<open>Insertion sort, which \<^verbatim>\<open>sort.Slice\<close> uses on up to twelve elements.\<close>

fun insert_by :: "('a \<Rightarrow> 'a \<Rightarrow> bool) \<Rightarrow> 'a \<Rightarrow> 'a list \<Rightarrow> 'a list" where
  "insert_by lt x [] = [x]"
| "insert_by lt x (y # ys) = (if lt x y then x # y # ys else y # insert_by lt x ys)"

definition sort_by :: "('a \<Rightarrow> 'a \<Rightarrow> bool) \<Rightarrow> 'a list \<Rightarrow> 'a list" where
  "sort_by lt xs = fold (insert_by lt) xs []"

lemma mset_insert_by [simp]: "mset (insert_by lt x ys) = add_mset x (mset ys)"
  by (induction ys) auto

lemma set_insert_by [simp]: "set (insert_by lt x ys) = insert x (set ys)"
  by (induction ys) auto

lemma mset_sort_by [simp]: "mset (sort_by lt xs) = mset xs"
proof -
  have "mset (fold (insert_by lt) xs acc) = mset xs + mset acc" for acc
    by (induction xs arbitrary: acc) auto
  then show ?thesis by (simp add: sort_by_def)
qed

lemma sort_by_sorted: "sorted_wrt (\<lambda>a b. \<not> ref_less b a) (sort_by ref_less xs)"
proof -
  have ins: "sorted_wrt (\<lambda>a b. \<not> ref_less b a) (insert_by ref_less x ys)"
    if "sorted_wrt (\<lambda>a b. \<not> ref_less b a) ys" for x ys
    using that by (induction ys) (auto simp: ref_less_def)
  have "sorted_wrt (\<lambda>a b. \<not> ref_less b a) (fold (insert_by ref_less) xs acc)"
    if "sorted_wrt (\<lambda>a b. \<not> ref_less b a) acc" for acc
    using that by (induction xs arbitrary: acc) (auto simp: ins)
  then show ?thesis by (simp add: sort_by_def)
qed

lemma map_insert_by: "map f (insert_by (\<lambda>a b. lt (f a) (f b)) x ys) = insert_by lt (f x) (map f ys)"
  by (induction ys) auto

lemma map_sort_by: "map f (sort_by (\<lambda>a b. lt (f a) (f b)) xs) = sort_by lt (map f xs)"
proof -
  have "map f (fold (insert_by (\<lambda>a b. lt (f a) (f b))) xs acc) = fold (insert_by lt) (map f xs) (map f acc)" for acc
    by (induction xs arbitrary: acc) (auto simp: map_insert_by)
  from this [of "[]"] show ?thesis by (simp add: sort_by_def)
qed

lemma insert_by_cong:
  "(\<And>y. y \<in> set ys \<Longrightarrow> lt x y = lt' x y) \<Longrightarrow> insert_by lt x ys = insert_by lt' x ys"
  by (induction ys) auto

lemma sort_by_cong:
  assumes "\<And>a b. a \<in> set xs \<Longrightarrow> b \<in> set xs \<Longrightarrow> lt a b = lt' a b"
  shows "sort_by lt xs = sort_by lt' xs"
proof -
  have "fold (insert_by lt) zs acc = fold (insert_by lt') zs acc"
    if "set zs \<union> set acc \<subseteq> set xs" for zs acc
    using that
  proof (induction zs arbitrary: acc)
    case (Cons z zs)
    have "insert_by lt z acc = insert_by lt' z acc" using Cons.prems assms by (intro insert_by_cong) auto
    with Cons show ?case by simp
  qed simp
  then show ?thesis by (simp add: sort_by_def)
qed

lemma sort_by_index: "sort_by lt xs = map (nth xs) (sort_by (\<lambda>i j. lt (xs ! i) (xs ! j)) [0..<length xs])"
  using map_sort_by [of "nth xs" lt "[0..<length xs]"] by (simp add: map_nth)

lemma sort_by_blind:
  assumes "length xs = length ys"
    and "\<And>i j. i < length xs \<Longrightarrow> j < length xs \<Longrightarrow> lt (xs ! i) (xs ! j) = lt (ys ! i) (ys ! j)"
  shows "\<exists>ix. mset ix = mset [0..<length xs] \<and> sort_by lt xs = map (nth xs) ix \<and> sort_by lt ys = map (nth ys) ix"
proof -
  let ?ix = "sort_by (\<lambda>i j. lt (xs ! i) (xs ! j)) [0..<length xs]"
  have "?ix = sort_by (\<lambda>i j. lt (ys ! i) (ys ! j)) [0..<length xs]"
    by (rule sort_by_cong) (simp add: assms(2))
  then have "sort_by lt ys = map (nth ys) ?ix" using sort_by_index [of lt ys] assms(1) by simp
  moreover have "sort_by lt xs = map (nth xs) ?ix" by (rule sort_by_index)
  moreover have "mset ?ix = mset [0..<length xs]" by (rule mset_sort_by)
  ultimately show ?thesis by blast
qed

definition mem_watcher :: "string \<Rightarrow> watch_world ChangeWatcher" where
  "mem_watcher start = \<lparr>
     cw_List = (\<lambda>ns w. (Inr (case ns of None \<Rightarrow> ww_meshes w | Some ns \<Rightarrow> filter (\<lambda>m. mesh_Namespace m = ns) (ww_meshes w)), w)),
     cw_GetSecret = (\<lambda>nn w. (case map_of (ww_secrets w) nn of None \<Rightarrow> Inl (APIError NotFound) | Some rv \<Rightarrow> Inr rv, w)),
     cw_sort = sort_by,
     cw_Cancel = Some (\<lambda>w. w\<lparr>ww_cancelled := True\<rparr>),
     cw_StartFingerprint = start\<rparr>"

definition mem_version :: "watch_world \<Rightarrow> string \<times> string \<Rightarrow> string" where
  "mem_version w nn = (case map_of (ww_secrets w) nn of None \<Rightarrow> '''' | Some rv \<Rightarrow> rv)"

interpretation ww: index_sort "mem_watcher start" mem_version for start
proof
  fix xs ys :: "clusterRef list"
  assume "length xs = length ys"
    "\<And>i j. i < length xs \<Longrightarrow> j < length xs \<Longrightarrow> ref_less (xs ! i) (xs ! j) = ref_less (ys ! i) (ys ! j)"
  then show "\<exists>ix. mset ix = mset [0..<length xs] \<and> cw_sort (mem_watcher start) ref_less xs = map (nth xs) ix \<and>
      cw_sort (mem_watcher start) ref_less ys = map (nth ys) ix"
    unfolding mem_watcher_def ChangeWatcher.simps by (rule sort_by_blind)
qed (auto simp: mem_watcher_def mem_version_def sort_by_sorted split: option.splits)

section \<open>Properties\<close>

text \<open>
  C30. The watcher restarts the operator exactly when the configuration changed: once the meshes can be listed, \<^verbatim>\<open>Reconcile\<close> returns nil, and
  it cancels exactly when the sorted references (cluster names, the Secrets they name and the versions of these) differ from those
  at start-up. This needs ASCII names, as Kubernetes has them, and that SHA-256 does not collide on the two documents.
\<close>

theorem watcher_restarts_on_change:
  assumes "watcher_lib W version" and "cw_List W None w = (Inr meshes, w1)" and "cw_Cancel W = Some cancel"
    and "cw_StartFingerprint W = fingerprint refs"
    and "list_all ascii_ref refs" and "list_all ascii_ref (refs_of version w1 meshes)"
    and "Sum256 (marshal_refs (cw_sort W ref_less (refs_of version w1 meshes))) = Sum256 (marshal_refs refs) \<longrightarrow>
      marshal_refs (cw_sort W ref_less (refs_of version w1 meshes)) = marshal_refs refs"
  shows "watcher_Reconcile W w = (None, if cw_sort W ref_less (refs_of version w1 meshes) = refs then w1 else cancel w1)"
proof -
  let ?new = "cw_sort W ref_less (refs_of version w1 meshes)"
  have "list_all ascii_ref ?new" using assms(6) by (simp add: list_all_iff watcher_lib.sort_set [OF assms(1)])
  then have "fingerprint ?new = fingerprint refs \<longleftrightarrow> ?new = refs" using assms(5,7) by (intro fingerprint_inject)
  then show ?thesis
    by (simp add: watcher_Reconcile_def computeFingerprint_def watcher_lib.collectRefs_eq [OF assms(1)] assms(2-4))
qed

definition watch_mesh :: "string \<Rightarrow> string \<Rightarrow> string \<Rightarrow> ClusterMesh" where
  "watch_mesh ns key cluster = new_mesh ''m'' ns
     [\<lparr>entry_Name = cluster, entry_Local = False, entry_KubeconfigSecretRef = Some \<lparr>ref_Name = ''kc'', ref_Key = key\<rparr>,
       entry_AllowedNetworks = [], entry_WireguardPort = 0, entry_PersistentKeepalive = 0\<rparr>]"

definition watch_ref :: "string \<Rightarrow> string \<Rightarrow> string \<Rightarrow> clusterRef" where
  "watch_ref ns cluster rv = \<lparr>cr_Name = cluster, cr_SecretNamespace = ns, cr_SecretName = ''kc'', cr_SecretRV = rv\<rparr>"

definition watched :: watch_world where
  "watched = \<lparr>ww_meshes = [watch_mesh ''ns'' ''k'' ''b''], ww_secrets = [((''ns'', ''kc''), ''7'')], ww_cancelled = False\<rparr>"

theorem watcher_restarts_on_change_witness:
  "watcher_Reconcile (mem_watcher (fingerprint [watch_ref ''ns'' ''b'' ''7''])) watched = (None, watched)"
proof -
  let ?W = "mem_watcher (fingerprint [watch_ref ''ns'' ''b'' ''7''])"
  have l: "cw_List ?W None watched = (Inr [watch_mesh ''ns'' ''k'' ''b''], watched)" by (simp add: mem_watcher_def watched_def)
  have c: "cw_Cancel ?W = Some (\<lambda>w. w\<lparr>ww_cancelled := True\<rparr>)" "cw_StartFingerprint ?W = fingerprint [watch_ref ''ns'' ''b'' ''7'']"
    by (simp_all add: mem_watcher_def)
  have r: "refs_of mem_version watched [watch_mesh ''ns'' ''k'' ''b''] = [watch_ref ''ns'' ''b'' ''7'']"
    by (simp add: refs_of_def entry_ref_def watch_mesh_def watch_ref_def mem_version_def watched_def)
  have s: "cw_sort ?W ref_less [x] = [x]" for x by (simp add: mem_watcher_def sort_by_def)
  have a: "list_all ascii_ref [watch_ref ''ns'' ''b'' ''7'']" by code_simp
  from watcher_restarts_on_change [OF ww.watcher_lib_axioms l c, unfolded r s] a
  have "watcher_Reconcile ?W watched = (None, if [watch_ref ''ns'' ''b'' ''7''] = [watch_ref ''ns'' ''b'' ''7''] then watched
      else watched\<lparr>ww_cancelled := True\<rparr>)" by blast
  then show ?thesis by simp
qed

text \<open>
  The fingerprint does not depend on the order in which the meshes are listed, as long as no cluster name occurs twice: a cache that
  lists the meshes in another order does not restart the operator.
\<close>

theorem fingerprint_order_independent:
  assumes "watcher_lib W version" and "mset meshes = mset meshes'" and "distinct (map cr_Name (refs_of version w meshes))"
  shows "collectRefs W meshes w = collectRefs W meshes' w"
proof -
  have "mset (refs_of version w ms) = sum_mset (image_mset (\<lambda>m. mset (map (entry_ref version w (mesh_Namespace m)) (mesh_Clusters m))) (mset ms))"
    for ms by (induction ms) (simp_all add: refs_of_def)
  then have "mset (refs_of version w meshes) = mset (refs_of version w meshes')" using assms(2) by simp
  from watcher_lib.sort_unique [OF assms(1) this assms(3)] show ?thesis
    by (simp add: watcher_lib.collectRefs_eq [OF assms(1)])
qed

theorem fingerprint_order_independent_witness:
  "collectRefs (mem_watcher '''') [watch_mesh ''ns'' ''k'' ''b'', watch_mesh ''ns2'' ''k'' ''c''] watched =
   collectRefs (mem_watcher '''') [watch_mesh ''ns2'' ''k'' ''c'', watch_mesh ''ns'' ''k'' ''b''] watched"
  by (rule fingerprint_order_independent [OF ww.watcher_lib_axioms])
    (simp_all add: refs_of_def entry_ref_def watch_mesh_def)

text \<open>
  C33. The fingerprint depends on the order of the list: let two meshes name the same clusters in the same order while their references
  differ, for instance because the meshes are in different namespaces and an entry names a Secret. If the list of the meshes
  has the two swapped, the documents that are hashed differ although no mesh changed, since the sort compares the names only
  and keeps no order of its own among equal names; so a watcher whose start fingerprint was taken from the one list cancels on the
  other (unless SHA-256 collides on the two documents).
\<close>

theorem fingerprint_order_dependent:
  assumes "index_sort W version" and "map entry_Name (mesh_Clusters m1) = map entry_Name (mesh_Clusters m2)"
    and "refs_of version w1 [m1] \<noteq> refs_of version w1 [m2]"
    and "list_all ascii_ref (refs_of version w1 (pre @ [m1, m2] @ post))"
    and "cw_List W None w = (Inr (pre @ [m2, m1] @ post), w1)" and "cw_Cancel W = Some cancel"
    and "cw_StartFingerprint W = fingerprint (fst (collectRefs W (pre @ [m1, m2] @ post) w1))"
  shows "marshal_refs (fst (collectRefs W (pre @ [m2, m1] @ post) w1)) \<noteq>
       marshal_refs (fst (collectRefs W (pre @ [m1, m2] @ post) w1)) \<and>
     (Sum256 (marshal_refs (fst (collectRefs W (pre @ [m2, m1] @ post) w1))) \<noteq>
        Sum256 (marshal_refs (fst (collectRefs W (pre @ [m1, m2] @ post) w1))) \<longrightarrow>
      watcher_Reconcile W w = (None, cancel w1))"
proof -
  have wl: "watcher_lib W version" using assms(1) by (rule index_sort.axioms)
  let ?old = "refs_of version w1 (pre @ [m1, m2] @ post)" and ?new = "refs_of version w1 (pre @ [m2, m1] @ post)"
  have name: "cr_Name (entry_ref version w1 ns c) = entry_Name c" for ns c by (simp add: entry_ref_def split: option.split)
  have names: "map cr_Name (refs_of version w1 ms) = concat (map (\<lambda>m. map entry_Name (mesh_Clusters m)) ms)" for ms
    by (simp add: refs_of_def map_concat comp_def name)
  have one: "refs_of version w1 [m] = map (entry_ref version w1 (mesh_Namespace m)) (mesh_Clusters m)" for m
    by (simp add: refs_of_def)
  have len: "length (refs_of version w1 [m1]) = length (refs_of version w1 [m2])"
    using map_eq_imp_length_eq [OF assms(2)] by (simp add: one)
  have split: "refs_of version w1 (pre @ [a, b] @ post) =
      refs_of version w1 pre @ refs_of version w1 [a] @ refs_of version w1 [b] @ refs_of version w1 post" for a b
    by (simp add: refs_of_def)
  have "?new \<noteq> ?old" unfolding split using assms(3) len by simp
  moreover have "map cr_Name ?new = map cr_Name ?old" unfolding names using assms(2) by simp
  ultimately have sorted: "cw_sort W ref_less ?new \<noteq> cw_sort W ref_less ?old"
    using index_sort.sort_same_names_inject [OF assms(1)] by blast
  have "set ?new = set ?old" unfolding split by auto
  then have ascii: "list_all ascii_ref (cw_sort W ref_less ?new)" "list_all ascii_ref (cw_sort W ref_less ?old)"
    using assms(4) by (simp_all add: list_all_iff watcher_lib.sort_set [OF wl])
  note collect = watcher_lib.collectRefs_eq [OF wl]
  have doc: "marshal_refs (cw_sort W ref_less ?new) \<noteq> marshal_refs (cw_sort W ref_less ?old)"
    using marshal_refs_inject [OF _ ascii] sorted by blast
  moreover have "fingerprint (cw_sort W ref_less ?new) \<noteq> fingerprint (cw_sort W ref_less ?old)"
    if "Sum256 (marshal_refs (cw_sort W ref_less ?new)) \<noteq> Sum256 (marshal_refs (cw_sort W ref_less ?old))"
    using that hex_EncodeToString_inject by (auto simp: fingerprint_def)
  ultimately show ?thesis
    using assms(5-7) by (simp add: collect watcher_Reconcile_def computeFingerprint_def)
qed

text \<open>One cluster named by two meshes of different namespaces, each with a Secret of its own.\<close>

definition shared :: watch_world where
  "shared = watched\<lparr>ww_meshes := [watch_mesh ''ns2'' ''k'' ''b'', watch_mesh ''ns'' ''k'' ''b'']\<rparr>"

theorem fingerprint_order_dependent_witness:
  "marshal_refs (fst (collectRefs (mem_watcher '''') [watch_mesh ''ns2'' ''k'' ''b'', watch_mesh ''ns'' ''k'' ''b''] shared)) \<noteq>
   marshal_refs (fst (collectRefs (mem_watcher '''') [watch_mesh ''ns'' ''k'' ''b'', watch_mesh ''ns2'' ''k'' ''b''] shared))"
proof -
  let ?m1 = "watch_mesh ''ns'' ''k'' ''b''" and ?m2 = "watch_mesh ''ns2'' ''k'' ''b''"
  let ?W = "mem_watcher (fingerprint (fst (collectRefs (mem_watcher '''') [?m1, ?m2] shared)))"
  have same: "collectRefs ?W ms shared = collectRefs (mem_watcher '''') ms shared" for ms
    by (simp add: ww.collectRefs_eq) (simp add: mem_watcher_def)
  have l: "cw_List ?W None shared = (Inr ([] @ [?m2, ?m1] @ []), shared)" by (simp add: mem_watcher_def shared_def)
  have c: "cw_Cancel ?W = Some (\<lambda>w. w\<lparr>ww_cancelled := True\<rparr>)" by (simp add: mem_watcher_def)
  have fp: "cw_StartFingerprint ?W = fingerprint (fst (collectRefs ?W ([] @ [?m1, ?m2] @ []) shared))"
    unfolding same by (simp add: mem_watcher_def)
  have n: "map entry_Name (mesh_Clusters ?m1) = map entry_Name (mesh_Clusters ?m2)" by (simp add: watch_mesh_def)
  have d: "refs_of mem_version shared [?m1] \<noteq> refs_of mem_version shared [?m2]"
    by (simp add: refs_of_def entry_ref_def watch_mesh_def)
  have a: "list_all ascii_ref (refs_of mem_version shared ([] @ [?m1, ?m2] @ []))" by code_simp
  from fingerprint_order_dependent [OF ww.index_sort_axioms n d a l c fp] show ?thesis
    unfolding same append_Nil append_Nil2 by blast
qed

definition rekey :: "(string \<Rightarrow> string) \<Rightarrow> ClusterMesh \<Rightarrow> ClusterMesh" where
  "rekey f mesh = mesh\<lparr>mesh_Clusters := map (\<lambda>c. c\<lparr>entry_KubeconfigSecretRef :=
     map_option (\<lambda>sr. sr\<lparr>ref_Key := f (entry_Name c)\<rparr>) (entry_KubeconfigSecretRef c)\<rparr>) (mesh_Clusters mesh)\<rparr>"

text \<open>
  C34. The key of a kubeconfig within its Secret is not part of the fingerprint: whatever keys the entries name, the references are
  the same, so a change of the key never restarts the operator and the registry keeps the client of the old one.
\<close>

theorem key_change_unnoticed: "collectRefs W (map (rekey f) meshes) w = collectRefs W meshes w"
proof -
  have "mesh_refs W ns (map (\<lambda>c. c\<lparr>entry_KubeconfigSecretRef :=
      map_option (\<lambda>sr. sr\<lparr>ref_Key := f (entry_Name c)\<rparr>) (entry_KubeconfigSecretRef c)\<rparr>) cs) w = mesh_refs W ns cs w" for ns cs w
    by (induction cs arbitrary: w) (simp_all add: Let_def split: option.split prod.split)
  then have "all_refs W (map (rekey f) meshes) w = all_refs W meshes w"
    by (induction meshes arbitrary: w) (simp_all add: rekey_def split: prod.split)
  then show ?thesis by (simp add: collectRefs_def)
qed

text \<open>
  A Secret event requeues exactly the meshes of the Secret's namespace that name it in some entry.
\<close>

theorem secretToClusterMesh_exact:
  "set (fst (secretToClusterMesh W (ns, name) w)) =
     (case cw_List W (Some ns) w of
        (Inl _, _) \<Rightarrow> {}
      | (Inr meshes, _) \<Rightarrow> {(mesh_Namespace m, mesh_Name m) | m.
          m \<in> set meshes \<and> (\<exists>c \<in> set (mesh_Clusters m). map_option ref_Name (entry_KubeconfigSecretRef c) = Some name)})"
proof -
  have "x \<in> set (secret_requests n key cs) \<longleftrightarrow>
      x = key \<and> (\<exists>c \<in> set cs. map_option ref_Name (entry_KubeconfigSecretRef c) = Some n)" for x n key cs
    by (induction cs) (auto split: option.splits)
  then show ?thesis by (fastforce simp: secretToClusterMesh_def split: prod.splits sum.splits)
qed

end
