(* ===== verification/Operator.thy ===== *)
theory Operator
  imports Flags CrdInstall Watcher Controller
begin

text \<open>
  \<^verbatim>\<open>cmd/main.go\<close>: the operator from its command line to the running manager. The manager of controller-runtime, the
  Kubernetes configuration and the signal handling are parameters; the two controllers are handed to the manager with the
  watches their \<^verbatim>\<open>SetupWithManager\<close> registers.
\<close>

section \<open>Options of the manager\<close>

record tls_Config =
  NextProtos :: "string list"

type_synonym tls_option = "tls_Config \<Rightarrow> tls_Config"

record webhook_Options =
  wh_TLSOpts :: "tls_option list"
  wh_CertDir :: string
  wh_CertName :: string
  wh_KeyName :: string

datatype filter_provider = WithAuthenticationAndAuthorization

record metrics_Options =
  mo_BindAddress :: string
  mo_SecureServing :: bool
  mo_TLSOpts :: "tls_option list"
  mo_FilterProvider :: "filter_provider option"
  mo_CertDir :: string
  mo_CertName :: string
  mo_KeyName :: string

record manager_Options =
  mg_Metrics :: metrics_Options
  mg_WebhookServer :: webhook_Options
  mg_HealthProbeBindAddress :: string
  mg_LeaderElection :: bool
  mg_LeaderElectionID :: string

definition leaderElectionID :: string where
  "leaderElectionID = ''f27237f1.squat.ai''"

definition disableHTTP2 :: tls_option where
  "disableHTTP2 c = c\<lparr>NextProtos := [''http/1.1'']\<rparr>"

definition manager_options :: "runtimeOpts \<Rightarrow> manager_Options" where
  "manager_options opts =
     (let tlsOpts = (if \<not> enableHTTP2 opts then [disableHTTP2] else []);
          webhookServerOptions = \<lparr>wh_TLSOpts = tlsOpts, wh_CertDir = '''', wh_CertName = '''', wh_KeyName = ''''\<rparr>;
          webhookServerOptions =
            (if webhookCertPath opts \<noteq> '''' then
               webhookServerOptions\<lparr>wh_CertDir := webhookCertPath opts, wh_CertName := webhookCertName opts,
                 wh_KeyName := webhookCertKey opts\<rparr>
             else webhookServerOptions);
          metricsServerOptions = \<lparr>mo_BindAddress = metricsAddr opts, mo_SecureServing = secureMetrics opts, mo_TLSOpts = tlsOpts,
            mo_FilterProvider = None, mo_CertDir = '''', mo_CertName = '''', mo_KeyName = ''''\<rparr>;
          metricsServerOptions =
            (if secureMetrics opts then
               metricsServerOptions\<lparr>mo_FilterProvider := Some WithAuthenticationAndAuthorization\<rparr>
             else metricsServerOptions);
          metricsServerOptions =
            (if metricsCertPath opts \<noteq> '''' then
               metricsServerOptions\<lparr>mo_CertDir := metricsCertPath opts, mo_CertName := metricsCertName opts,
                 mo_KeyName := metricsCertKey opts\<rparr>
             else metricsServerOptions)
      in \<lparr>mg_Metrics = metricsServerOptions, mg_WebhookServer = webhookServerOptions,
          mg_HealthProbeBindAddress = probeAddr opts, mg_LeaderElection = enableLeaderElection opts,
          mg_LeaderElectionID = leaderElectionID\<rparr>)"

section \<open>Controllers and their watches\<close>

datatype event_predicate = GenerationChanged | AnnotationChanged | AnyOf "event_predicate list"

datatype 'w reconciler = MeshReconciler "'w ClusterMeshReconciler" | WatchReconciler "'w ChangeWatcher"

text \<open>
  A controller as it is handed to the manager: its name, whether delete events of ClusterMesh objects are filtered out, the Node
  watches by cluster with their predicate and the requests an event is mapped to, the mapping of Secret events, and the reconciler.
\<close>

record 'w controller_spec =
  cs_Named :: string
  cs_DropDeletes :: bool
  cs_NodeWatches :: "(string \<times> event_predicate \<times> ('w \<Rightarrow> (string \<times> string) list \<times> 'w)) list"
  cs_SecretWatch :: "(string \<times> string \<Rightarrow> 'w \<Rightarrow> (string \<times> string) list \<times> 'w) option"
  cs_Reconciler :: "'w reconciler"

text \<open>
  The libraries of the start-up. \<open>op_Reconciler\<close> is the reconciler with the client and recorder of the manager,
  \<open>op_PreClient\<close> and \<open>op_MgrClient\<close> the change watcher with the client made before the manager and with that of the manager,
  \<open>op_Cancel\<close> the cancellation of the manager's context; \<^verbatim>\<open>GetConfigOrDie\<close> exits when there is no configuration.
\<close>

record ('w, 'c, 'h, 'm, 'a) operator_lib =
  op_Flags :: extra_flags
  op_Env :: str_map
  op_GetConfig :: "error + 'c"
  op_Crd :: "('w, 'c) crd_lib"
  op_Clusters :: "('w, 'c, 'h) cluster_lib"
  op_Mappers :: "('w, 'c, 'h, 'm, 'a) mapper_lib"
  op_NewManager :: "'c \<Rightarrow> manager_Options \<Rightarrow> 'w \<Rightarrow> error option \<times> 'w"
  op_Add :: "'w cluster \<Rightarrow> 'w \<Rightarrow> error option \<times> 'w"
  op_Complete :: "'w controller_spec \<Rightarrow> 'w \<Rightarrow> error option \<times> 'w"
  op_AddHealthzCheck :: "string \<Rightarrow> 'w \<Rightarrow> error option \<times> 'w"
  op_AddReadyzCheck :: "string \<Rightarrow> 'w \<Rightarrow> error option \<times> 'w"
  op_Start :: "'w \<Rightarrow> error option \<times> 'w"
  op_Reconciler :: "'w ClusterMeshReconciler"
  op_PreClient :: "'w ChangeWatcher"
  op_MgrClient :: "'w ChangeWatcher"
  op_Cancel :: "'w \<Rightarrow> 'w"
  op_order :: "'w \<Rightarrow> string list \<Rightarrow> string list"

section \<open>Wiring\<close>

definition newManager ::
  "('w, 'c, 'h, 'm, 'a) operator_lib \<Rightarrow> 'c \<Rightarrow> runtimeOpts \<Rightarrow> 'w \<Rightarrow> error option \<times> 'w" where
  "newManager K cfg opts w =
     (case op_NewManager K cfg (manager_options opts) w of (err, w) \<Rightarrow> (wrapf err ''creating manager'' [], w))"

text \<open>\<^verbatim>\<open>SetupWithManager\<close> of the reconciler: one Node watch per registered cluster.\<close>

definition reconciler_SetupWithManager ::
  "('w, 'c, 'h, 'm, 'a) operator_lib \<Rightarrow> 'w ClusterMeshReconciler \<Rightarrow> 'w \<Rightarrow> error option \<times> 'w" where
  "reconciler_SetupWithManager K R w =
     (case op_Complete K
        \<lparr>cs_Named = ''clustermesh'', cs_DropDeletes = True,
         cs_NodeWatches = map (\<lambda>clusterName. (clusterName, AnyOf [GenerationChanged, AnnotationChanged], nodeToClusterMeshRequests R clusterName))
           (op_order K w (map fst (reg_All (r_Registry R)))),
         cs_SecretWatch = None, cs_Reconciler = MeshReconciler R\<rparr> w of
        (err, w) \<Rightarrow> (wrapf err ''building clustermesh controller'' [], w))"

definition watcher_SetupWithManager ::
  "('w, 'c, 'h, 'm, 'a) operator_lib \<Rightarrow> 'w ChangeWatcher \<Rightarrow> 'w \<Rightarrow> error option \<times> 'w" where
  "watcher_SetupWithManager K W w =
     (case op_Complete K
        \<lparr>cs_Named = ''change-watcher'', cs_DropDeletes = False, cs_NodeWatches = [],
         cs_SecretWatch = Some (secretToClusterMesh W), cs_Reconciler = WatchReconciler W\<rparr> w of
        (err, w) \<Rightarrow> (wrapf err ''building change-watcher controller'' [], w))"

definition wireReconciler ::
  "('w, 'c, 'h, 'm, 'a) operator_lib \<Rightarrow> 'w ClusterRegistry \<Rightarrow> 'w \<Rightarrow> error option \<times> 'w" where
  "wireReconciler K registry w =
     (case reconciler_SetupWithManager K ((op_Reconciler K)\<lparr>r_Registry := registry\<rparr>) w of
        (err, w) \<Rightarrow> (wrapf err ''registering ClusterMesh reconciler'' [], w))"

text \<open>The watcher with its start fingerprint, computed through the client made before the manager.\<close>

definition start_watcher ::
  "('w, 'c, 'h, 'm, 'a) operator_lib \<Rightarrow> 'c \<Rightarrow> 'w \<Rightarrow> (error + 'w ChangeWatcher) \<times> 'w" where
  "start_watcher K cfg w =
     (case lib_NewClient (op_Clusters K) cfg of
        Some err \<Rightarrow> (Inl (Wrapf err ''building pre-manager client for fingerprint'' []), w)
      | None \<Rightarrow>
          (case ComputeFingerprint ((op_PreClient K)\<lparr>cw_Cancel := None, cw_StartFingerprint := ''''\<rparr>) w of
             (Inl err, w) \<Rightarrow> (Inl (Wrapf err ''computing start fingerprint'' []), w)
           | (Inr fp, w) \<Rightarrow>
               (Inr ((op_MgrClient K)\<lparr>cw_Cancel := Some (op_Cancel K), cw_StartFingerprint := fp\<rparr>), w)))"

definition wireChangeWatcher :: "('w, 'c, 'h, 'm, 'a) operator_lib \<Rightarrow> 'c \<Rightarrow> 'w \<Rightarrow> error option \<times> 'w" where
  "wireChangeWatcher K cfg w =
     (case start_watcher K cfg w of
        (Inl err, w) \<Rightarrow> (Some err, w)
      | (Inr watcher, w) \<Rightarrow>
          (case watcher_SetupWithManager K watcher w of (err, w) \<Rightarrow> (wrapf err ''registering change-watcher'' [], w)))"

section \<open>The operator\<close>

fun add_clusters ::
  "('w, 'c, 'h, 'm, 'a) operator_lib \<Rightarrow> 'w ClusterRegistry \<Rightarrow> string list \<Rightarrow> 'w \<Rightarrow> error option \<times> 'w" where
  "add_clusters K registry [] w = (None, w)"
| "add_clusters K registry (name # names) w =
     (case map_of (reg_All registry) name of
        None \<Rightarrow> add_clusters K registry names w
      | Some c \<Rightarrow>
          (case op_Add K c w of
             (Some err, w) \<Rightarrow> (Some (Wrapf err ''registering cluster %q with manager'' [name]), w)
           | (None, w) \<Rightarrow> add_clusters K registry names w))"

text \<open>The checks and the manager, in the order of the end of \<^verbatim>\<open>run\<close>.\<close>

definition start_manager :: "('w, 'c, 'h, 'm, 'a) operator_lib \<Rightarrow> 'w \<Rightarrow> error option \<times> 'w" where
  "start_manager K w =
     (case op_AddHealthzCheck K ''healthz'' w of
        (Some err, w) \<Rightarrow> (Some (Wrapf err ''setting up health check'' []), w)
      | (None, w) \<Rightarrow>
          (case op_AddReadyzCheck K ''readyz'' w of
             (Some err, w) \<Rightarrow> (Some (Wrapf err ''setting up ready check'' []), w)
           | (None, w) \<Rightarrow>
               (case op_Start K w of
                  (Some err, w) \<Rightarrow> (Some (Wrapf err ''manager exited with error'' []), w)
                | (None, w) \<Rightarrow> (None, w))))"

definition wire_manager ::
  "('w, 'c, 'h, 'm, 'a) operator_lib \<Rightarrow> 'c \<Rightarrow> 'w ClusterRegistry \<Rightarrow> 'w \<Rightarrow> error option \<times> 'w" where
  "wire_manager K cfg registry w =
     (case add_clusters K registry (op_order K w (map fst (reg_All registry))) w of
        (Some err, w) \<Rightarrow> (Some err, w)
      | (None, w) \<Rightarrow>
          (case wireReconciler K registry w of
             (Some err, w) \<Rightarrow> (Some err, w)
           | (None, w) \<Rightarrow>
               (case wireChangeWatcher K cfg w of
                  (Some err, w) \<Rightarrow> (Some err, w)
                | (None, w) \<Rightarrow> start_manager K w)))"

text \<open>A process that exits, or a \<^verbatim>\<open>run\<close> that returns. The result is \<open>None\<close> when the wait for the CRD does not end.\<close>

datatype outcome = Exit nat | Returned "error option"

definition run :: "('w, 'c, 'h, 'm, 'a) operator_lib \<Rightarrow> string list \<Rightarrow> 'w \<Rightarrow> (outcome \<times> 'w) option" where
  "run K args w =
     (case parseFlags (op_Flags K) args of
        Inl code \<Rightarrow> Some (Exit code, w)
      | Inr opts \<Rightarrow>
          (case readNamespace (op_Env K) of
             Inl err \<Rightarrow> Some (Returned (Some err), w)
           | Inr namespace \<Rightarrow>
               (case op_GetConfig K of
                  Inl err \<Rightarrow> Some (Exit 1, w)
                | Inr cfg \<Rightarrow>
                    (case InstallOrUpdate (op_Crd K) None cfg w of
                       None \<Rightarrow> None
                     | Some (Some err, w) \<Rightarrow> Some (Returned (Some (Wrapf err ''installing CRD'' [])), w)
                     | Some (None, w) \<Rightarrow>
                         (case buildInitialRegistry (op_Clusters K) (op_Mappers K) cfg w of
                            (Inl err, w) \<Rightarrow> Some (Returned (Some (Wrapf err ''building cluster registry'' [])), w)
                          | (Inr registry, w) \<Rightarrow>
                              (case newManager K cfg opts w of
                                 (Some err, w) \<Rightarrow> Some (Returned (Some err), w)
                               | (None, w) \<Rightarrow>
                                   (case wire_manager K cfg registry w of (err, w) \<Rightarrow> Some (Returned err, w))))))))"

text \<open>The exit status of \<^verbatim>\<open>main\<close>.\<close>

definition main :: "('w, 'c, 'h, 'm, 'a) operator_lib \<Rightarrow> string list \<Rightarrow> 'w \<Rightarrow> (nat \<times> 'w) option" where
  "main K args w =
     (case run K args w of
        None \<Rightarrow> None
      | Some (Exit code, w) \<Rightarrow> Some (code, w)
      | Some (Returned (Some err), w) \<Rightarrow> Some (1, w)
      | Some (Returned None, w) \<Rightarrow> Some (0, w))"

end
