(* ===== verification/OperatorProps.thy ===== *)
theory OperatorProps
  imports Operator
begin

text \<open>
  What the start-up of the operator guarantees: the registry, which is built once, stays in step with the meshes as long as the change
  watcher does not stop the manager, provided no mesh changes while the operator starts; and what happens when one does.
\<close>

section \<open>Facts\<close>

lemma watcher_lib_update:
  "watcher_lib W version \<Longrightarrow> watcher_lib (W\<lparr>cw_Cancel := c, cw_StartFingerprint := f\<rparr>) version"
  by (simp add: watcher_lib_def)

lemma refs_of_names:
  "cr_Name ` set (refs_of version w meshes) = source_name ` set (mergeClusterEntries meshes)"
proof -
  have "cr_Name (entry_ref version w ns c) = entry_Name c" for ns c by (simp add: entry_ref_def split: option.split)
  then show ?thesis by (simp add: refs_of_def mergeClusterEntries_names image_UN image_image)
qed

lemma ComputeFingerprint_eq:
  assumes "watcher_lib W version" "cw_List W None w = (Inr meshes, w1)"
  shows "ComputeFingerprint W w = (Inr (fingerprint (cw_sort W ref_less (refs_of version w1 meshes))), w1)"
  by (simp add: ComputeFingerprint_def computeFingerprint_def assms(2) watcher_lib.collectRefs_eq [OF assms(1)])

lemma start_watcher_eq:
  assumes "watcher_lib (op_PreClient K) version" "cw_List (op_PreClient K) None w = (Inr meshes, w1)"
    and "start_watcher K cfg w = (Inr W, w2)"
  shows "w2 = w1" and "W = (op_MgrClient K)\<lparr>cw_Cancel := Some (op_Cancel K),
      cw_StartFingerprint := fingerprint (cw_sort (op_PreClient K) ref_less (refs_of version w1 meshes))\<rparr>"
proof -
  have "ComputeFingerprint ((op_PreClient K)\<lparr>cw_Cancel := None, cw_StartFingerprint := ''''\<rparr>) w =
      (Inr (fingerprint (cw_sort (op_PreClient K) ref_less (refs_of version w1 meshes))), w1)"
    using ComputeFingerprint_eq [OF watcher_lib_update [OF assms(1)]] assms(2) by simp
  with assms(3) show "w2 = w1" "W = (op_MgrClient K)\<lparr>cw_Cancel := Some (op_Cancel K),
      cw_StartFingerprint := fingerprint (cw_sort (op_PreClient K) ref_less (refs_of version w1 meshes))\<rparr>"
    by (auto simp: start_watcher_def split: option.splits)
qed

text \<open>A reconcile of the watcher that does not cancel has seen the references of the start.\<close>

lemma no_cancel_same_refs:
  assumes "watcher_lib W version" "cw_List W None w = (Inr now, w1)" "cw_Cancel W = Some cancel" "cw_StartFingerprint W = fingerprint refs"
    and "list_all ascii_ref refs" "list_all ascii_ref (refs_of version w1 now)"
    and "Sum256 (marshal_refs (cw_sort W ref_less (refs_of version w1 now))) = Sum256 (marshal_refs refs) \<longrightarrow>
      marshal_refs (cw_sort W ref_less (refs_of version w1 now)) = marshal_refs refs"
    and "watcher_Reconcile W w = (None, w1)" "cancel w1 \<noteq> w1"
  shows "cw_sort W ref_less (refs_of version w1 now) = refs"
proof -
  let ?new = "cw_sort W ref_less (refs_of version w1 now)"
  have a: "list_all ascii_ref ?new" using assms(6) by (simp add: list_all_iff watcher_lib.sort_set [OF assms(1)])
  have "fingerprint ?new = fingerprint refs"
    using assms(3,4,8,9) by (simp add: watcher_Reconcile_def computeFingerprint_def assms(2) watcher_lib.collectRefs_eq [OF assms(1)] split: if_splits)
  then show ?thesis using fingerprint_inject [OF a assms(5,7)] by simp
qed

section \<open>An operator in memory\<close>

text \<open>
  \<open>ow_incoming\<close> are meshes that a user creates while the manager is being made. The CRD is established, building a REST mapper
  always succeeds, and no Secret can be read, so that only local clusters are registered.
\<close>

record op_world =
  ow_meshes :: "ClusterMesh list"
  ow_incoming :: "ClusterMesh list"
  ow_cancelled :: bool

definition ow_crds :: "(op_world, unit) crd_lib" where
  "ow_crds = (let c = \<lparr>crd_Name = crdName, crd_ResourceVersion = ''1'', crd_Spec = ''v1alpha1'',
       crd_Conditions = [(''Established'', ''True'')]\<rparr> in
     \<lparr>crd_Unmarshal = Inr c, crd_NewForConfig = (\<lambda>_. None), crd_Get = (\<lambda>_ _ w. (Inr c, w)), crd_Create = (\<lambda>_ _ w. (None, w)),
      crd_Update = (\<lambda>_ _ w. (None, w)), crd_Now = (\<lambda>_. 0), crd_NewTicker = (\<lambda>_ w. w), crd_Select = (\<lambda>_ w. (False, w))\<rparr>)"

definition ow_mappers :: "(op_world, unit, unit, unit, unit) mapper_lib" where
  "ow_mappers = \<lparr>ml_NewDynamicRESTMapper = (\<lambda>_ _ w. (Inr (), w)), ml_call = (\<lambda>_ _ w. (Inr (), w)), ml_new = (\<lambda>_ w. (0, w)),
     ml_load = (\<lambda>_ _. \<lparr>rm_cfg = (), rm_httpClient = (), rm_mapper = ()\<rparr>), ml_set_mapper = (\<lambda>_ _ w. w)\<rparr>"

definition ow_clusters :: "(op_world, unit, unit) cluster_lib" where
  "ow_clusters = \<lparr>
     lib_GetSecret = (\<lambda>_ _ w. (Inl (APIError NotFound), w)), lib_ParseKubeconfig = (\<lambda>_. Inr ()),
     lib_NewCluster = (\<lambda>provider cfg w.
       case provider cfg () w of
         (Inl err, w) \<Rightarrow> (Inl err, w)
       | (Inr m, w) \<Rightarrow> (Inr \<lparr>cluster_client = \<lparr>cc_Peers = no_peers, cc_ListNodes = (\<lambda>w. (Inr [], w))\<rparr>, cluster_mapper = Some m\<rparr>, w)),
     lib_NewClient = (\<lambda>_. None), lib_ListMeshes = (\<lambda>w. (Inr (ow_meshes w), w))\<rparr>"

definition ow_watcher :: "op_world ChangeWatcher" where
  "ow_watcher = \<lparr>cw_List = (\<lambda>_ w. (Inr (ow_meshes w), w)), cw_GetSecret = (\<lambda>_ w. (Inl (APIError NotFound), w)),
     cw_sort = sort_by, cw_Cancel = None, cw_StartFingerprint = ''''\<rparr>"

definition ow_reconciler :: "op_world ClusterMeshReconciler" where
  "ow_reconciler = \<lparr>r_Get = (\<lambda>_ w. (Inl (APIError NotFound), w)), r_List = (\<lambda>_ w. (Inr (ow_meshes w), w)),
     r_Update = (\<lambda>_ w. (None, w)), r_StatusUpdate = (\<lambda>_ w. (None, w)), r_Eventf = (\<lambda>_ _ w. w),
     r_Registry = \<lparr>reg_clusters = [], reg_local = ''''\<rparr>, r_order = (\<lambda>_ names. names),
     r_ContainsFinalizer = (\<lambda>mesh f. f \<in> set (mesh_Finalizers mesh)), r_AddFinalizer = (\<lambda>mesh _. mesh),
     r_RemoveFinalizer = (\<lambda>mesh _. mesh), r_SetStatusCondition = (\<lambda>_ cs. cs)\<rparr>"

definition ow_operator :: "(op_world, unit, unit, unit, unit) operator_lib" where
  "ow_operator = \<lparr>
     op_Flags = \<lparr>fx_IsBool = (\<lambda>_. None), fx_Set = (\<lambda>_ _. False)\<rparr>, op_Env = [(podNamespaceEnv, ''kilo'')],
     op_GetConfig = Inr (), op_Crd = ow_crds, op_Clusters = ow_clusters, op_Mappers = ow_mappers,
     op_NewManager = (\<lambda>_ _ w. (None, w\<lparr>ow_meshes := ow_meshes w @ ow_incoming w, ow_incoming := []\<rparr>)),
     op_Add = (\<lambda>_ w. (None, w)), op_Complete = (\<lambda>_ w. (None, w)),
     op_AddHealthzCheck = (\<lambda>_ w. (None, w)), op_AddReadyzCheck = (\<lambda>_ w. (None, w)), op_Start = (\<lambda>w. (None, w)),
     op_Reconciler = ow_reconciler, op_PreClient = ow_watcher, op_MgrClient = ow_watcher,
     op_Cancel = (\<lambda>w. w\<lparr>ow_cancelled := True\<rparr>), op_order = (\<lambda>_ names. names)\<rparr>"

lemma ow_operator_sel [simp]:
  "op_Clusters ow_operator = ow_clusters" "op_Mappers ow_operator = ow_mappers" "op_PreClient ow_operator = ow_watcher"
  "op_MgrClient ow_operator = ow_watcher" "op_Cancel ow_operator = (\<lambda>w. w\<lparr>ow_cancelled := True\<rparr>)"
  "cw_List ow_watcher ns w = (Inr (ow_meshes w), w)" "lib_ListMeshes ow_clusters w = (Inr (ow_meshes w), w)"
  "lib_NewClient ow_clusters cfg = None" "cw_sort ow_watcher = sort_by"
  by (simp_all add: ow_operator_def ow_watcher_def ow_clusters_def)

interpretation ow: watcher_lib ow_watcher "\<lambda>_ _. ''''"
  by unfold_locales (auto simp: ow_watcher_def sort_by_sorted)

interpretation owr: registry_lib ow_clusters ow_mappers "\<lambda>_ _. Inl (APIError NotFound)" "\<lambda>_. True"
  by unfold_locales
    (auto simp: ow_clusters_def ow_mappers_def resettable_provider_def newResettableDynamicMapper_def)

definition home_mesh :: ClusterMesh where
  "home_mesh = new_mesh ''m'' ''ns'' [\<lparr>entry_Name = ''a'', entry_Local = True, entry_KubeconfigSecretRef = None,
     entry_AllowedNetworks = [], entry_WireguardPort = 0, entry_PersistentKeepalive = 0\<rparr>]"

definition home_ref :: clusterRef where
  "home_ref = \<lparr>cr_Name = ''a'', cr_SecretNamespace = '''', cr_SecretName = '''', cr_SecretRV = ''''\<rparr>"

lemma sort_by_single [simp]: "sort_by lt [x] = [x]"
  by (simp add: sort_by_def)

lemma home_refs: "refs_of (\<lambda>_ _. '''') w [home_mesh] = [home_ref]"
  by (simp add: refs_of_def home_mesh_def entry_ref_def home_ref_def)

lemma ow_collectRefs:
  "collectRefs (ow_watcher\<lparr>cw_Cancel := c, cw_StartFingerprint := f\<rparr>) meshes w =
     (sort_by ref_less (refs_of (\<lambda>_ _. '''') w meshes), w)"
  using watcher_lib.collectRefs_eq [OF watcher_lib_update [OF ow.watcher_lib_axioms, where c = c and f = f], of meshes w] by simp

lemma ow_watcher_Reconcile:
  assumes "fingerprint (sort_by ref_less (refs_of (\<lambda>_ _. '''') w (ow_meshes w))) = f"
  shows "watcher_Reconcile (ow_watcher\<lparr>cw_Cancel := c, cw_StartFingerprint := f\<rparr>) w = (None, w)"
  using assms by (simp add: watcher_Reconcile_def computeFingerprint_def ow_collectRefs)

lemma ow_start_watcher:
  "start_watcher ow_operator () w = (Inr (ow_watcher\<lparr>cw_Cancel := Some (\<lambda>w. w\<lparr>ow_cancelled := True\<rparr>),
     cw_StartFingerprint := fingerprint (sort_by ref_less (refs_of (\<lambda>_ _. '''') w (ow_meshes w)))\<rparr>), w)"
  using ComputeFingerprint_eq [OF watcher_lib_update [OF ow.watcher_lib_axioms]] by (simp add: start_watcher_def)

section \<open>Properties\<close>

text \<open>
  C35. The registry of a running operator is up to date. Suppose the meshes the registry was built from are those of the start fingerprint.
  As long as the change watcher, on the meshes of a later moment, does not cancel the manager, the clusters these meshes name are
  those the registry was built from: every registered cluster is still named by a mesh, and a named cluster is missing from the registry only if
  its entry was unusable at the start. The watcher is the one \<^verbatim>\<open>wireChangeWatcher\<close> registers.
\<close>

theorem registry_names_current:
  assumes "registry_lib (op_Clusters K) (op_Mappers K) secrets constructible"
    and "watcher_lib (op_PreClient K) version" and "watcher_lib (op_MgrClient K) version"
    and "lib_ListMeshes (op_Clusters K) w0 = (Inr meshes, w1)"
    and "buildInitialRegistry (op_Clusters K) (op_Mappers K) cfg w0 = (Inr registry, w2)"
    and "cw_List (op_PreClient K) None w3 = (Inr meshes, w4)" and "start_watcher K cfg w3 = (Inr W, w5)"
    and "cw_List (op_MgrClient K) None w6 = (Inr now, w7)"
    and "list_all ascii_ref (refs_of version w4 meshes)" and "list_all ascii_ref (refs_of version w7 now)"
    and "Sum256 (marshal_refs (cw_sort (op_MgrClient K) ref_less (refs_of version w7 now))) =
        Sum256 (marshal_refs (cw_sort (op_PreClient K) ref_less (refs_of version w4 meshes))) \<longrightarrow>
      marshal_refs (cw_sort (op_MgrClient K) ref_less (refs_of version w7 now)) =
        marshal_refs (cw_sort (op_PreClient K) ref_less (refs_of version w4 meshes))"
    and "watcher_Reconcile W w6 = (None, w7)" and "op_Cancel K w7 \<noteq> w7"
  shows "(\<forall>name. reg_Get registry name \<noteq> None \<longrightarrow> name \<in> source_name ` set (mergeClusterEntries now)) \<and>
     (\<forall>src \<in> set (mergeClusterEntries now). reg_Get registry (source_name src) = None \<longrightarrow>
       (\<exists>src0. find (\<lambda>x. source_name x = source_name src) (mergeClusterEntries meshes) = Some src0 \<and>
          \<not> entry_usable (op_Clusters K) secrets constructible cfg src0))"
proof -
  let ?then = "cw_sort (op_PreClient K) ref_less (refs_of version w4 meshes)" and ?L = "op_Clusters K"
  note W = start_watcher_eq(2) [OF assms(2,6,7)]
  have WL: "watcher_lib W version" unfolding W by (rule watcher_lib_update [OF assms(3)])
  have sort: "cw_sort W = cw_sort (op_MgrClient K)" "cw_List W = cw_List (op_MgrClient K)" "cw_Cancel W = Some (op_Cancel K)"
    "cw_StartFingerprint W = fingerprint ?then" by (simp_all add: W)
  have "list_all ascii_ref ?then" using assms(9) by (simp add: list_all_iff watcher_lib.sort_set [OF assms(2)])
  from no_cancel_same_refs [OF WL _ sort(3,4) this assms(10) _ assms(12,13)] assms(8,11)
  have "cw_sort (op_MgrClient K) ref_less (refs_of version w7 now) = ?then" by (simp add: sort(1,2))
  then have "set (refs_of version w7 now) = set (refs_of version w4 meshes)"
    by (metis watcher_lib.sort_set [OF assms(2)] watcher_lib.sort_set [OF assms(3)])
  then have names: "source_name ` set (mergeClusterEntries now) = source_name ` set (mergeClusterEntries meshes)"
    by (metis refs_of_names)
  have "lib_NewClient ?L cfg = None" using assms(5) by (simp add: buildInitialRegistry_def split: option.splits)
  from registry_lib.buildInitialRegistry_exact [OF assms(1) this assms(4)] assms(5)
  have reg: "case find (\<lambda>x. source_name x = name) (mergeClusterEntries meshes) of
       None \<Rightarrow> reg_Get registry name = None
     | Some src \<Rightarrow> registered_as ?L (op_Mappers K) secrets constructible cfg src (reg_Get registry name)" for name by auto
  have found: "(\<exists>src. find (\<lambda>x. source_name x = name) (mergeClusterEntries meshes) = Some src) \<longleftrightarrow>
      name \<in> source_name ` set (mergeClusterEntries meshes)" for name
    using find_None_iff [of "\<lambda>x. source_name x = name" "mergeClusterEntries meshes"] by (auto simp: image_iff)
  show ?thesis unfolding names
  proof (intro conjI allI impI ballI)
    fix name assume "reg_Get registry name \<noteq> None"
    with reg [of name] found [of name] show "name \<in> source_name ` set (mergeClusterEntries meshes)" by (auto split: option.splits)
  next
    fix src assume src: "src \<in> set (mergeClusterEntries now)" "reg_Get registry (source_name src) = None"
    then obtain src0 where f: "find (\<lambda>x. source_name x = source_name src) (mergeClusterEntries meshes) = Some src0"
      using found [of "source_name src"] names by (metis imageI)
    with reg [of "source_name src"] src(2) show "\<exists>src0. find (\<lambda>x. source_name x = source_name src) (mergeClusterEntries meshes) = Some src0 \<and>
          \<not> entry_usable ?L secrets constructible cfg src0" by (auto simp: registered_as_def split: if_splits)
  qed
qed

theorem registry_names_current_witness:
  "\<exists>registry w2. buildInitialRegistry ow_clusters ow_mappers () \<lparr>ow_meshes = [home_mesh], ow_incoming = [], ow_cancelled = False\<rparr> =
     (Inr registry, w2) \<and> reg_Get registry ''b'' = None"
proof -
  let ?w = "\<lparr>ow_meshes = [home_mesh], ow_incoming = [], ow_cancelled = False\<rparr>" and ?K = ow_operator
  let ?W = "ow_watcher\<lparr>cw_Cancel := Some (\<lambda>w. w\<lparr>ow_cancelled := True\<rparr>), cw_StartFingerprint := fingerprint [home_ref]\<rparr>"
  obtain registry w2 where r: "buildInitialRegistry ow_clusters ow_mappers () ?w = (Inr registry, w2)"
    using owr.buildInitialRegistry_exact [of "()" ?w "[home_mesh]" ?w] by auto
  have s: "start_watcher ?K () ?w = (Inr ?W, ?w)" using ow_start_watcher [of ?w] by (simp add: home_refs)
  have c: "watcher_Reconcile ?W ?w = (None, ?w)" by (rule ow_watcher_Reconcile) (simp add: home_refs)
  have a: "list_all ascii_ref [home_ref]" by code_simp
  have n: "source_name ` set (mergeClusterEntries [home_mesh]) = {''a''}" by (simp add: mergeClusterEntries_names home_mesh_def)
  have "(\<forall>name. reg_Get registry name \<noteq> None \<longrightarrow> name \<in> source_name ` set (mergeClusterEntries [home_mesh])) \<and>
     (\<forall>src \<in> set (mergeClusterEntries [home_mesh]). reg_Get registry (source_name src) = None \<longrightarrow>
       (\<exists>src0. find (\<lambda>x. source_name x = source_name src) (mergeClusterEntries [home_mesh]) = Some src0 \<and>
          \<not> entry_usable (op_Clusters ?K) (\<lambda>_ _. Inl (APIError NotFound)) (\<lambda>_. True) () src0))"
  proof (rule registry_names_current [of ?K "\<lambda>_ _. Inl (APIError NotFound)" "\<lambda>_. True" "\<lambda>_ _. ''''" ?w "[home_mesh]" ?w "()" registry w2
        ?w ?w ?W ?w ?w "[home_mesh]" ?w])
    show "registry_lib (op_Clusters ?K) (op_Mappers ?K) (\<lambda>_ _. Inl (APIError NotFound)) (\<lambda>_. True)"
      by (simp add: owr.registry_lib_axioms)
    show "watcher_lib (op_PreClient ?K) (\<lambda>_ _. '''')" "watcher_lib (op_MgrClient ?K) (\<lambda>_ _. '''')"
      by (simp_all add: ow.watcher_lib_axioms)
  qed (use r s c a in \<open>simp_all add: home_refs\<close>)
  then have "reg_Get registry ''b'' = None \<or> ''b'' \<in> source_name ` set (mergeClusterEntries [home_mesh])" by blast
  then have "reg_Get registry ''b'' = None" unfolding n by simp
  with r show ?thesis by blast
qed

text \<open>
  C38. The start-up has a race: \<^verbatim>\<open>run\<close> builds the registry from one list of the meshes and the start fingerprint from a later one. Consider a run
  that gets as far as registering the change watcher. A cluster that the later list names and the earlier one does not (its mesh was
  created in between) is not registered, and yet the run goes on to start the manager; and the change watcher it registered returns nil
  and does not cancel, at any later moment at which the sorted references are those of the fingerprint, since that already
  contains the cluster. So nothing restarts the operator for it until something else changes.
\<close>

theorem startup_race:
  assumes "registry_lib (op_Clusters K) (op_Mappers K) secrets constructible"
    and "watcher_lib (op_PreClient K) version" and "watcher_lib (op_MgrClient K) version"
    and "lib_ListMeshes (op_Clusters K) w0 = (Inr meshes, w1)"
    and "buildInitialRegistry (op_Clusters K) (op_Mappers K) cfg w0 = (Inr registry, w2)"
    and "cw_List (op_PreClient K) None w5 = (Inr meshes', w6)" and "start_watcher K cfg w5 = (Inr W, w7)"
    and "name \<in> source_name ` set (mergeClusterEntries meshes')"
    and "name \<notin> source_name ` set (mergeClusterEntries meshes)"
    and "parseFlags (op_Flags K) args = Inr opts" and "readNamespace (op_Env K) = Inr namespace"
    and "op_GetConfig K = Inr cfg" and "InstallOrUpdate (op_Crd K) None cfg w = Some (None, w0)"
    and "newManager K cfg opts w2 = (None, w3)"
    and "add_clusters K registry (op_order K w3 (map fst (reg_All registry))) w3 = (None, w4)"
    and "wireReconciler K registry w4 = (None, w5)" and "watcher_SetupWithManager K W w7 = (None, w8)"
  shows "reg_Get registry name = None \<and>
     run K args w = (case start_manager K w8 of (err, w9) \<Rightarrow> Some (Returned err, w9)) \<and>
     (\<forall>v now v'. cw_List (op_MgrClient K) None v = (Inr now, v') \<and>
        cw_sort (op_MgrClient K) ref_less (refs_of version v' now) = cw_sort (op_PreClient K) ref_less (refs_of version w6 meshes') \<longrightarrow>
        watcher_Reconcile W v = (None, v') \<and> name \<in> source_name ` set (mergeClusterEntries now))"
proof (intro conjI allI impI)
  have "lib_NewClient (op_Clusters K) cfg = None" using assms(5) by (simp add: buildInitialRegistry_def split: option.splits)
  from registry_lib.buildInitialRegistry_exact [OF assms(1) this assms(4)] assms(5)
  have reg: "case find (\<lambda>x. source_name x = name) (mergeClusterEntries meshes) of
       None \<Rightarrow> reg_Get registry name = None
     | Some src \<Rightarrow> registered_as (op_Clusters K) (op_Mappers K) secrets constructible cfg src (reg_Get registry name)" by auto
  have "find (\<lambda>x. source_name x = name) (mergeClusterEntries meshes) = None"
    using assms(9) by (auto simp: find_None_iff)
  with reg show "reg_Get registry name = None" by simp
  show "run K args w = (case start_manager K w8 of (err, w9) \<Rightarrow> Some (Returned err, w9))"
    using assms(5,7,10-17) by (simp add: run_def wire_manager_def wireChangeWatcher_def)
  fix v now v'
  assume later: "cw_List (op_MgrClient K) None v = (Inr now, v') \<and>
    cw_sort (op_MgrClient K) ref_less (refs_of version v' now) = cw_sort (op_PreClient K) ref_less (refs_of version w6 meshes')"
  note W = start_watcher_eq(2) [OF assms(2,6,7)]
  have WL: "watcher_lib W version" unfolding W by (rule watcher_lib_update [OF assms(3)])
  have sel: "cw_sort W = cw_sort (op_MgrClient K)" "cw_List W = cw_List (op_MgrClient K)"
    "cw_StartFingerprint W = fingerprint (cw_sort (op_PreClient K) ref_less (refs_of version w6 meshes'))"
    by (simp_all add: W)
  from later show "watcher_Reconcile W v = (None, v')"
    by (simp add: watcher_Reconcile_def computeFingerprint_def watcher_lib.collectRefs_eq [OF WL] sel)
  have "set (refs_of version v' now) = set (refs_of version w6 meshes')"
    using later by (metis watcher_lib.sort_set [OF assms(2)] watcher_lib.sort_set [OF assms(3)])
  then show "name \<in> source_name ` set (mergeClusterEntries now)" using assms(8) by (metis refs_of_names)
qed

text \<open>A user creates a mesh while the manager is being made; the cluster it names could be registered.\<close>

theorem startup_race_witness:
  "let w0 = \<lparr>ow_meshes = [], ow_incoming = [home_mesh], ow_cancelled = False\<rparr>;
       w1 = \<lparr>ow_meshes = [home_mesh], ow_incoming = [], ow_cancelled = False\<rparr>
   in run ow_operator [] w0 = Some (Returned None, w1) \<and>
      (\<exists>registry. buildInitialRegistry ow_clusters ow_mappers () w0 = (Inr registry, w0) \<and> reg_Get registry ''a'' = None) \<and>
      newManager ow_operator () default_opts w0 = (None, w1) \<and>
      (\<exists>W. start_watcher ow_operator () w1 = (Inr W, w1) \<and> watcher_Reconcile W w1 = (None, w1)) \<and>
      list_ex (entry_usable ow_clusters (\<lambda>_ _. Inl (APIError NotFound)) (\<lambda>_. True) ()) (mergeClusterEntries (ow_meshes w1))"
proof -
  let ?w0 = "\<lparr>ow_meshes = [], ow_incoming = [home_mesh], ow_cancelled = False\<rparr>" and ?K = ow_operator
  let ?w1 = "\<lparr>ow_meshes = [home_mesh], ow_incoming = [], ow_cancelled = False\<rparr>"
  let ?r = "\<lparr>reg_clusters = [], reg_local = ''''\<rparr> :: op_world ClusterRegistry"
  have reg: "buildInitialRegistry ow_clusters ow_mappers () ?w0 = (Inr ?r, ?w0)"
    by (simp add: buildInitialRegistry_def Build_def mergeClusterEntries_def)
  have mgr: "newManager ?K () opts ?w0 = (None, ?w1)" for opts by (simp add: newManager_def ow_operator_def)
  obtain W where s: "start_watcher ?K () ?w1 = (Inr W, ?w1)" using ow_start_watcher [of ?w1] by blast
  have libs: "registry_lib (op_Clusters ?K) (op_Mappers ?K) (\<lambda>_ _. Inl (APIError NotFound)) (\<lambda>_. True)"
    "watcher_lib (op_PreClient ?K) (\<lambda>_ _. '''')" "watcher_lib (op_MgrClient ?K) (\<lambda>_ _. '''')"
    by (simp_all add: owr.registry_lib_axioms ow.watcher_lib_axioms)
  have lists: "lib_ListMeshes (op_Clusters ?K) ?w0 = (Inr [], ?w0)" "cw_List (op_PreClient ?K) None ?w1 = (Inr [home_mesh], ?w1)"
    "cw_List (op_MgrClient ?K) None ?w1 = (Inr [home_mesh], ?w1)" by simp_all
  have names: "''a'' \<in> source_name ` set (mergeClusterEntries [home_mesh])" "''a'' \<notin> source_name ` set (mergeClusterEntries [])"
    by (simp_all add: mergeClusterEntries_names home_mesh_def)
  have reg': "buildInitialRegistry (op_Clusters ?K) (op_Mappers ?K) () ?w0 = (Inr ?r, ?w0)" by (simp add: reg)
  have sorts: "cw_sort (op_MgrClient ?K) = cw_sort (op_PreClient ?K)" by simp
  have crd: "InstallOrUpdate (op_Crd ?K) None () ?w0 = Some (None, ?w0)"
    by (simp add: ow_operator_def InstallOrUpdate_def parseCRD_def ow_crds_def Let_def waitForCRD_def wait_loop.simps established_def)
  have wired: "add_clusters ?K ?r (op_order ?K ?w1 (map fst (reg_All ?r))) ?w1 = (None, ?w1)"
    "wireReconciler ?K ?r ?w1 = (None, ?w1)" "watcher_SetupWithManager ?K W ?w1 = (None, ?w1)"
    by (simp_all add: reg_All_def wireReconciler_def reconciler_SetupWithManager_def watcher_SetupWithManager_def ow_operator_def)
  have start: "parseFlags (op_Flags ?K) [] = Inr default_opts" "readNamespace (op_Env ?K) = Inr ''kilo''" "op_GetConfig ?K = Inr ()"
    by (simp_all add: parseFlags_def readNamespace_def ow_operator_def map_get_def)
  note general = startup_race [OF libs lists(1) reg' lists(2) s names start crd mgr wired]
  have race: "reg_Get ?r ''a'' = None" "watcher_Reconcile W ?w1 = (None, ?w1)"
    using conjunct1 [OF general] conjunct2 [OF conjunct2 [OF general], rule_format, of ?w1 "[home_mesh]" ?w1] lists(3) sorts by simp_all
  have "run ?K [] ?w0 = Some (Returned None, ?w1)"
    using conjunct1 [OF conjunct2 [OF general]] by (simp add: start_manager_def ow_operator_def)
  moreover have "list_ex (entry_usable ow_clusters (\<lambda>_ _. Inl (APIError NotFound)) (\<lambda>_. True) ()) (mergeClusterEntries [home_mesh])"
    by (simp add: mergeClusterEntries_def home_mesh_def entry_usable_def entry_config_def)
  ultimately show ?thesis unfolding Let_def using reg mgr s race by auto
qed

end
