(* ===== verification/GoHeap.thy ===== *)
theory GoHeap
  imports Prelude
begin

text \<open>
  An explicit store of Go objects, for the code whose correctness depends on which objects are shared: allocation, writing, and the
  contract of a deep copy. The contract is a locale; it carries over to pairs, lists and pointers, so that the
  copy of a struct follows from the copies of its fields.
\<close>

section \<open>Objects\<close>

record 'c heap =
  h_next :: nat
  h_mem :: "nat \<Rightarrow> 'c option"

definition alloc :: "'c \<Rightarrow> 'c heap \<Rightarrow> nat \<times> 'c heap" where
  "alloc c h = (h_next h, h\<lparr>h_next := Suc (h_next h), h_mem := (h_mem h)(h_next h := Some c)\<rparr>)"

definition store :: "nat \<Rightarrow> 'c \<Rightarrow> 'c heap \<Rightarrow> 'c heap" where
  "store a c h = h\<lparr>h_mem := (h_mem h)(a := Some c)\<rparr>"

text \<open>Nothing that existed in \<open>h\<close> has changed in \<open>h'\<close>.\<close>

definition extends :: "'c heap \<Rightarrow> 'c heap \<Rightarrow> bool" where
  "extends h h' \<longleftrightarrow> h_next h \<le> h_next h' \<and> (\<forall>a < h_next h. h_mem h' a = h_mem h a)"

lemma extends_refl [simp]: "extends h h"
  by (simp add: extends_def)

lemma extends_trans: "extends h h' \<Longrightarrow> extends h' h'' \<Longrightarrow> extends h h''"
  by (auto simp: extends_def)

lemma extends_next: "extends h h' \<Longrightarrow> h_next h \<le> h_next h'"
  by (simp add: extends_def)

lemma extends_alloc: "alloc c h = (a, h') \<Longrightarrow> extends h h'"
  by (auto simp: alloc_def extends_def)

lemma extends_store: "extends h h' \<Longrightarrow> h_next h \<le> a \<Longrightarrow> extends h (store a c h')"
  by (auto simp: extends_def store_def)

section \<open>The contract of a deep copy\<close>

text \<open>
  \<open>ok\<close> says that a value is well typed in a heap, \<open>reads\<close> reads it, \<open>refs\<close> are the addresses it reaches. A copy reads the same, changes no
  existing object and reaches only new ones.
\<close>

locale deep_copier =
  fixes copy :: "'x \<Rightarrow> 'c heap \<Rightarrow> 'x \<times> 'c heap" and ok :: "'c heap \<Rightarrow> 'x \<Rightarrow> bool"
    and reads :: "'c heap \<Rightarrow> 'x \<Rightarrow> 'v" and refs :: "'c heap \<Rightarrow> 'x \<Rightarrow> nat set"
  assumes copied: "ok h x \<Longrightarrow> copy x h = (y, h') \<Longrightarrow>
      extends h h' \<and> ok h' y \<and> reads h' y = reads h x \<and> refs h' y \<subseteq> {h_next h ..< h_next h'}"
    and bounded: "ok h x \<Longrightarrow> refs h x \<subseteq> {..< h_next h}"
    and stable: "ok h x \<Longrightarrow> h_next h \<le> h_next h' \<Longrightarrow> (\<And>a. a \<in> refs h x \<Longrightarrow> h_mem h' a = h_mem h a) \<Longrightarrow>
      ok h' x \<and> reads h' x = reads h x \<and> refs h' x = refs h x"
begin

lemma kept: "ok h x \<Longrightarrow> extends h h' \<Longrightarrow> ok h' x \<and> reads h' x = reads h x \<and> refs h' x = refs h x"
  using bounded [of h x] by (intro stable) (auto simp: extends_def)

text \<open>A write outside of what a value reaches does not change the value.\<close>

lemma stored: "ok h x \<Longrightarrow> a \<notin> refs h x \<Longrightarrow> ok (store a c h) x \<and> reads (store a c h) x = reads h x \<and> refs (store a c h) x = refs h x"
  by (rule stable) (auto simp: store_def)

end

section \<open>Values, pairs, lists and pointers\<close>

definition value_copy :: "'x \<Rightarrow> 'c heap \<Rightarrow> 'x \<times> 'c heap" where
  "value_copy x h = (x, h)"

interpretation plain: deep_copier value_copy "\<lambda>h x. True" "\<lambda>h x. x" "\<lambda>h x. {}"
  by unfold_locales (auto simp: value_copy_def)

definition pair_copy ::
  "('x \<Rightarrow> 'c heap \<Rightarrow> 'x \<times> 'c heap) \<Rightarrow> ('y \<Rightarrow> 'c heap \<Rightarrow> 'y \<times> 'c heap) \<Rightarrow> 'x \<times> 'y \<Rightarrow> 'c heap \<Rightarrow> ('x \<times> 'y) \<times> 'c heap" where
  "pair_copy f g p h = (case f (fst p) h of (x, h) \<Rightarrow> (case g (snd p) h of (y, h) \<Rightarrow> ((x, y), h)))"

lemma pair_copier:
  fixes f :: "'x \<Rightarrow> 'c heap \<Rightarrow> 'x \<times> 'c heap"
  assumes "deep_copier f ok1 abs1 refs1" "deep_copier g ok2 abs2 refs2"
  shows "deep_copier (pair_copy f g) (\<lambda>h p. ok1 h (fst p) \<and> ok2 h (snd p)) (\<lambda>h p. (abs1 h (fst p), abs2 h (snd p)))
     (\<lambda>h p. refs1 h (fst p) \<union> refs2 h (snd p))"
proof (rule deep_copier.intro)
  fix h p q h'
  assume ok: "ok1 h (fst p) \<and> ok2 h (snd p)" and c: "pair_copy f g p h = (q, h')"
  obtain x h1 where x: "f (fst p) h = (x, h1)" by fastforce
  obtain y h2 where y: "g (snd p) h1 = (y, h2)" by fastforce
  have q: "q = (x, y)" "h' = h2" using c by (simp_all add: pair_copy_def x y)
  note 1 = deep_copier.copied [OF assms(1) conjunct1 [OF ok] x]
  note k = deep_copier.kept [OF assms(2) conjunct2 [OF ok], of h1]
  note 2 = deep_copier.copied [OF assms(2) _ y]
  note k1 = deep_copier.kept [OF assms(1), of h1 x h2]
  have e: "h_next h \<le> h_next h1" "h_next h1 \<le> h_next h2" using 1 2 k by (auto intro: extends_next)
  show "extends h h' \<and> (ok1 h' (fst q) \<and> ok2 h' (snd q)) \<and> (abs1 h' (fst q), abs2 h' (snd q)) = (abs1 h (fst p), abs2 h (snd p)) \<and>
      refs1 h' (fst q) \<union> refs2 h' (snd q) \<subseteq> {h_next h ..< h_next h'}"
    using 1 2 k k1 e unfolding q by (auto intro: extends_trans)
next
  fix h p assume "ok1 h (fst p) \<and> ok2 h (snd p)"
  then show "refs1 h (fst p) \<union> refs2 h (snd p) \<subseteq> {..< h_next h}"
    using deep_copier.bounded [OF assms(1)] deep_copier.bounded [OF assms(2)] by blast
next
  fix h :: "'c heap" and p and h' :: "'c heap" assume a: "ok1 h (fst p) \<and> ok2 h (snd p)" "h_next h \<le> h_next h'"
    "\<And>a. a \<in> refs1 h (fst p) \<union> refs2 h (snd p) \<Longrightarrow> h_mem h' a = h_mem h a"
  with deep_copier.stable [OF assms(1), of h "fst p" h'] deep_copier.stable [OF assms(2), of h "snd p" h']
  show "(ok1 h' (fst p) \<and> ok2 h' (snd p)) \<and> (abs1 h' (fst p), abs2 h' (snd p)) = (abs1 h (fst p), abs2 h (snd p)) \<and>
      refs1 h' (fst p) \<union> refs2 h' (snd p) = refs1 h (fst p) \<union> refs2 h (snd p)" by simp
qed

text \<open>The loop over an array of structs.\<close>

fun list_copy :: "('x \<Rightarrow> 'c heap \<Rightarrow> 'x \<times> 'c heap) \<Rightarrow> 'x list \<Rightarrow> 'c heap \<Rightarrow> 'x list \<times> 'c heap" where
  "list_copy f [] h = ([], h)"
| "list_copy f (x # xs) h = (case f x h of (y, h) \<Rightarrow> (case list_copy f xs h of (ys, h) \<Rightarrow> (y # ys, h)))"

lemma list_copier:
  fixes f :: "'x \<Rightarrow> 'c heap \<Rightarrow> 'x \<times> 'c heap"
  assumes "deep_copier f ok reads refs"
  shows "deep_copier (list_copy f) (\<lambda>h. list_all (ok h)) (\<lambda>h. map (reads h)) (\<lambda>h xs. \<Union>x \<in> set xs. refs h x)"
proof (rule deep_copier.intro)
  fix h xs ys h'
  assume "list_all (ok h) xs" "list_copy f xs h = (ys, h')"
  then show "extends h h' \<and> list_all (ok h') ys \<and> map (reads h') ys = map (reads h) xs \<and>
      (\<Union>x \<in> set ys. refs h' x) \<subseteq> {h_next h ..< h_next h'}"
  proof (induction xs arbitrary: h ys h')
    case (Cons x xs)
    obtain y h1 where y: "f x h = (y, h1)" by fastforce
    obtain zs h2 where zs: "list_copy f xs h1 = (zs, h2)" by fastforce
    have q: "ys = y # zs" "h' = h2" using Cons.prems(2) by (simp_all add: y zs)
    note 1 = deep_copier.copied [OF assms _ y]
    have ok: "ok h x" "list_all (ok h) xs" using Cons.prems(1) by simp_all
    have x1: "extends h h1" using 1 ok by blast
    note k = deep_copier.kept [OF assms _ x1]
    have "list_all (ok h1) xs" and m: "map (reads h1) xs = map (reads h) xs" using ok(2) k by (auto simp: list_all_iff)
    note 2 = Cons.IH [OF this(1) zs]
    note k1 = deep_copier.kept [OF assms, of h1 y h2]
    have "h_next h \<le> h_next h1" "h_next h1 \<le> h_next h2" using x1 2 by (auto intro: extends_next)
    then show ?case using 1 2 k1 ok(1) m unfolding q by (auto intro: extends_trans)
  qed simp
next
  fix h xs assume "list_all (ok h) xs"
  then show "(\<Union>x \<in> set xs. refs h x) \<subseteq> {..< h_next h}"
    using deep_copier.bounded [OF assms] by (fastforce simp: list_all_iff)
next
  fix h :: "'c heap" and xs and h' :: "'c heap" assume "list_all (ok h) xs" "h_next h \<le> h_next h'" "\<And>a. a \<in> (\<Union>x \<in> set xs. refs h x) \<Longrightarrow> h_mem h' a = h_mem h a"
  then have "ok h' x \<and> reads h' x = reads h x \<and> refs h' x = refs h x" if "x \<in> set xs" for x
    using deep_copier.stable [OF assms, of h x h'] that by (simp add: list_all_iff) blast
  then show "list_all (ok h') xs \<and> map (reads h') xs = map (reads h) xs \<and> (\<Union>x \<in> set xs. refs h' x) = (\<Union>x \<in> set xs. refs h x)"
    by (simp add: list_all_iff)
qed

text \<open>
  A pointer, possibly nil, to an object that \<open>mk\<close> makes of a value and \<open>sel\<close> reads: the copy allocates a zero object, copies
  the value and writes it into the new object.
\<close>

definition deref :: "('c \<Rightarrow> 'x option) \<Rightarrow> 'c heap \<Rightarrow> nat option \<Rightarrow> 'x option" where
  "deref sel h p = Option.bind p (\<lambda>a. Option.bind (h_mem h a) sel)"

definition ptr_copy ::
  "('x \<Rightarrow> 'c) \<Rightarrow> ('c \<Rightarrow> 'x option) \<Rightarrow> ('x \<Rightarrow> 'x) \<Rightarrow> ('x \<Rightarrow> 'c heap \<Rightarrow> 'x \<times> 'c heap) \<Rightarrow> nat option \<Rightarrow> 'c heap \<Rightarrow> nat option \<times> 'c heap" where
  "ptr_copy mk sel zero copy p h =
     (case deref sel h p of
        None \<Rightarrow> (None, h)
      | Some x \<Rightarrow>
          (case alloc (mk (zero x)) h of (a, h) \<Rightarrow> (case copy x h of (y, h) \<Rightarrow> (Some a, store a (mk y) h))))"

definition ptr_ok :: "('c \<Rightarrow> 'x option) \<Rightarrow> ('c heap \<Rightarrow> 'x \<Rightarrow> bool) \<Rightarrow> 'c heap \<Rightarrow> nat option \<Rightarrow> bool" where
  "ptr_ok sel ok h p \<longleftrightarrow>
     (case p of
        None \<Rightarrow> True
      | Some a \<Rightarrow> a < h_next h \<and> (case deref sel h p of None \<Rightarrow> False | Some x \<Rightarrow> ok h x))"

definition ptr_reads :: "('c \<Rightarrow> 'x option) \<Rightarrow> ('c heap \<Rightarrow> 'x \<Rightarrow> 'v) \<Rightarrow> 'c heap \<Rightarrow> nat option \<Rightarrow> 'v option" where
  "ptr_reads sel reads h p = map_option (reads h) (deref sel h p)"

definition ptr_refs :: "('c \<Rightarrow> 'x option) \<Rightarrow> ('c heap \<Rightarrow> 'x \<Rightarrow> nat set) \<Rightarrow> 'c heap \<Rightarrow> nat option \<Rightarrow> nat set" where
  "ptr_refs sel refs h p = set_option p \<union> (case deref sel h p of None \<Rightarrow> {} | Some x \<Rightarrow> refs h x)"

lemma ptr_okE:
  assumes "ptr_ok sel ok h p"
  obtains "p = None" | a x where "p = Some a" "a < h_next h" "deref sel h p = Some x" "ok h x"
  using assms by (auto simp: ptr_ok_def split: option.splits)

lemma deref_None [simp]: "deref sel h None = None"
  by (simp add: deref_def)

locale boxed_copier = deep_copier copy ok reads refs
  for copy :: "'x \<Rightarrow> 'c heap \<Rightarrow> 'x \<times> 'c heap" and ok reads refs +
  fixes mk :: "'x \<Rightarrow> 'c" and sel :: "'c \<Rightarrow> 'x option" and zero :: "'x \<Rightarrow> 'x"
  assumes sel_mk: "sel (mk x) = Some x"
begin

lemma ptr_copied:
  assumes "ptr_ok sel ok h p" "ptr_copy mk sel zero copy p h = (q, h')"
  shows "extends h h' \<and> ptr_ok sel ok h' q \<and> ptr_reads sel reads h' q = ptr_reads sel reads h p \<and> ptr_refs sel refs h' q \<subseteq> {h_next h ..< h_next h'}"
  using assms(1)
proof (cases rule: ptr_okE)
  case 1
  with assms(2) show ?thesis by (simp add: ptr_copy_def ptr_ok_def ptr_reads_def ptr_refs_def)
next
  case (2 a x)
  obtain b h1 where b: "alloc (mk (zero x)) h = (b, h1)" by fastforce
  obtain y h2 where y: "copy x h1 = (y, h2)" by fastforce
  have q: "q = Some b" "h' = store b (mk y) h2" using assms(2) 2 by (simp_all add: ptr_copy_def b y)
  have b': "b = h_next h" "h_next h1 = Suc b" using b by (auto simp: alloc_def)
  note k = kept [OF 2(4) extends_alloc [OF b]]
  note c = copied [OF conjunct1 [OF k] y]
  have n: "h_next h1 \<le> h_next h2" using c by (blast intro: extends_next)
  have "b \<notin> refs h2 y" using c b' by auto
  then have s: "ok h' y \<and> reads h' y = reads h2 y \<and> refs h' y = refs h2 y" unfolding q(2) using c by (intro stored) auto
  have d: "deref sel h' q = Some y" by (simp add: q deref_def store_def sel_mk)
  have nx: "h_next h' = h_next h2" by (simp add: q store_def)
  have "extends h h2" by (rule extends_trans [OF extends_alloc [OF b]]) (use c in blast)
  then have "extends h h'" unfolding q(2) by (rule extends_store) (simp add: b')
  moreover have "ptr_ok sel ok h' q" using d s nx n b' by (simp add: ptr_ok_def q(1))
  moreover have "ptr_reads sel reads h' q = ptr_reads sel reads h p" using c s k d 2 by (simp add: ptr_reads_def)
  moreover have "ptr_refs sel refs h' q \<subseteq> {h_next h ..< h_next h'}" using c s d nx n b' by (auto simp: ptr_refs_def q(1))
  ultimately show ?thesis by blast
qed

text \<open>The new object is not reachable from its own content.\<close>

lemma ptr_copied_fresh:
  assumes "ptr_ok sel ok h (Some p)" "ptr_copy mk sel zero copy (Some p) h = (q, h')"
  obtains b y where "q = Some b" "h_next h \<le> b" "deref sel h' q = Some y" "ok h' y" "b \<notin> refs h' y"
  using assms(1)
proof (cases rule: ptr_okE)
  case (2 a x)
  obtain b h1 where b: "alloc (mk (zero x)) h = (b, h1)" by fastforce
  obtain y h2 where y: "copy x h1 = (y, h2)" by fastforce
  have q: "q = Some b" "h' = store b (mk y) h2" using assms(2) 2 by (simp_all add: ptr_copy_def b y)
  have b': "b = h_next h" "h_next h1 = Suc b" using b by (auto simp: alloc_def)
  note c = copied [OF conjunct1 [OF kept [OF 2(4) extends_alloc [OF b]]] y]
  have f: "b \<notin> refs h2 y" using c b' by auto
  have "ok h' y \<and> refs h' y = refs h2 y" unfolding q(2) using c stored [OF _ f] by blast
  with that [of b y] f show thesis by (simp add: q deref_def store_def sel_mk b')
qed simp

end

sublocale boxed_copier \<subseteq> ptr: deep_copier "ptr_copy mk sel zero copy" "ptr_ok sel ok" "ptr_reads sel reads" "ptr_refs sel refs"
proof
  fix h p q h' assume "ptr_ok sel ok h p" "ptr_copy mk sel zero copy p h = (q, h')"
  then show "extends h h' \<and> ptr_ok sel ok h' q \<and> ptr_reads sel reads h' q = ptr_reads sel reads h p \<and> ptr_refs sel refs h' q \<subseteq> {h_next h ..< h_next h'}"
    by (rule ptr_copied)
next
  fix h p assume "ptr_ok sel ok h p"
  then show "ptr_refs sel refs h p \<subseteq> {..< h_next h}" by (cases rule: ptr_okE) (use bounded in \<open>auto simp: ptr_refs_def\<close>)
next
  fix h :: "'c heap" and p and h' :: "'c heap" assume a: "ptr_ok sel ok h p" "h_next h \<le> h_next h'" "\<And>a. a \<in> ptr_refs sel refs h p \<Longrightarrow> h_mem h' a = h_mem h a"
  from a(1) show "ptr_ok sel ok h' p \<and> ptr_reads sel reads h' p = ptr_reads sel reads h p \<and> ptr_refs sel refs h' p = ptr_refs sel refs h p"
  proof (cases rule: ptr_okE)
    case (2 b x)
    with a(3) have "h_mem h' b = h_mem h b" by (simp add: ptr_refs_def)
    then have d: "deref sel h' p = Some x" using 2 by (simp add: deref_def)
    have "h_mem h' c = h_mem h c" if "c \<in> refs h x" for c using a(3) [of c] 2 that by (simp add: ptr_refs_def)
    from stable [OF 2(4) a(2) this] 2 d a(2) show ?thesis by (simp add: ptr_ok_def ptr_reads_def ptr_refs_def)
  qed (simp add: ptr_ok_def ptr_reads_def ptr_refs_def)
qed

context boxed_copier
begin

lemma ptr_copier: "deep_copier (ptr_copy mk sel zero copy) (ptr_ok sel ok) (ptr_reads sel reads) (ptr_refs sel refs)"
  by (rule ptr.deep_copier_axioms)

end

lemma pointer_copier:
  assumes "deep_copier copy ok reads refs" "\<And>x. sel (mk x) = Some x"
  shows "deep_copier (ptr_copy mk sel zero copy) (ptr_ok sel ok) (ptr_reads sel reads) (ptr_refs sel refs)"
proof -
  have "boxed_copier copy ok reads refs mk sel"
    by (intro boxed_copier.intro boxed_copier_axioms.intro) (fact assms)+
  then show ?thesis by (rule boxed_copier.ptr_copier)
qed

text \<open>A struct, some of whose fields are copied: \<open>get\<close> reads them and \<open>put\<close> writes them.\<close>

lemma struct_copier:
  fixes f :: "'x \<Rightarrow> 'c heap \<Rightarrow> 'x \<times> 'c heap"
  assumes "deep_copier f ok reads refs"
    and "\<And>x h. copy x h = (case f (get x) h of (y, h) \<Rightarrow> (put y x, h))"
    and "\<And>x y. get (put y x) = y" and "\<And>x y v. view (put y x) v = view x v"
  shows "deep_copier copy (\<lambda>h x. ok h (get x)) (\<lambda>h x. view x (reads h (get x))) (\<lambda>h x. refs h (get x))"
proof (rule deep_copier.intro)
  fix h x z h' assume "ok h (get x)" "copy x h = (z, h')"
  then show "extends h h' \<and> ok h' (get z) \<and> view z (reads h' (get z)) = view x (reads h (get x)) \<and> refs h' (get z) \<subseteq> {h_next h ..< h_next h'}"
    using deep_copier.copied [OF assms(1), of h "get x"] by (auto simp: assms(2-4) split: prod.splits)
next
  fix h x assume "ok h (get x)"
  then show "refs h (get x) \<subseteq> {..< h_next h}" by (rule deep_copier.bounded [OF assms(1)])
next
  fix h :: "'c heap" and x and h' :: "'c heap"
  assume "ok h (get x)" "h_next h \<le> h_next h'" "\<And>a. a \<in> refs h (get x) \<Longrightarrow> h_mem h' a = h_mem h a"
  from deep_copier.stable [OF assms(1) this]
  show "ok h' (get x) \<and> view x (reads h' (get x)) = view x (reads h (get x)) \<and> refs h' (get x) = refs h (get x)" by simp
qed

end
