(* ===== verification/DeepCopy.thy ===== *)
theory DeepCopy
  imports GoHeap Controller
begin

text \<open>
  The generated deep copies, \<^verbatim>\<open>zz_generated.deepcopy.go\<close> of \<^verbatim>\<open>pkg/kilo/v1alpha1\<close> and of \<^verbatim>\<open>api/v1alpha1\<close>, on an
  explicit store of objects. The rest of the development treats Peers as values; that is justified here: a copy shares nothing with the
  original, and the loop of \<^verbatim>\<open>enrichEndpointsFromDiscovered\<close>, which writes into copies, leaves the desired Peers as they are.
\<close>

section \<open>Structs and objects\<close>

text \<open>
  A slice or a pointer is an address or nil; a slice is the whole of its array. \<open>'o\<close>, \<open>'l\<close> and \<open>'d\<close> are \<^verbatim>\<open>ObjectMeta\<close>, \<^verbatim>\<open>ListMeta\<close>
  and \<^verbatim>\<open>Condition\<close> of apimachinery, whose copies are parameters. The type meta is constant and left out.
\<close>

record heap_PeerSpec =
  hs_AllowedIPs :: "nat option"
  hs_Endpoint :: "nat option"
  hs_PersistentKeepalive :: int
  hs_PresharedKey :: string
  hs_PublicKey :: string

record 'o heap_Peer =
  hp_Meta :: 'o
  hp_Spec :: heap_PeerSpec

record 'l heap_PeerList =
  hpl_Meta :: 'l
  hpl_Items :: "nat option"

record heap_ClusterEntry =
  he_Name :: string
  he_Local :: bool
  he_KubeconfigSecretRef :: "nat option"
  he_AllowedNetworks :: "nat option"
  he_WireguardPort :: "16 word"
  he_PersistentKeepalive :: int

record heap_ClusterMeshSpec =
  hms_Clusters :: "nat option"

record heap_ClusterMeshStatus =
  hst_Clusters :: "nat option"
  hst_Conditions :: "nat option"

record 'o heap_ClusterMesh =
  hm_Meta :: 'o
  hm_Spec :: heap_ClusterMeshSpec
  hm_Status :: heap_ClusterMeshStatus

record 'l heap_ClusterMeshList =
  hml_Meta :: 'l
  hml_Items :: "nat option"

datatype ('o, 'l, 'd) cell =
    CStrings "string list"
  | CMap str_map
  | CDNSOrIP DNSOrIP
  | CEndpoint PeerEndpoint
  | CPeerSpec heap_PeerSpec
  | CPeer "'o heap_Peer"
  | CPeers "'o heap_Peer list"
  | CPeerList "'l heap_PeerList"
  | CSecretKeyRef SecretKeyRef
  | CEntry heap_ClusterEntry
  | CEntries "heap_ClusterEntry list"
  | CMeshSpec heap_ClusterMeshSpec
  | CStatus ClusterStatus
  | CStatuses "ClusterStatus list"
  | CConditions "'d list"
  | CMeshStatus heap_ClusterMeshStatus
  | CMesh "'o heap_ClusterMesh"
  | CMeshes "'o heap_ClusterMesh list"
  | CMeshList "'l heap_ClusterMeshList"

definition as_Strings :: "('o, 'l, 'd) cell \<Rightarrow> (string list) option" where
  "as_Strings c = (case c of CStrings x \<Rightarrow> Some x | _ \<Rightarrow> None)"
definition as_Map :: "('o, 'l, 'd) cell \<Rightarrow> str_map option" where
  "as_Map c = (case c of CMap x \<Rightarrow> Some x | _ \<Rightarrow> None)"
definition as_DNSOrIP :: "('o, 'l, 'd) cell \<Rightarrow> DNSOrIP option" where
  "as_DNSOrIP c = (case c of CDNSOrIP x \<Rightarrow> Some x | _ \<Rightarrow> None)"
definition as_Endpoint :: "('o, 'l, 'd) cell \<Rightarrow> PeerEndpoint option" where
  "as_Endpoint c = (case c of CEndpoint x \<Rightarrow> Some x | _ \<Rightarrow> None)"
definition as_PeerSpec :: "('o, 'l, 'd) cell \<Rightarrow> heap_PeerSpec option" where
  "as_PeerSpec c = (case c of CPeerSpec x \<Rightarrow> Some x | _ \<Rightarrow> None)"
definition as_Peer :: "('o, 'l, 'd) cell \<Rightarrow> ('o heap_Peer) option" where
  "as_Peer c = (case c of CPeer x \<Rightarrow> Some x | _ \<Rightarrow> None)"
definition as_Peers :: "('o, 'l, 'd) cell \<Rightarrow> ('o heap_Peer list) option" where
  "as_Peers c = (case c of CPeers x \<Rightarrow> Some x | _ \<Rightarrow> None)"
definition as_PeerList :: "('o, 'l, 'd) cell \<Rightarrow> ('l heap_PeerList) option" where
  "as_PeerList c = (case c of CPeerList x \<Rightarrow> Some x | _ \<Rightarrow> None)"
definition as_SecretKeyRef :: "('o, 'l, 'd) cell \<Rightarrow> SecretKeyRef option" where
  "as_SecretKeyRef c = (case c of CSecretKeyRef x \<Rightarrow> Some x | _ \<Rightarrow> None)"
definition as_Entry :: "('o, 'l, 'd) cell \<Rightarrow> heap_ClusterEntry option" where
  "as_Entry c = (case c of CEntry x \<Rightarrow> Some x | _ \<Rightarrow> None)"
definition as_Entries :: "('o, 'l, 'd) cell \<Rightarrow> (heap_ClusterEntry list) option" where
  "as_Entries c = (case c of CEntries x \<Rightarrow> Some x | _ \<Rightarrow> None)"
definition as_MeshSpec :: "('o, 'l, 'd) cell \<Rightarrow> heap_ClusterMeshSpec option" where
  "as_MeshSpec c = (case c of CMeshSpec x \<Rightarrow> Some x | _ \<Rightarrow> None)"
definition as_Status :: "('o, 'l, 'd) cell \<Rightarrow> ClusterStatus option" where
  "as_Status c = (case c of CStatus x \<Rightarrow> Some x | _ \<Rightarrow> None)"
definition as_Statuses :: "('o, 'l, 'd) cell \<Rightarrow> (ClusterStatus list) option" where
  "as_Statuses c = (case c of CStatuses x \<Rightarrow> Some x | _ \<Rightarrow> None)"
definition as_Conditions :: "('o, 'l, 'd) cell \<Rightarrow> ('d list) option" where
  "as_Conditions c = (case c of CConditions x \<Rightarrow> Some x | _ \<Rightarrow> None)"
definition as_MeshStatus :: "('o, 'l, 'd) cell \<Rightarrow> heap_ClusterMeshStatus option" where
  "as_MeshStatus c = (case c of CMeshStatus x \<Rightarrow> Some x | _ \<Rightarrow> None)"
definition as_Mesh :: "('o, 'l, 'd) cell \<Rightarrow> ('o heap_ClusterMesh) option" where
  "as_Mesh c = (case c of CMesh x \<Rightarrow> Some x | _ \<Rightarrow> None)"
definition as_Meshes :: "('o, 'l, 'd) cell \<Rightarrow> ('o heap_ClusterMesh list) option" where
  "as_Meshes c = (case c of CMeshes x \<Rightarrow> Some x | _ \<Rightarrow> None)"
definition as_MeshList :: "('o, 'l, 'd) cell \<Rightarrow> ('l heap_ClusterMeshList) option" where
  "as_MeshList c = (case c of CMeshList x \<Rightarrow> Some x | _ \<Rightarrow> None)"

lemmas as_defs = as_Strings_def as_Map_def as_DNSOrIP_def as_Endpoint_def as_PeerSpec_def as_Peer_def as_Peers_def as_PeerList_def
  as_SecretKeyRef_def as_Entry_def as_Entries_def as_MeshSpec_def as_Status_def as_Statuses_def as_Conditions_def
  as_MeshStatus_def as_Mesh_def as_Meshes_def as_MeshList_def

text \<open>The copies of apimachinery, and the zero values of its structs, as \<^verbatim>\<open>new\<close> and \<^verbatim>\<open>make\<close> leave them.\<close>

record ('o, 'l, 'd) meta_lib =
  ObjectMeta_zero :: 'o
  ListMeta_zero :: 'l
  Condition_zero :: 'd
  ObjectMeta_DeepCopyInto :: "'o \<Rightarrow> ('o, 'l, 'd) cell heap \<Rightarrow> 'o \<times> ('o, 'l, 'd) cell heap"
  ListMeta_DeepCopyInto :: "'l \<Rightarrow> ('o, 'l, 'd) cell heap \<Rightarrow> 'l \<times> ('o, 'l, 'd) cell heap"
  Condition_DeepCopyInto :: "'d \<Rightarrow> ('o, 'l, 'd) cell heap \<Rightarrow> 'd \<times> ('o, 'l, 'd) cell heap"

section \<open>The Peer API\<close>

text \<open>
  A \<^verbatim>\<open>DeepCopyInto\<close> is the function from the receiver to the value written into \<^verbatim>\<open>out\<close>; a \<^verbatim>\<open>DeepCopy\<close> works on pointers and
  is \<open>ptr_copy\<close>: nil gives nil, otherwise a zero object is allocated and filled. \<^verbatim>\<open>make\<close> and \<^verbatim>\<open>copy\<close> of a slice of
  strings are \<open>copy_strings\<close>.
\<close>

type_synonym ('o, 'l, 'd) obj_heap = "('o, 'l, 'd) cell heap"

definition copy_strings :: "nat option \<Rightarrow> ('o, 'l, 'd) obj_heap \<Rightarrow> nat option \<times> ('o, 'l, 'd) obj_heap" where
  "copy_strings = ptr_copy CStrings as_Strings (\<lambda>xs. replicate (length xs) '''') value_copy"

definition zero_DNSOrIP :: DNSOrIP where "zero_DNSOrIP = \<lparr>ep_DNS = '''', ep_IP = ''''\<rparr>"
definition zero_PeerEndpoint :: PeerEndpoint where "zero_PeerEndpoint = \<lparr>ep_DNSOrIP = zero_DNSOrIP, ep_Port = 0\<rparr>"

definition zero_PeerSpec :: heap_PeerSpec where
  "zero_PeerSpec = \<lparr>hs_AllowedIPs = None, hs_Endpoint = None, hs_PersistentKeepalive = 0, hs_PresharedKey = '''', hs_PublicKey = ''''\<rparr>"

definition zero_Peer :: "('o, 'l, 'd) meta_lib \<Rightarrow> 'o heap_Peer" where
  "zero_Peer M = \<lparr>hp_Meta = ObjectMeta_zero M, hp_Spec = zero_PeerSpec\<rparr>"

definition DNSOrIP_DeepCopyInto :: "DNSOrIP \<Rightarrow> ('o, 'l, 'd) obj_heap \<Rightarrow> DNSOrIP \<times> ('o, 'l, 'd) obj_heap" where
  "DNSOrIP_DeepCopyInto x h = (x, h)"

definition DNSOrIP_DeepCopy :: "nat option \<Rightarrow> ('o, 'l, 'd) obj_heap \<Rightarrow> nat option \<times> ('o, 'l, 'd) obj_heap" where
  "DNSOrIP_DeepCopy = ptr_copy CDNSOrIP as_DNSOrIP (\<lambda>_. zero_DNSOrIP) DNSOrIP_DeepCopyInto"

definition PeerEndpoint_DeepCopyInto :: "PeerEndpoint \<Rightarrow> ('o, 'l, 'd) obj_heap \<Rightarrow> PeerEndpoint \<times> ('o, 'l, 'd) obj_heap" where
  "PeerEndpoint_DeepCopyInto x h = (x\<lparr>ep_DNSOrIP := ep_DNSOrIP x\<rparr>, h)"

definition PeerEndpoint_DeepCopy :: "nat option \<Rightarrow> ('o, 'l, 'd) obj_heap \<Rightarrow> nat option \<times> ('o, 'l, 'd) obj_heap" where
  "PeerEndpoint_DeepCopy = ptr_copy CEndpoint as_Endpoint (\<lambda>_. zero_PeerEndpoint) PeerEndpoint_DeepCopyInto"

definition PeerSpec_DeepCopyInto :: "heap_PeerSpec \<Rightarrow> ('o, 'l, 'd) obj_heap \<Rightarrow> heap_PeerSpec \<times> ('o, 'l, 'd) obj_heap" where
  "PeerSpec_DeepCopyInto x h =
     (case copy_strings (hs_AllowedIPs x) h of (ips, h) \<Rightarrow>
       (case ptr_copy CEndpoint as_Endpoint (\<lambda>_. zero_PeerEndpoint) value_copy (hs_Endpoint x) h of (ep, h) \<Rightarrow>
         (x\<lparr>hs_AllowedIPs := ips, hs_Endpoint := ep\<rparr>, h)))"

definition PeerSpec_DeepCopy :: "nat option \<Rightarrow> ('o, 'l, 'd) obj_heap \<Rightarrow> nat option \<times> ('o, 'l, 'd) obj_heap" where
  "PeerSpec_DeepCopy = ptr_copy CPeerSpec as_PeerSpec (\<lambda>_. zero_PeerSpec) PeerSpec_DeepCopyInto"

definition Peer_DeepCopyInto ::
  "('o, 'l, 'd) meta_lib \<Rightarrow> 'o heap_Peer \<Rightarrow> ('o, 'l, 'd) obj_heap \<Rightarrow> 'o heap_Peer \<times> ('o, 'l, 'd) obj_heap" where
  "Peer_DeepCopyInto M x h =
     (case ObjectMeta_DeepCopyInto M (hp_Meta x) h of (meta, h) \<Rightarrow>
       (case PeerSpec_DeepCopyInto (hp_Spec x) h of (spec, h) \<Rightarrow> (x\<lparr>hp_Meta := meta, hp_Spec := spec\<rparr>, h)))"

definition Peer_DeepCopy ::
  "('o, 'l, 'd) meta_lib \<Rightarrow> nat option \<Rightarrow> ('o, 'l, 'd) obj_heap \<Rightarrow> nat option \<times> ('o, 'l, 'd) obj_heap" where
  "Peer_DeepCopy M = ptr_copy CPeer as_Peer (\<lambda>_. zero_Peer M) (Peer_DeepCopyInto M)"

definition Peer_DeepCopyObject ::
  "('o, 'l, 'd) meta_lib \<Rightarrow> nat option \<Rightarrow> ('o, 'l, 'd) obj_heap \<Rightarrow> nat option \<times> ('o, 'l, 'd) obj_heap" where
  "Peer_DeepCopyObject M p h = (case Peer_DeepCopy M p h of (Some c, h) \<Rightarrow> (Some c, h) | (None, h) \<Rightarrow> (None, h))"

definition PeerList_DeepCopyInto ::
  "('o, 'l, 'd) meta_lib \<Rightarrow> 'l heap_PeerList \<Rightarrow> ('o, 'l, 'd) obj_heap \<Rightarrow> 'l heap_PeerList \<times> ('o, 'l, 'd) obj_heap" where
  "PeerList_DeepCopyInto M x h =
     (case ListMeta_DeepCopyInto M (hpl_Meta x) h of (meta, h) \<Rightarrow>
       (case ptr_copy CPeers as_Peers (\<lambda>xs. replicate (length xs) (zero_Peer M)) (list_copy (Peer_DeepCopyInto M)) (hpl_Items x) h of
          (items, h) \<Rightarrow> (x\<lparr>hpl_Meta := meta, hpl_Items := items\<rparr>, h)))"

definition PeerList_DeepCopy ::
  "('o, 'l, 'd) meta_lib \<Rightarrow> nat option \<Rightarrow> ('o, 'l, 'd) obj_heap \<Rightarrow> nat option \<times> ('o, 'l, 'd) obj_heap" where
  "PeerList_DeepCopy M = ptr_copy CPeerList as_PeerList (\<lambda>_. \<lparr>hpl_Meta = ListMeta_zero M, hpl_Items = None\<rparr>) (PeerList_DeepCopyInto M)"

definition PeerList_DeepCopyObject ::
  "('o, 'l, 'd) meta_lib \<Rightarrow> nat option \<Rightarrow> ('o, 'l, 'd) obj_heap \<Rightarrow> nat option \<times> ('o, 'l, 'd) obj_heap" where
  "PeerList_DeepCopyObject M p h = (case PeerList_DeepCopy M p h of (Some c, h) \<Rightarrow> (Some c, h) | (None, h) \<Rightarrow> (None, h))"

section \<open>The ClusterMesh API\<close>

definition zero_SecretKeyRef :: SecretKeyRef where "zero_SecretKeyRef = \<lparr>ref_Name = '''', ref_Key = ''''\<rparr>"

definition zero_ClusterEntry :: heap_ClusterEntry where
  "zero_ClusterEntry = \<lparr>he_Name = '''', he_Local = False, he_KubeconfigSecretRef = None, he_AllowedNetworks = None,
     he_WireguardPort = 0, he_PersistentKeepalive = 0\<rparr>"

definition zero_ClusterStatus :: ClusterStatus where
  "zero_ClusterStatus = \<lparr>status_Name = '''', status_RegisteredPeers = 0, status_SkippedNodes = 0\<rparr>"

definition zero_ClusterMesh :: "('o, 'l, 'd) meta_lib \<Rightarrow> 'o heap_ClusterMesh" where
  "zero_ClusterMesh M = \<lparr>hm_Meta = ObjectMeta_zero M, hm_Spec = \<lparr>hms_Clusters = None\<rparr>,
     hm_Status = \<lparr>hst_Clusters = None, hst_Conditions = None\<rparr>\<rparr>"

definition SecretKeyRef_DeepCopyInto :: "SecretKeyRef \<Rightarrow> ('o, 'l, 'd) obj_heap \<Rightarrow> SecretKeyRef \<times> ('o, 'l, 'd) obj_heap" where
  "SecretKeyRef_DeepCopyInto x h = (x, h)"

definition SecretKeyRef_DeepCopy :: "nat option \<Rightarrow> ('o, 'l, 'd) obj_heap \<Rightarrow> nat option \<times> ('o, 'l, 'd) obj_heap" where
  "SecretKeyRef_DeepCopy = ptr_copy CSecretKeyRef as_SecretKeyRef (\<lambda>_. zero_SecretKeyRef) SecretKeyRef_DeepCopyInto"

definition ClusterStatus_DeepCopyInto :: "ClusterStatus \<Rightarrow> ('o, 'l, 'd) obj_heap \<Rightarrow> ClusterStatus \<times> ('o, 'l, 'd) obj_heap" where
  "ClusterStatus_DeepCopyInto x h = (x, h)"

definition ClusterStatus_DeepCopy :: "nat option \<Rightarrow> ('o, 'l, 'd) obj_heap \<Rightarrow> nat option \<times> ('o, 'l, 'd) obj_heap" where
  "ClusterStatus_DeepCopy = ptr_copy CStatus as_Status (\<lambda>_. zero_ClusterStatus) ClusterStatus_DeepCopyInto"

definition ClusterEntry_DeepCopyInto :: "heap_ClusterEntry \<Rightarrow> ('o, 'l, 'd) obj_heap \<Rightarrow> heap_ClusterEntry \<times> ('o, 'l, 'd) obj_heap" where
  "ClusterEntry_DeepCopyInto x h =
     (case ptr_copy CSecretKeyRef as_SecretKeyRef (\<lambda>_. zero_SecretKeyRef) value_copy (he_KubeconfigSecretRef x) h of (ref, h) \<Rightarrow>
       (case copy_strings (he_AllowedNetworks x) h of (networks, h) \<Rightarrow>
         (x\<lparr>he_KubeconfigSecretRef := ref, he_AllowedNetworks := networks\<rparr>, h)))"

definition ClusterEntry_DeepCopy :: "nat option \<Rightarrow> ('o, 'l, 'd) obj_heap \<Rightarrow> nat option \<times> ('o, 'l, 'd) obj_heap" where
  "ClusterEntry_DeepCopy = ptr_copy CEntry as_Entry (\<lambda>_. zero_ClusterEntry) ClusterEntry_DeepCopyInto"

definition ClusterMeshSpec_DeepCopyInto ::
  "heap_ClusterMeshSpec \<Rightarrow> ('o, 'l, 'd) obj_heap \<Rightarrow> heap_ClusterMeshSpec \<times> ('o, 'l, 'd) obj_heap" where
  "ClusterMeshSpec_DeepCopyInto x h =
     (case ptr_copy CEntries as_Entries (\<lambda>xs. replicate (length xs) zero_ClusterEntry) (list_copy ClusterEntry_DeepCopyInto) (hms_Clusters x) h of
        (clusters, h) \<Rightarrow> (x\<lparr>hms_Clusters := clusters\<rparr>, h))"

definition ClusterMeshSpec_DeepCopy :: "nat option \<Rightarrow> ('o, 'l, 'd) obj_heap \<Rightarrow> nat option \<times> ('o, 'l, 'd) obj_heap" where
  "ClusterMeshSpec_DeepCopy = ptr_copy CMeshSpec as_MeshSpec (\<lambda>_. \<lparr>hms_Clusters = None\<rparr>) ClusterMeshSpec_DeepCopyInto"

definition ClusterMeshStatus_DeepCopyInto ::
  "('o, 'l, 'd) meta_lib \<Rightarrow> heap_ClusterMeshStatus \<Rightarrow> ('o, 'l, 'd) obj_heap \<Rightarrow> heap_ClusterMeshStatus \<times> ('o, 'l, 'd) obj_heap" where
  "ClusterMeshStatus_DeepCopyInto M x h =
     (case ptr_copy CStatuses as_Statuses (\<lambda>xs. replicate (length xs) zero_ClusterStatus) value_copy (hst_Clusters x) h of (clusters, h) \<Rightarrow>
       (case ptr_copy CConditions as_Conditions (\<lambda>xs. replicate (length xs) (Condition_zero M)) (list_copy (Condition_DeepCopyInto M))
          (hst_Conditions x) h of
          (conditions, h) \<Rightarrow> (x\<lparr>hst_Clusters := clusters, hst_Conditions := conditions\<rparr>, h)))"

definition ClusterMeshStatus_DeepCopy ::
  "('o, 'l, 'd) meta_lib \<Rightarrow> nat option \<Rightarrow> ('o, 'l, 'd) obj_heap \<Rightarrow> nat option \<times> ('o, 'l, 'd) obj_heap" where
  "ClusterMeshStatus_DeepCopy M =
     ptr_copy CMeshStatus as_MeshStatus (\<lambda>_. \<lparr>hst_Clusters = None, hst_Conditions = None\<rparr>) (ClusterMeshStatus_DeepCopyInto M)"

definition ClusterMesh_DeepCopyInto ::
  "('o, 'l, 'd) meta_lib \<Rightarrow> 'o heap_ClusterMesh \<Rightarrow> ('o, 'l, 'd) obj_heap \<Rightarrow> 'o heap_ClusterMesh \<times> ('o, 'l, 'd) obj_heap" where
  "ClusterMesh_DeepCopyInto M x h =
     (case ObjectMeta_DeepCopyInto M (hm_Meta x) h of (meta, h) \<Rightarrow>
       (case ClusterMeshSpec_DeepCopyInto (hm_Spec x) h of (spec, h) \<Rightarrow>
         (case ClusterMeshStatus_DeepCopyInto M (hm_Status x) h of (status, h) \<Rightarrow>
           (x\<lparr>hm_Meta := meta, hm_Spec := spec, hm_Status := status\<rparr>, h))))"

definition ClusterMesh_DeepCopy ::
  "('o, 'l, 'd) meta_lib \<Rightarrow> nat option \<Rightarrow> ('o, 'l, 'd) obj_heap \<Rightarrow> nat option \<times> ('o, 'l, 'd) obj_heap" where
  "ClusterMesh_DeepCopy M = ptr_copy CMesh as_Mesh (\<lambda>_. zero_ClusterMesh M) (ClusterMesh_DeepCopyInto M)"

definition ClusterMesh_DeepCopyObject ::
  "('o, 'l, 'd) meta_lib \<Rightarrow> nat option \<Rightarrow> ('o, 'l, 'd) obj_heap \<Rightarrow> nat option \<times> ('o, 'l, 'd) obj_heap" where
  "ClusterMesh_DeepCopyObject M p h = (case ClusterMesh_DeepCopy M p h of (Some c, h) \<Rightarrow> (Some c, h) | (None, h) \<Rightarrow> (None, h))"

definition ClusterMeshList_DeepCopyInto ::
  "('o, 'l, 'd) meta_lib \<Rightarrow> 'l heap_ClusterMeshList \<Rightarrow> ('o, 'l, 'd) obj_heap \<Rightarrow> 'l heap_ClusterMeshList \<times> ('o, 'l, 'd) obj_heap" where
  "ClusterMeshList_DeepCopyInto M x h =
     (case ListMeta_DeepCopyInto M (hml_Meta x) h of (meta, h) \<Rightarrow>
       (case ptr_copy CMeshes as_Meshes (\<lambda>xs. replicate (length xs) (zero_ClusterMesh M)) (list_copy (ClusterMesh_DeepCopyInto M)) (hml_Items x) h of
          (items, h) \<Rightarrow> (x\<lparr>hml_Meta := meta, hml_Items := items\<rparr>, h)))"

definition ClusterMeshList_DeepCopy ::
  "('o, 'l, 'd) meta_lib \<Rightarrow> nat option \<Rightarrow> ('o, 'l, 'd) obj_heap \<Rightarrow> nat option \<times> ('o, 'l, 'd) obj_heap" where
  "ClusterMeshList_DeepCopy M =
     ptr_copy CMeshList as_MeshList (\<lambda>_. \<lparr>hml_Meta = ListMeta_zero M, hml_Items = None\<rparr>) (ClusterMeshList_DeepCopyInto M)"

definition ClusterMeshList_DeepCopyObject ::
  "('o, 'l, 'd) meta_lib \<Rightarrow> nat option \<Rightarrow> ('o, 'l, 'd) obj_heap \<Rightarrow> nat option \<times> ('o, 'l, 'd) obj_heap" where
  "ClusterMeshList_DeepCopyObject M p h = (case ClusterMeshList_DeepCopy M p h of (Some c, h) \<Rightarrow> (Some c, h) | (None, h) \<Rightarrow> (None, h))"

end
