(* ===== verification/CopyFacts.thy ===== *)
theory CopyFacts
  imports DeepCopy
begin

text \<open>
  The generated deep copies meet the contract of \<open>deep_copier\<close>, and the loop of \<^verbatim>\<open>enrichEndpointsFromDiscovered\<close> on the store
  of objects is the function on values that the controller's model uses.
\<close>

section \<open>What the objects read\<close>

text \<open>The metadata the operator uses.\<close>

record ObjectMeta =
  om_Name :: string
  om_Namespace :: string
  om_Labels :: str_map
  om_ResourceVersion :: string
  om_Generation :: int
  om_Deleting :: bool
  om_Finalizers :: "string list"

abbreviation nil_empty :: "'a list option \<Rightarrow> 'a list" where
  "nil_empty x \<equiv> (case x of None \<Rightarrow> [] | Some xs \<Rightarrow> xs)"

abbreviation plain_ok :: "'c heap \<Rightarrow> 'x \<Rightarrow> bool" where "plain_ok \<equiv> \<lambda>h x. True"
abbreviation plain_reads :: "'c heap \<Rightarrow> 'x \<Rightarrow> 'x" where "plain_reads \<equiv> \<lambda>h x. x"
abbreviation plain_refs :: "'c heap \<Rightarrow> 'x \<Rightarrow> nat set" where "plain_refs \<equiv> \<lambda>h x. {}"

definition spec_ok :: "('o, 'l, 'd) obj_heap \<Rightarrow> heap_PeerSpec \<Rightarrow> bool" where
  "spec_ok h s \<longleftrightarrow> ptr_ok as_Strings plain_ok h (hs_AllowedIPs s) \<and> ptr_ok as_Endpoint plain_ok h (hs_Endpoint s)"

definition spec_reads :: "('o, 'l, 'd) obj_heap \<Rightarrow> heap_PeerSpec \<Rightarrow> PeerSpec" where
  "spec_reads h s = \<lparr>AllowedIPs = nil_empty (ptr_reads as_Strings plain_reads h (hs_AllowedIPs s)),
     Endpoint = ptr_reads as_Endpoint plain_reads h (hs_Endpoint s), PersistentKeepalive = hs_PersistentKeepalive s,
     PresharedKey = hs_PresharedKey s, PublicKey = hs_PublicKey s\<rparr>"

definition spec_refs :: "('o, 'l, 'd) obj_heap \<Rightarrow> heap_PeerSpec \<Rightarrow> nat set" where
  "spec_refs h s = ptr_refs as_Strings plain_refs h (hs_AllowedIPs s) \<union> ptr_refs as_Endpoint plain_refs h (hs_Endpoint s)"

definition peer_of :: "ObjectMeta \<Rightarrow> PeerSpec \<Rightarrow> Peer" where
  "peer_of meta spec = \<lparr>peer_Name = om_Name meta, peer_Labels = om_Labels meta, peer_ResourceVersion = om_ResourceVersion meta, peer_Spec = spec\<rparr>"

definition peer_ok :: "(('o, 'l, 'd) obj_heap \<Rightarrow> 'o \<Rightarrow> bool) \<Rightarrow> ('o, 'l, 'd) obj_heap \<Rightarrow> 'o heap_Peer \<Rightarrow> bool" where
  "peer_ok meta_ok h p \<longleftrightarrow> meta_ok h (hp_Meta p) \<and> spec_ok h (hp_Spec p)"

definition peer_reads :: "(('o, 'l, 'd) obj_heap \<Rightarrow> 'o \<Rightarrow> ObjectMeta) \<Rightarrow> ('o, 'l, 'd) obj_heap \<Rightarrow> 'o heap_Peer \<Rightarrow> Peer" where
  "peer_reads meta_reads h p = peer_of (meta_reads h (hp_Meta p)) (spec_reads h (hp_Spec p))"

definition peer_refs :: "(('o, 'l, 'd) obj_heap \<Rightarrow> 'o \<Rightarrow> nat set) \<Rightarrow> ('o, 'l, 'd) obj_heap \<Rightarrow> 'o heap_Peer \<Rightarrow> nat set" where
  "peer_refs meta_refs h p = meta_refs h (hp_Meta p) \<union> spec_refs h (hp_Spec p)"

definition entry_ok :: "('o, 'l, 'd) obj_heap \<Rightarrow> heap_ClusterEntry \<Rightarrow> bool" where
  "entry_ok h e \<longleftrightarrow> ptr_ok as_SecretKeyRef plain_ok h (he_KubeconfigSecretRef e) \<and> ptr_ok as_Strings plain_ok h (he_AllowedNetworks e)"

definition entry_reads :: "('o, 'l, 'd) obj_heap \<Rightarrow> heap_ClusterEntry \<Rightarrow> ClusterEntry" where
  "entry_reads h e = \<lparr>entry_Name = he_Name e, entry_Local = he_Local e,
     entry_KubeconfigSecretRef = ptr_reads as_SecretKeyRef plain_reads h (he_KubeconfigSecretRef e),
     entry_AllowedNetworks = nil_empty (ptr_reads as_Strings plain_reads h (he_AllowedNetworks e)),
     entry_WireguardPort = he_WireguardPort e, entry_PersistentKeepalive = he_PersistentKeepalive e\<rparr>"

definition entry_refs :: "('o, 'l, 'd) obj_heap \<Rightarrow> heap_ClusterEntry \<Rightarrow> nat set" where
  "entry_refs h e =
     ptr_refs as_SecretKeyRef plain_refs h (he_KubeconfigSecretRef e) \<union> ptr_refs as_Strings plain_refs h (he_AllowedNetworks e)"

definition list_refs :: "('c heap \<Rightarrow> 'x \<Rightarrow> nat set) \<Rightarrow> 'c heap \<Rightarrow> 'x list \<Rightarrow> nat set" where
  "list_refs refs h xs = (\<Union>x \<in> set xs. refs h x)"

definition mesh_of :: "ObjectMeta \<Rightarrow> ClusterEntry list \<Rightarrow> ClusterMeshStatus \<Rightarrow> ClusterMesh" where
  "mesh_of meta clusters status = \<lparr>mesh_Name = om_Name meta, mesh_Namespace = om_Namespace meta, mesh_Generation = om_Generation meta,
     mesh_Deleting = om_Deleting meta, mesh_Finalizers = om_Finalizers meta, mesh_Clusters = clusters, mesh_Status = status\<rparr>"

text \<open>How the metadata of apimachinery is stored: what is well typed, what it reads, what it reaches.\<close>

record ('o, 'l, 'd) meta_view =
  mv_ok :: "('o, 'l, 'd) obj_heap \<Rightarrow> 'o \<Rightarrow> bool"
  mv_reads :: "('o, 'l, 'd) obj_heap \<Rightarrow> 'o \<Rightarrow> ObjectMeta"
  mv_refs :: "('o, 'l, 'd) obj_heap \<Rightarrow> 'o \<Rightarrow> nat set"
  lv_ok :: "('o, 'l, 'd) obj_heap \<Rightarrow> 'l \<Rightarrow> bool"
  lv_reads :: "('o, 'l, 'd) obj_heap \<Rightarrow> 'l \<Rightarrow> string"
  lv_refs :: "('o, 'l, 'd) obj_heap \<Rightarrow> 'l \<Rightarrow> nat set"
  cv_ok :: "('o, 'l, 'd) obj_heap \<Rightarrow> 'd \<Rightarrow> bool"
  cv_reads :: "('o, 'l, 'd) obj_heap \<Rightarrow> 'd \<Rightarrow> Condition"
  cv_refs :: "('o, 'l, 'd) obj_heap \<Rightarrow> 'd \<Rightarrow> nat set"

definition mesh_ok :: "('o, 'l, 'd) meta_view \<Rightarrow> ('o, 'l, 'd) obj_heap \<Rightarrow> 'o heap_ClusterMesh \<Rightarrow> bool" where
  "mesh_ok V h m \<longleftrightarrow> mv_ok V h (hm_Meta m) \<and> ptr_ok as_Entries (\<lambda>h. list_all (entry_ok h)) h (hms_Clusters (hm_Spec m)) \<and>
     ptr_ok as_Statuses plain_ok h (hst_Clusters (hm_Status m)) \<and>
     ptr_ok as_Conditions (\<lambda>h. list_all (cv_ok V h)) h (hst_Conditions (hm_Status m))"

definition mesh_reads :: "('o, 'l, 'd) meta_view \<Rightarrow> ('o, 'l, 'd) obj_heap \<Rightarrow> 'o heap_ClusterMesh \<Rightarrow> ClusterMesh" where
  "mesh_reads V h m = mesh_of (mv_reads V h (hm_Meta m))
     (nil_empty (ptr_reads as_Entries (\<lambda>h. map (entry_reads h)) h (hms_Clusters (hm_Spec m))))
     \<lparr>ms_Clusters = nil_empty (ptr_reads as_Statuses plain_reads h (hst_Clusters (hm_Status m))),
      ms_Conditions = nil_empty (ptr_reads as_Conditions (\<lambda>h. map (cv_reads V h)) h (hst_Conditions (hm_Status m)))\<rparr>"

definition mesh_refs_of :: "('o, 'l, 'd) meta_view \<Rightarrow> ('o, 'l, 'd) obj_heap \<Rightarrow> 'o heap_ClusterMesh \<Rightarrow> nat set" where
  "mesh_refs_of V h m = mv_refs V h (hm_Meta m) \<union> ptr_refs as_Entries (list_refs entry_refs) h (hms_Clusters (hm_Spec m)) \<union>
     (ptr_refs as_Statuses plain_refs h (hst_Clusters (hm_Status m)) \<union>
      ptr_refs as_Conditions (list_refs (cv_refs V)) h (hst_Conditions (hm_Status m)))"

definition peer_list_ok :: "('o, 'l, 'd) meta_view \<Rightarrow> ('o, 'l, 'd) obj_heap \<Rightarrow> 'l heap_PeerList \<Rightarrow> bool" where
  "peer_list_ok V h x \<longleftrightarrow> lv_ok V h (hpl_Meta x) \<and> ptr_ok as_Peers (\<lambda>h. list_all (peer_ok (mv_ok V) h)) h (hpl_Items x)"

definition peer_list_reads :: "('o, 'l, 'd) meta_view \<Rightarrow> ('o, 'l, 'd) obj_heap \<Rightarrow> 'l heap_PeerList \<Rightarrow> string \<times> Peer list" where
  "peer_list_reads V h x = (lv_reads V h (hpl_Meta x), nil_empty (ptr_reads as_Peers (\<lambda>h. map (peer_reads (mv_reads V) h)) h (hpl_Items x)))"

definition peer_list_refs :: "('o, 'l, 'd) meta_view \<Rightarrow> ('o, 'l, 'd) obj_heap \<Rightarrow> 'l heap_PeerList \<Rightarrow> nat set" where
  "peer_list_refs V h x = lv_refs V h (hpl_Meta x) \<union> ptr_refs as_Peers (list_refs (peer_refs (mv_refs V))) h (hpl_Items x)"

definition mesh_list_ok :: "('o, 'l, 'd) meta_view \<Rightarrow> ('o, 'l, 'd) obj_heap \<Rightarrow> 'l heap_ClusterMeshList \<Rightarrow> bool" where
  "mesh_list_ok V h x \<longleftrightarrow> lv_ok V h (hml_Meta x) \<and> ptr_ok as_Meshes (\<lambda>h. list_all (mesh_ok V h)) h (hml_Items x)"

definition mesh_list_reads :: "('o, 'l, 'd) meta_view \<Rightarrow> ('o, 'l, 'd) obj_heap \<Rightarrow> 'l heap_ClusterMeshList \<Rightarrow> string \<times> ClusterMesh list" where
  "mesh_list_reads V h x = (lv_reads V h (hml_Meta x), nil_empty (ptr_reads as_Meshes (\<lambda>h. map (mesh_reads V h)) h (hml_Items x)))"

definition mesh_list_refs :: "('o, 'l, 'd) meta_view \<Rightarrow> ('o, 'l, 'd) obj_heap \<Rightarrow> 'l heap_ClusterMeshList \<Rightarrow> nat set" where
  "mesh_list_refs V h x = lv_refs V h (hml_Meta x) \<union> ptr_refs as_Meshes (list_refs (mesh_refs_of V)) h (hml_Items x)"

section \<open>The copies are deep\<close>

interpretation strings: boxed_copier value_copy plain_ok plain_reads plain_refs CStrings as_Strings "\<lambda>xs. replicate (length xs) ''''"
  by unfold_locales (auto simp: value_copy_def as_defs)

lemma strings_copier: "deep_copier copy_strings (ptr_ok as_Strings plain_ok) (ptr_reads as_Strings plain_reads) (ptr_refs as_Strings plain_refs)"
  unfolding copy_strings_def by (rule strings.ptr_copier)

lemma array_copier:
  assumes "deep_copier f ok reads refs" "\<And>x. sel (mk x) = Some x"
  shows "deep_copier (ptr_copy mk sel zero (list_copy f)) (ptr_ok sel (\<lambda>h. list_all (ok h))) (ptr_reads sel (\<lambda>h. map (reads h)))
     (ptr_refs sel (list_refs refs))"
  unfolding list_refs_def [abs_def] by (rule pointer_copier [OF list_copier [OF assms(1)] assms(2)])

lemma spec_copier: "deep_copier PeerSpec_DeepCopyInto spec_ok spec_reads spec_refs"
proof -
  let ?ep = "ptr_copy CEndpoint as_Endpoint (\<lambda>_. zero_PeerEndpoint) value_copy"
  have e: "deep_copier ?ep (ptr_ok as_Endpoint plain_ok) (ptr_reads as_Endpoint plain_reads) (ptr_refs as_Endpoint plain_refs)"
    by (rule pointer_copier [OF plain.deep_copier_axioms]) (simp add: as_defs)
  have "deep_copier PeerSpec_DeepCopyInto
     (\<lambda>h x. (\<lambda>h p. ptr_ok as_Strings plain_ok h (fst p) \<and> ptr_ok as_Endpoint plain_ok h (snd p)) h (hs_AllowedIPs x, hs_Endpoint x))
     (\<lambda>h x. (\<lambda>s v. \<lparr>AllowedIPs = nil_empty (fst v), Endpoint = snd v, PersistentKeepalive = hs_PersistentKeepalive s,
        PresharedKey = hs_PresharedKey s, PublicKey = hs_PublicKey s\<rparr>) x
        ((\<lambda>h p. (ptr_reads as_Strings plain_reads h (fst p), ptr_reads as_Endpoint plain_reads h (snd p))) h (hs_AllowedIPs x, hs_Endpoint x)))
     (\<lambda>h x. (\<lambda>h p. ptr_refs as_Strings plain_refs h (fst p) \<union> ptr_refs as_Endpoint plain_refs h (snd p)) h (hs_AllowedIPs x, hs_Endpoint x))"
    by (rule struct_copier [OF pair_copier [OF strings_copier e], where put = "\<lambda>p s. s\<lparr>hs_AllowedIPs := fst p, hs_Endpoint := snd p\<rparr>"])
      (simp_all add: PeerSpec_DeepCopyInto_def pair_copy_def split: prod.split)
  then show ?thesis by (simp add: spec_ok_def [abs_def] spec_reads_def [abs_def] spec_refs_def [abs_def])
qed

lemma entry_copier: "deep_copier ClusterEntry_DeepCopyInto entry_ok entry_reads entry_refs"
proof -
  let ?ref = "ptr_copy CSecretKeyRef as_SecretKeyRef (\<lambda>_. zero_SecretKeyRef) value_copy"
  have e: "deep_copier ?ref (ptr_ok as_SecretKeyRef plain_ok) (ptr_reads as_SecretKeyRef plain_reads) (ptr_refs as_SecretKeyRef plain_refs)"
    by (rule pointer_copier [OF plain.deep_copier_axioms]) (simp add: as_defs)
  let ?get = "\<lambda>x. (he_KubeconfigSecretRef x, he_AllowedNetworks x)"
  have "deep_copier ClusterEntry_DeepCopyInto
     (\<lambda>h x. (\<lambda>h p. ptr_ok as_SecretKeyRef plain_ok h (fst p) \<and> ptr_ok as_Strings plain_ok h (snd p)) h (?get x))
     (\<lambda>h x. (\<lambda>e v. \<lparr>entry_Name = he_Name e, entry_Local = he_Local e, entry_KubeconfigSecretRef = fst v,
        entry_AllowedNetworks = nil_empty (snd v), entry_WireguardPort = he_WireguardPort e,
        entry_PersistentKeepalive = he_PersistentKeepalive e\<rparr>) x
        ((\<lambda>h p. (ptr_reads as_SecretKeyRef plain_reads h (fst p), ptr_reads as_Strings plain_reads h (snd p))) h (?get x)))
     (\<lambda>h x. (\<lambda>h p. ptr_refs as_SecretKeyRef plain_refs h (fst p) \<union> ptr_refs as_Strings plain_refs h (snd p)) h (?get x))"
    by (rule struct_copier [OF pair_copier [OF e strings_copier],
          where put = "\<lambda>p s. s\<lparr>he_KubeconfigSecretRef := fst p, he_AllowedNetworks := snd p\<rparr>"])
      (simp_all add: ClusterEntry_DeepCopyInto_def pair_copy_def split: prod.split)
  then show ?thesis by (simp add: entry_ok_def [abs_def] entry_reads_def [abs_def] entry_refs_def [abs_def])
qed

text \<open>The contract of apimachinery's own deep copies.\<close>

locale api_copies =
  fixes M :: "('o, 'l, 'd) meta_lib" and V :: "('o, 'l, 'd) meta_view"
  assumes object_meta: "deep_copier (ObjectMeta_DeepCopyInto M) (mv_ok V) (mv_reads V) (mv_refs V)"
    and list_meta: "deep_copier (ListMeta_DeepCopyInto M) (lv_ok V) (lv_reads V) (lv_refs V)"
    and condition: "deep_copier (Condition_DeepCopyInto M) (cv_ok V) (cv_reads V) (cv_refs V)"
begin

lemma peer_copier: "deep_copier (Peer_DeepCopyInto M) (peer_ok (mv_ok V)) (peer_reads (mv_reads V)) (peer_refs (mv_refs V))"
proof -
  let ?get = "\<lambda>x. (hp_Meta x, hp_Spec x)"
  have "deep_copier (Peer_DeepCopyInto M)
     (\<lambda>h x. (\<lambda>h p. mv_ok V h (fst p) \<and> spec_ok h (snd p)) h (?get x))
     (\<lambda>h x. (\<lambda>_ v. peer_of (fst v) (snd v)) x ((\<lambda>h p. (mv_reads V h (fst p), spec_reads h (snd p))) h (?get x)))
     (\<lambda>h x. (\<lambda>h p. mv_refs V h (fst p) \<union> spec_refs h (snd p)) h (?get x))"
    by (rule struct_copier [OF pair_copier [OF object_meta spec_copier], where put = "\<lambda>p s. s\<lparr>hp_Meta := fst p, hp_Spec := snd p\<rparr>"])
      (simp_all add: Peer_DeepCopyInto_def pair_copy_def split: prod.split)
  then show ?thesis by (simp add: peer_ok_def [abs_def] peer_reads_def [abs_def] peer_refs_def [abs_def])
qed

lemma peer_list_copier: "deep_copier (PeerList_DeepCopyInto M) (peer_list_ok V) (peer_list_reads V) (peer_list_refs V)"
proof -
  let ?items = "ptr_copy CPeers as_Peers (\<lambda>xs. replicate (length xs) (zero_Peer M)) (list_copy (Peer_DeepCopyInto M))"
  have a: "deep_copier ?items (ptr_ok as_Peers (\<lambda>h. list_all (peer_ok (mv_ok V) h))) (ptr_reads as_Peers (\<lambda>h. map (peer_reads (mv_reads V) h)))
      (ptr_refs as_Peers (list_refs (peer_refs (mv_refs V))))"
    by (rule array_copier [OF peer_copier]) (simp add: as_defs)
  let ?get = "\<lambda>x. (hpl_Meta x, hpl_Items x)"
  have "deep_copier (PeerList_DeepCopyInto M)
     (\<lambda>h x. (\<lambda>h p. lv_ok V h (fst p) \<and> ptr_ok as_Peers (\<lambda>h. list_all (peer_ok (mv_ok V) h)) h (snd p)) h (?get x))
     (\<lambda>h x. (\<lambda>_ v. (fst v, nil_empty (snd v))) x
        ((\<lambda>h p. (lv_reads V h (fst p), ptr_reads as_Peers (\<lambda>h. map (peer_reads (mv_reads V) h)) h (snd p))) h (?get x)))
     (\<lambda>h x. (\<lambda>h p. lv_refs V h (fst p) \<union> ptr_refs as_Peers (list_refs (peer_refs (mv_refs V))) h (snd p)) h (?get x))"
    by (rule struct_copier [OF pair_copier [OF list_meta a], where put = "\<lambda>p s. s\<lparr>hpl_Meta := fst p, hpl_Items := snd p\<rparr>"])
      (simp_all add: PeerList_DeepCopyInto_def pair_copy_def split: prod.split)
  then show ?thesis by (simp add: peer_list_ok_def [abs_def] peer_list_reads_def [abs_def] peer_list_refs_def [abs_def])
qed

lemma mesh_copier: "deep_copier (ClusterMesh_DeepCopyInto M) (mesh_ok V) (mesh_reads V) (mesh_refs_of V)"
proof -
  let ?entries = "ptr_copy CEntries as_Entries (\<lambda>xs. replicate (length xs) zero_ClusterEntry) (list_copy ClusterEntry_DeepCopyInto)"
  let ?statuses = "ptr_copy CStatuses as_Statuses (\<lambda>xs. replicate (length xs) zero_ClusterStatus) value_copy"
  let ?conds = "ptr_copy CConditions as_Conditions (\<lambda>xs. replicate (length xs) (Condition_zero M)) (list_copy (Condition_DeepCopyInto M))"
  have e: "deep_copier ?entries (ptr_ok as_Entries (\<lambda>h. list_all (entry_ok h))) (ptr_reads as_Entries (\<lambda>h. map (entry_reads h)))
      (ptr_refs as_Entries (list_refs entry_refs))" by (rule array_copier [OF entry_copier]) (simp add: as_defs)
  have s: "deep_copier ?statuses (ptr_ok as_Statuses plain_ok) (ptr_reads as_Statuses plain_reads) (ptr_refs as_Statuses plain_refs)"
    by (rule pointer_copier [OF plain.deep_copier_axioms]) (simp add: as_defs)
  have c: "deep_copier ?conds (ptr_ok as_Conditions (\<lambda>h. list_all (cv_ok V h))) (ptr_reads as_Conditions (\<lambda>h. map (cv_reads V h)))
      (ptr_refs as_Conditions (list_refs (cv_refs V)))" by (rule array_copier [OF condition]) (simp add: as_defs)
  let ?get = "\<lambda>x. ((hm_Meta x, hms_Clusters (hm_Spec x)), (hst_Clusters (hm_Status x), hst_Conditions (hm_Status x)))"
  let ?put = "\<lambda>p x. x\<lparr>hm_Meta := fst (fst p), hm_Spec := (hm_Spec x)\<lparr>hms_Clusters := snd (fst p)\<rparr>,
      hm_Status := (hm_Status x)\<lparr>hst_Clusters := fst (snd p), hst_Conditions := snd (snd p)\<rparr>\<rparr>"
  let ?view = "\<lambda>_ v. mesh_of (fst (fst v)) (nil_empty (snd (fst v)))
      \<lparr>ms_Clusters = nil_empty (fst (snd v)), ms_Conditions = nil_empty (snd (snd v))\<rparr>"
  note p = pair_copier [OF pair_copier [OF object_meta e] pair_copier [OF s c]]
  have eq: "ClusterMesh_DeepCopyInto M x h =
      (case pair_copy (pair_copy (ObjectMeta_DeepCopyInto M) ?entries) (pair_copy ?statuses ?conds) (?get x) h of (y, h) \<Rightarrow> (?put y x, h))" for x h
    by (simp add: ClusterMesh_DeepCopyInto_def ClusterMeshSpec_DeepCopyInto_def ClusterMeshStatus_DeepCopyInto_def pair_copy_def split: prod.split)
  have get_put: "?get (?put y x) = y" for x :: "'o heap_ClusterMesh" and y by simp
  from struct_copier [OF p, where copy = "ClusterMesh_DeepCopyInto M" and get = ?get and put = ?put and view = ?view, OF eq get_put refl]
  show ?thesis by (simp add: mesh_ok_def [abs_def] mesh_reads_def [abs_def] mesh_refs_of_def [abs_def] conj_assoc)
qed

lemma mesh_list_copier: "deep_copier (ClusterMeshList_DeepCopyInto M) (mesh_list_ok V) (mesh_list_reads V) (mesh_list_refs V)"
proof -
  let ?items = "ptr_copy CMeshes as_Meshes (\<lambda>xs. replicate (length xs) (zero_ClusterMesh M)) (list_copy (ClusterMesh_DeepCopyInto M))"
  have a: "deep_copier ?items (ptr_ok as_Meshes (\<lambda>h. list_all (mesh_ok V h))) (ptr_reads as_Meshes (\<lambda>h. map (mesh_reads V h)))
      (ptr_refs as_Meshes (list_refs (mesh_refs_of V)))"
    by (rule array_copier [OF mesh_copier]) (simp add: as_defs)
  let ?get = "\<lambda>x. (hml_Meta x, hml_Items x)"
  have "deep_copier (ClusterMeshList_DeepCopyInto M)
     (\<lambda>h x. (\<lambda>h p. lv_ok V h (fst p) \<and> ptr_ok as_Meshes (\<lambda>h. list_all (mesh_ok V h)) h (snd p)) h (?get x))
     (\<lambda>h x. (\<lambda>_ v. (fst v, nil_empty (snd v))) x
        ((\<lambda>h p. (lv_reads V h (fst p), ptr_reads as_Meshes (\<lambda>h. map (mesh_reads V h)) h (snd p))) h (?get x)))
     (\<lambda>h x. (\<lambda>h p. lv_refs V h (fst p) \<union> ptr_refs as_Meshes (list_refs (mesh_refs_of V)) h (snd p)) h (?get x))"
    by (rule struct_copier [OF pair_copier [OF list_meta a], where put = "\<lambda>p s. s\<lparr>hml_Meta := fst p, hml_Items := snd p\<rparr>"])
      (simp_all add: ClusterMeshList_DeepCopyInto_def pair_copy_def split: prod.split)
  then show ?thesis by (simp add: mesh_list_ok_def [abs_def] mesh_list_reads_def [abs_def] mesh_list_refs_def [abs_def])
qed

lemma peer_ptr_copier:
  "deep_copier (Peer_DeepCopy M) (ptr_ok as_Peer (peer_ok (mv_ok V))) (ptr_reads as_Peer (peer_reads (mv_reads V)))
     (ptr_refs as_Peer (peer_refs (mv_refs V)))"
  unfolding Peer_DeepCopy_def by (rule pointer_copier [OF peer_copier]) (simp add: as_defs)

end

end
