(* ===== verification/CopyProps.thy ===== *)
theory CopyProps
  imports CopyFacts
begin

text \<open>
  The loop of \<^verbatim>\<open>enrichEndpointsFromDiscovered\<close> on the store of objects, and the properties of the deep copies.
\<close>

section \<open>The loop over the desired Peers\<close>

text \<open>
  One turn of the loop, on a pointer to a Peer. \<^verbatim>\<open>parseDiscoveredEndpoint\<close> returns a pointer to a new endpoint, which is written into a
  deep copy of the Peer. A pointer that is not one to a Peer does not occur; it is left alone.
\<close>

definition enrich_ptr ::
  "('o, 'l, 'd) meta_lib \<Rightarrow> str_map \<Rightarrow> nat \<Rightarrow> ('o, 'l, 'd) obj_heap \<Rightarrow> nat \<times> ('o, 'l, 'd) obj_heap" where
  "enrich_ptr M discoveredByKey p h =
     (case deref as_Peer h (Some p) of
        None \<Rightarrow> (p, h)
      | Some peerObj \<Rightarrow>
          (case map_of discoveredByKey (hs_PublicKey (hp_Spec peerObj)) of
             None \<Rightarrow> (p, h)
           | Some discoveredEndpoint \<Rightarrow>
               (let endpoint = deref as_Endpoint h (hs_Endpoint (hp_Spec peerObj));
                    configured = (case endpoint of None \<Rightarrow> '''' | Some e \<Rightarrow> ep_IP (ep_DNSOrIP e))
                in if configured = '''' \<or>
                     (case endpoint of
                        None \<Rightarrow> True
                      | Some e \<Rightarrow> discoveredEndpoint \<noteq> configured @ '':'' @ Itoa (uint (ep_Port e)))
                   then (case parseDiscoveredEndpoint discoveredEndpoint of
                           Inl parseErr \<Rightarrow> (p, h)
                         | Inr parsed \<Rightarrow>
                             (case alloc (CEndpoint parsed) h of (parsedEndpoint, h) \<Rightarrow>
                               (case Peer_DeepCopy M (Some p) h of
                                  (None, h) \<Rightarrow> (p, h)
                                | (Some updated, h) \<Rightarrow>
                                    (case deref as_Peer h (Some updated) of
                                       None \<Rightarrow> (p, h)
                                     | Some obj \<Rightarrow>
                                         (updated, store updated
                                           (CPeer (obj\<lparr>hp_Spec := (hp_Spec obj)\<lparr>hs_Endpoint := Some parsedEndpoint\<rparr>\<rparr>)) h)))))
                   else (p, h))))"

fun enrich_ptrs ::
  "('o, 'l, 'd) meta_lib \<Rightarrow> str_map \<Rightarrow> nat list \<Rightarrow> ('o, 'l, 'd) obj_heap \<Rightarrow> nat list \<times> ('o, 'l, 'd) obj_heap" where
  "enrich_ptrs M discoveredByKey [] h = ([], h)"
| "enrich_ptrs M discoveredByKey (p # ps) h =
     (case enrich_ptr M discoveredByKey p h of (q, h) \<Rightarrow>
       (case enrich_ptrs M discoveredByKey ps h of (qs, h) \<Rightarrow> (q # qs, h)))"

section \<open>Facts\<close>

text \<open>A Peer object by its pointer.\<close>

definition peer_at_ok :: "('o, 'l, 'd) meta_view \<Rightarrow> ('o, 'l, 'd) obj_heap \<Rightarrow> nat \<Rightarrow> bool" where
  "peer_at_ok V h p \<longleftrightarrow> ptr_ok as_Peer (peer_ok (mv_ok V)) h (Some p)"

definition peer_at :: "('o, 'l, 'd) meta_view \<Rightarrow> ('o, 'l, 'd) obj_heap \<Rightarrow> nat \<Rightarrow> Peer option" where
  "peer_at V h p = ptr_reads as_Peer (peer_reads (mv_reads V)) h (Some p)"

context api_copies
begin

lemma peer_at_kept: "peer_at_ok V h p \<Longrightarrow> extends h h' \<Longrightarrow> peer_at_ok V h' p \<and> peer_at V h' p = peer_at V h p"
  using deep_copier.kept [OF peer_ptr_copier] unfolding peer_at_ok_def peer_at_def by blast

text \<open>Writing a new endpoint into a fresh copy.\<close>

lemma set_endpoint:
  assumes "deref as_Peer h (Some q) = Some obj" "peer_ok (mv_ok V) h obj" "q \<notin> peer_refs (mv_refs V) h obj"
    and "q < h_next h" "e < h_next h" "h_mem h e = Some (CEndpoint parsed)" "e \<noteq> q"
  defines "h' \<equiv> store q (CPeer (obj\<lparr>hp_Spec := (hp_Spec obj)\<lparr>hs_Endpoint := Some e\<rparr>\<rparr>)) h"
  shows "peer_at_ok V h' q" "peer_at V h' q = Some ((peer_reads (mv_reads V) h obj)\<lparr>peer_Spec :=
     (peer_Spec (peer_reads (mv_reads V) h obj))\<lparr>Endpoint := Some parsed\<rparr>\<rparr>)"
proof -
  have m: "mv_ok V h' (hp_Meta obj) \<and> mv_reads V h' (hp_Meta obj) = mv_reads V h (hp_Meta obj)"
    using deep_copier.stored [OF object_meta, of h "hp_Meta obj" q] assms(2,3) by (simp add: peer_ok_def peer_refs_def h'_def)
  have s: "ptr_ok as_Strings plain_ok h' (hs_AllowedIPs (hp_Spec obj)) \<and>
      ptr_reads as_Strings plain_reads h' (hs_AllowedIPs (hp_Spec obj)) = ptr_reads as_Strings plain_reads h (hs_AllowedIPs (hp_Spec obj))"
    using deep_copier.stored [OF strings_copier, of h "hs_AllowedIPs (hp_Spec obj)" q] assms(2,3)
    by (simp add: peer_ok_def peer_refs_def spec_ok_def spec_refs_def h'_def)
  have n: "h_next h' = h_next h" by (simp add: h'_def store_def)
  have d: "deref as_Peer h' (Some q) = Some (obj\<lparr>hp_Spec := (hp_Spec obj)\<lparr>hs_Endpoint := Some e\<rparr>\<rparr>)"
    by (simp add: h'_def deref_def store_def as_Peer_def)
  have e: "deref as_Endpoint h' (Some e) = Some parsed" using assms(6,7) by (simp add: h'_def deref_def store_def as_Endpoint_def)
  show "peer_at_ok V h' q" using m s n d e assms(4,5) by (simp add: peer_at_ok_def ptr_ok_def peer_ok_def spec_ok_def)
  show "peer_at V h' q = Some ((peer_reads (mv_reads V) h obj)\<lparr>peer_Spec :=
     (peer_Spec (peer_reads (mv_reads V) h obj))\<lparr>Endpoint := Some parsed\<rparr>\<rparr>)"
    using m s d e by (simp add: peer_at_def ptr_reads_def peer_reads_def peer_of_def spec_reads_def)
qed

lemma peer_boxed:
  "boxed_copier (Peer_DeepCopyInto M) (peer_ok (mv_ok V)) (peer_reads (mv_reads V)) (peer_refs (mv_refs V)) CPeer as_Peer"
  by (intro boxed_copier.intro boxed_copier_axioms.intro peer_copier) (simp add: as_defs)

text \<open>A fresh copy with a new endpoint: the steps of the loop that write.\<close>

lemma copy_with_endpoint:
  assumes "peer_at_ok V h p" "peer_at V h p = Some x"
    and "alloc (CEndpoint parsed) h = (e, h1)" "Peer_DeepCopy M (Some p) h1 = (q, h2)"
  obtains b obj where "q = Some b" "deref as_Peer h2 (Some b) = Some obj"
    "extends h (store b (CPeer (obj\<lparr>hp_Spec := (hp_Spec obj)\<lparr>hs_Endpoint := Some e\<rparr>\<rparr>)) h2)"
    "peer_at_ok V (store b (CPeer (obj\<lparr>hp_Spec := (hp_Spec obj)\<lparr>hs_Endpoint := Some e\<rparr>\<rparr>)) h2) b"
    "peer_at V (store b (CPeer (obj\<lparr>hp_Spec := (hp_Spec obj)\<lparr>hs_Endpoint := Some e\<rparr>\<rparr>)) h2) b =
       Some (x\<lparr>peer_Spec := (peer_Spec x)\<lparr>Endpoint := Some parsed\<rparr>\<rparr>)"
proof -
  have e: "e = h_next h" "h_next h1 = Suc e" "h_mem h1 e = Some (CEndpoint parsed)" using assms(3) by (auto simp: alloc_def)
  have x1: "extends h h1" by (rule extends_alloc [OF assms(3)])
  note k = peer_at_kept [OF assms(1) x1]
  note c = deep_copier.copied [OF peer_ptr_copier _ assms(4)]
  have ok1: "ptr_ok as_Peer (peer_ok (mv_ok V)) h1 (Some p)" using k by (simp add: peer_at_ok_def)
  obtain b obj where b: "q = Some b" "h_next h1 \<le> b" "deref as_Peer h2 q = Some obj" "peer_ok (mv_ok V) h2 obj"
    "b \<notin> peer_refs (mv_refs V) h2 obj"
    using boxed_copier.ptr_copied_fresh [OF peer_boxed ok1 assms(4) [unfolded Peer_DeepCopy_def]] by blast
  have x2: "extends h1 h2" and rd: "ptr_reads as_Peer (peer_reads (mv_reads V)) h2 q = peer_at V h1 p"
    and ok2: "ptr_ok as_Peer (peer_ok (mv_ok V)) h2 q" using c [OF ok1] by (simp_all add: peer_at_def)
  have obj: "peer_reads (mv_reads V) h2 obj = x" using rd k b(3) assms(2) by (simp add: ptr_reads_def)
  have lt: "b < h_next h2" using ok2 by (simp add: b(1) ptr_ok_def split: option.splits)
  have m: "e < h_next h2" "h_mem h2 e = Some (CEndpoint parsed)" "e \<noteq> b" using x2 e b(2) by (simp_all add: extends_def)
  note s = set_endpoint [OF b(3) [unfolded b(1)] b(4,5) lt m]
  have "extends h (store b (CPeer (obj\<lparr>hp_Spec := (hp_Spec obj)\<lparr>hs_Endpoint := Some e\<rparr>\<rparr>)) h2)"
    by (rule extends_store [OF extends_trans [OF x1 x2]]) (use e b(2) in simp)
  with that [OF b(1) b(3) [unfolded b(1)]] s obj show thesis by simp
qed

lemma enrich_ptr_refines:
  assumes "peer_at_ok V h p" "enrich_ptr M d p h = (q, h')"
  shows "extends h h' \<and> peer_at_ok V h' q \<and> peer_at V h' q = map_option (enrich_peer d) (peer_at V h p)"
proof -
  obtain obj where obj: "deref as_Peer h (Some p) = Some obj"
    using assms(1) by (auto simp: peer_at_ok_def ptr_ok_def split: option.splits)
  let ?x = "peer_reads (mv_reads V) h obj" and ?ep = "deref as_Endpoint h (hs_Endpoint (hp_Spec obj))"
  have x: "peer_at V h p = Some ?x" by (simp add: peer_at_def ptr_reads_def obj)
  have key: "PublicKey (peer_Spec ?x) = hs_PublicKey (hp_Spec obj)" "Endpoint (peer_Spec ?x) = ?ep"
    by (simp_all add: peer_reads_def peer_of_def spec_reads_def ptr_reads_def option.map_ident)
  let ?conf = "case ?ep of None \<Rightarrow> '''' | Some e \<Rightarrow> ep_IP (ep_DNSOrIP e)"
  let ?override = "\<lambda>v. ?conf = '''' \<or> (case ?ep of None \<Rightarrow> True | Some e \<Rightarrow> v \<noteq> ?conf @ '':'' @ Itoa (uint (ep_Port e)))"
  show ?thesis
  proof (cases "\<exists>v parsed. map_of d (hs_PublicKey (hp_Spec obj)) = Some v \<and> ?override v \<and> parseDiscoveredEndpoint v = Inr parsed")
    case True
    then obtain v parsed where v: "map_of d (hs_PublicKey (hp_Spec obj)) = Some v" "?override v" "parseDiscoveredEndpoint v = Inr parsed"
      by blast
    obtain e h1 where a: "alloc (CEndpoint parsed) h = (e, h1)" by fastforce
    obtain r h2 where c: "Peer_DeepCopy M (Some p) h1 = (r, h2)" by fastforce
    from copy_with_endpoint [OF assms(1) x a c] obtain b obj' where b: "r = Some b" "deref as_Peer h2 (Some b) = Some obj'"
      and new: "extends h (store b (CPeer (obj'\<lparr>hp_Spec := (hp_Spec obj')\<lparr>hs_Endpoint := Some e\<rparr>\<rparr>)) h2)"
      "peer_at_ok V (store b (CPeer (obj'\<lparr>hp_Spec := (hp_Spec obj')\<lparr>hs_Endpoint := Some e\<rparr>\<rparr>)) h2) b"
      "peer_at V (store b (CPeer (obj'\<lparr>hp_Spec := (hp_Spec obj')\<lparr>hs_Endpoint := Some e\<rparr>\<rparr>)) h2) b =
         Some (?x\<lparr>peer_Spec := (peer_Spec ?x)\<lparr>Endpoint := Some parsed\<rparr>\<rparr>)" by metis
    have "q = b" "h' = store b (CPeer (obj'\<lparr>hp_Spec := (hp_Spec obj')\<lparr>hs_Endpoint := Some e\<rparr>\<rparr>)) h2"
      using assms(2) v a c b by (auto simp: enrich_ptr_def obj Let_def)
    moreover have "enrich_peer d ?x = ?x\<lparr>peer_Spec := (peer_Spec ?x)\<lparr>Endpoint := Some parsed\<rparr>\<rparr>"
      using v by (simp add: enrich_peer_def key Let_def)
    ultimately show ?thesis using new x by simp
  next
    case False
    then have "q = p \<and> h' = h" using assms(2) by (auto simp: enrich_ptr_def obj Let_def split: option.splits if_splits sum.splits)
    moreover have "enrich_peer d ?x = ?x" using False by (auto simp: enrich_peer_def key Let_def split: option.splits if_splits sum.splits)
    ultimately show ?thesis using assms(1) x by simp
  qed
qed

lemma enrich_ptrs_values:
  "list_all (peer_at_ok V h) ps \<Longrightarrow> enrich_ptrs M d ps h = (qs, h') \<Longrightarrow>
     extends h h' \<and> list_all (peer_at_ok V h') qs \<and> map (peer_at V h') qs = map (map_option (enrich_peer d)) (map (peer_at V h) ps)"
proof (induction ps arbitrary: h qs h')
  case (Cons p ps)
  obtain q h1 where q: "enrich_ptr M d p h = (q, h1)" by fastforce
  obtain rs h2 where rs: "enrich_ptrs M d ps h1 = (rs, h2)" by fastforce
  have r: "qs = q # rs" "h' = h2" using Cons.prems(2) by (simp_all add: q rs)
  have ok: "peer_at_ok V h p" "list_all (peer_at_ok V h) ps" using Cons.prems(1) by simp_all
  note 1 = enrich_ptr_refines [OF ok(1) q]
  then have x1: "extends h h1" by blast
  have ok1: "list_all (peer_at_ok V h1) ps" and same: "map (peer_at V h1) ps = map (peer_at V h) ps"
    using ok(2) peer_at_kept [OF _ x1] by (auto simp: list_all_iff)
  note 2 = Cons.IH [OF ok1 rs]
  then have "extends h1 h2" by blast
  with 1 2 same peer_at_kept [of h1 q h2] extends_trans [OF x1] show ?case unfolding r by simp
qed simp

end

section \<open>Metadata in memory\<close>

text \<open>An object's name and a pointer to its labels; lists have no metadata, and conditions are values.\<close>

type_synonym mem_heap = "(string \<times> nat option, unit, Condition) obj_heap"

definition mem_meta_lib :: "(string \<times> nat option, unit, Condition) meta_lib" where
  "mem_meta_lib = \<lparr>ObjectMeta_zero = ('''', None), ListMeta_zero = (), Condition_zero = \<lparr>cond_Type = '''', cond_Status = '''',
       cond_Reason = '''', cond_Message = Newf '''' [], cond_ObservedGeneration = 0\<rparr>,
     ObjectMeta_DeepCopyInto = pair_copy value_copy (ptr_copy CMap as_Map (\<lambda>_. []) value_copy),
     ListMeta_DeepCopyInto = value_copy, Condition_DeepCopyInto = value_copy\<rparr>"

definition mem_meta_view :: "(string \<times> nat option, unit, Condition) meta_view" where
  "mem_meta_view = \<lparr>mv_ok = (\<lambda>h m. ptr_ok as_Map plain_ok h (snd m)),
     mv_reads = (\<lambda>h m. \<lparr>om_Name = fst m, om_Namespace = '''', om_Labels = nil_empty (ptr_reads as_Map plain_reads h (snd m)),
       om_ResourceVersion = '''', om_Generation = 1, om_Deleting = False, om_Finalizers = []\<rparr>),
     mv_refs = (\<lambda>h m. ptr_refs as_Map plain_refs h (snd m)),
     lv_ok = plain_ok, lv_reads = (\<lambda>_ _. ''''), lv_refs = plain_refs, cv_ok = plain_ok, cv_reads = plain_reads, cv_refs = plain_refs\<rparr>"

interpretation mem_api: api_copies mem_meta_lib mem_meta_view
proof (rule api_copies.intro)
  have m: "deep_copier (ptr_copy CMap as_Map (\<lambda>_. []) value_copy) (ptr_ok as_Map plain_ok) (ptr_reads as_Map plain_reads) (ptr_refs as_Map plain_refs)"
    by (rule pointer_copier [OF plain.deep_copier_axioms]) (simp add: as_defs)
  have "deep_copier (pair_copy value_copy (ptr_copy CMap as_Map (\<lambda>_. []) value_copy))
     (\<lambda>h m. (\<lambda>h m. True \<and> ptr_ok as_Map plain_ok h (snd m)) h m)
     (\<lambda>h m. (\<lambda>_ v. \<lparr>om_Name = fst v, om_Namespace = '''', om_Labels = nil_empty (snd v),
       om_ResourceVersion = '''', om_Generation = 1, om_Deleting = False, om_Finalizers = []\<rparr>) m
       ((\<lambda>h m. (fst m, ptr_reads as_Map plain_reads h (snd m))) h m))
     (\<lambda>h m. (\<lambda>h m. {} \<union> ptr_refs as_Map plain_refs h (snd m)) h m)"
    by (rule struct_copier [OF pair_copier [OF plain.deep_copier_axioms m], where get = "\<lambda>m. m" and put = "\<lambda>m _. m"]) (simp_all split: prod.split)
  then show "deep_copier (ObjectMeta_DeepCopyInto mem_meta_lib) (mv_ok mem_meta_view) (mv_reads mem_meta_view) (mv_refs mem_meta_view)"
    by (simp add: mem_meta_lib_def mem_meta_view_def)
  show "deep_copier (ListMeta_DeepCopyInto mem_meta_lib) (lv_ok mem_meta_view) (lv_reads mem_meta_view) (lv_refs mem_meta_view)"
    by unfold_locales (auto simp: mem_meta_lib_def mem_meta_view_def value_copy_def)
  show "deep_copier (Condition_DeepCopyInto mem_meta_lib) (cv_ok mem_meta_view) (cv_reads mem_meta_view) (cv_refs mem_meta_view)"
    using plain.deep_copier_axioms by (simp add: mem_meta_lib_def mem_meta_view_def)
qed

section \<open>Properties\<close>

text \<open>
  C40. The generated deep copies are deep. For Peers, PeerLists, ClusterMeshes and ClusterMeshLists, \<^verbatim>\<open>DeepCopy\<close> of a well-typed object returns an
  object that reads the same, leaves every existing object as it is and reaches only newly allocated objects (the contract
  \<open>deep_copier\<close>), given the same of the copies of apimachinery's metadata. So no write through the copy is seen through the original, or the other way round.
\<close>

theorem generated_copies_deep:
  assumes "api_copies M V"
  shows "deep_copier (Peer_DeepCopy M) (ptr_ok as_Peer (peer_ok (mv_ok V))) (ptr_reads as_Peer (peer_reads (mv_reads V)))
       (ptr_refs as_Peer (peer_refs (mv_refs V))) \<and>
     deep_copier (PeerList_DeepCopy M) (ptr_ok as_PeerList (peer_list_ok V)) (ptr_reads as_PeerList (peer_list_reads V))
       (ptr_refs as_PeerList (peer_list_refs V)) \<and>
     deep_copier (ClusterMesh_DeepCopy M) (ptr_ok as_Mesh (mesh_ok V)) (ptr_reads as_Mesh (mesh_reads V))
       (ptr_refs as_Mesh (mesh_refs_of V)) \<and>
     deep_copier (ClusterMeshList_DeepCopy M) (ptr_ok as_MeshList (mesh_list_ok V)) (ptr_reads as_MeshList (mesh_list_reads V))
       (ptr_refs as_MeshList (mesh_list_refs V))"
proof (intro conjI)
  show "deep_copier (PeerList_DeepCopy M) (ptr_ok as_PeerList (peer_list_ok V)) (ptr_reads as_PeerList (peer_list_reads V))
       (ptr_refs as_PeerList (peer_list_refs V))"
    unfolding PeerList_DeepCopy_def by (rule pointer_copier [OF api_copies.peer_list_copier [OF assms]]) (simp add: as_defs)
  show "deep_copier (ClusterMesh_DeepCopy M) (ptr_ok as_Mesh (mesh_ok V)) (ptr_reads as_Mesh (mesh_reads V))
       (ptr_refs as_Mesh (mesh_refs_of V))"
    unfolding ClusterMesh_DeepCopy_def by (rule pointer_copier [OF api_copies.mesh_copier [OF assms]]) (simp add: as_defs)
  show "deep_copier (ClusterMeshList_DeepCopy M) (ptr_ok as_MeshList (mesh_list_ok V)) (ptr_reads as_MeshList (mesh_list_reads V))
       (ptr_refs as_MeshList (mesh_list_refs V))"
    unfolding ClusterMeshList_DeepCopy_def by (rule pointer_copier [OF api_copies.mesh_list_copier [OF assms]]) (simp add: as_defs)
qed (rule api_copies.peer_ptr_copier [OF assms])

text \<open>A heap with one Peer, its labels and its addresses.\<close>

definition copy_heap :: mem_heap where
  "copy_heap = \<lparr>h_next = 3, h_mem = [
     0 \<mapsto> CPeer \<lparr>hp_Meta = (''p'', Some 1), hp_Spec = \<lparr>hs_AllowedIPs = Some 2, hs_Endpoint = None, hs_PersistentKeepalive = 25,
       hs_PresharedKey = '''', hs_PublicKey = ''key''\<rparr>\<rparr>,
     1 \<mapsto> CMap [(''l'', ''v'')], 2 \<mapsto> CStrings [''10.4.0.0/24'']]\<rparr>"

lemma copy_heap_ok: "peer_at_ok mem_meta_view copy_heap 0"
  by (simp add: peer_at_ok_def ptr_ok_def deref_def copy_heap_def as_defs peer_ok_def mem_meta_view_def spec_ok_def)

theorem generated_copies_deep_witness:
  "\<exists>q h'. Peer_DeepCopy mem_meta_lib (Some 0) copy_heap = (q, h') \<and> h_mem h' 0 = h_mem copy_heap 0 \<and>
     ptr_reads as_Peer (peer_reads (mv_reads mem_meta_view)) h' q =
       ptr_reads as_Peer (peer_reads (mv_reads mem_meta_view)) copy_heap (Some 0) \<and>
     ptr_refs as_Peer (peer_refs (mv_refs mem_meta_view)) h' q \<subseteq> {3 ..< h_next h'}"
proof -
  obtain q h' where c: "Peer_DeepCopy mem_meta_lib (Some 0) copy_heap = (q, h')" by fastforce
  note d = conjunct1 [OF generated_copies_deep [OF mem_api.api_copies_axioms]]
  have ok: "ptr_ok as_Peer (peer_ok (mv_ok mem_meta_view)) copy_heap (Some 0)" using copy_heap_ok by (simp add: peer_at_ok_def)
  from deep_copier.copied [OF d ok c] c show ?thesis by (auto simp: extends_def copy_heap_def)
qed

text \<open>
  C39. The loop of \<^verbatim>\<open>enrichEndpointsFromDiscovered\<close>, which writes observed endpoints into objects on the heap, is the function on
  values \<open>enrich_peer\<close> of the controller's model: the returned pointers read as the enriched Peers, and the desired Peers, which are pushed to the other
  targets afterwards, still read as before. An endpoint observed by one target never reaches another through a shared object.
\<close>

theorem enrich_ptrs_refines:
  assumes "api_copies M V" and "list_all (peer_at_ok V h) ps" and "enrich_ptrs M discoveredByKey ps h = (qs, h')"
  shows "map (peer_at V h') qs = map (map_option (enrich_peer discoveredByKey)) (map (peer_at V h) ps) \<and>
     map (peer_at V h') ps = map (peer_at V h) ps"
proof -
  note e = api_copies.enrich_ptrs_values [OF assms]
  then have x: "extends h h'" by blast
  have "map (peer_at V h') ps = map (peer_at V h) ps"
    using assms(2) api_copies.peer_at_kept [OF assms(1) _ x] by (auto simp: list_all_iff)
  with e show ?thesis by blast
qed

theorem enrich_ptrs_refines_witness:
  "\<exists>qs h'. enrich_ptrs mem_meta_lib [(''key'', ''192.0.2.1:51820'')] [0] copy_heap = (qs, h') \<and>
     map (peer_at mem_meta_view h') qs = map (map_option (enrich_peer [(''key'', ''192.0.2.1:51820'')])) (map (peer_at mem_meta_view copy_heap) [0]) \<and>
     map (peer_at mem_meta_view h') [0] = map (peer_at mem_meta_view copy_heap) [0]"
proof -
  obtain qs h' where e: "enrich_ptrs mem_meta_lib [(''key'', ''192.0.2.1:51820'')] [0] copy_heap = (qs, h')" by fastforce
  have ok: "list_all (peer_at_ok mem_meta_view copy_heap) [0]" by (simp add: copy_heap_ok)
  from enrich_ptrs_refines [OF mem_api.api_copies_axioms ok e] e show ?thesis by blast
qed

end
