(* ===== verification/Spec2Isabelle.thy ===== *)
theory Spec2Isabelle
  imports MeshReconcile ControllerProps OperatorProps CopyProps
begin

text \<open>
  \<^bold>\<open>The kilo-clustermesh-operator\<close>

  The operator runs in one cluster and joins the nodes of several Kubernetes clusters into one WireGuard mesh. A ClusterMesh resource
  lists the clusters of a mesh, with the networks each may advertise. For every source cluster the operator turns each valid node into
  a Kilo Peer (a public key, an endpoint and the addresses routed to it) and keeps these Peers in every other cluster of the
  mesh, deletes the Peers of nodes, clusters and meshes that are gone, and reports a status. This development models all of its
  Go code, less what is listed under \<^emph>\<open>Not modelled\<close>.

  \<^bold>\<open>Parts and theories\<close> (paths under \<^verbatim>\<open>src/\<close>)

  \<^item> The Go standard library, as far as it is used: Prelude (errors as values, shared lemmas and named collections), GoStrings
    (\<^verbatim>\<open>strings\<close>, \<^verbatim>\<open>strconv\<close>), GoNet and GoNetFacts (\<^verbatim>\<open>net\<close>: addresses, masks, CIDR parsing and
    printing), GoHash (SHA-256 on \<open>32 word\<close>, hex), GoText (UTF-8), GoJSON (\<^verbatim>\<open>json.Unmarshal\<close>), GoMarshal (\<^verbatim>\<open>json.Marshal\<close> and the
    round trip with the former), GoHeap (objects, pointers and the contract of a deep copy).
  \<^item> \<^verbatim>\<open>internal/netutil\<close>: Netutil. Containment and overlap of networks, related to sets of addresses.
  \<^item> \<^verbatim>\<open>api/v1alpha1\<close> and \<^verbatim>\<open>pkg/kilo/v1alpha1\<close>: MeshTypes for the values, DeepCopy, CopyFacts and CopyProps for the generated deep copies on
    a store of objects. The other theories treat Peers and meshes as values; \<open>enrich_ptrs_refines\<close> justifies this for the one loop that
    writes into objects that are shared between targets.
  \<^item> \<^verbatim>\<open>internal/kilonode\<close>: Kilonode (endpoint of a node) and Discovered (endpoints observed by Kilo, a JSON annotation).
  \<^item> \<^verbatim>\<open>internal/validation\<close>: NodeValidation and MeshValidation.
  \<^item> \<^verbatim>\<open>internal/peer\<close>: PeerNaming, PeerBuilder, PeerClient (the interface of the Kubernetes client) and PeerReconciler.
  \<^item> \<^verbatim>\<open>internal/controller\<close>: MeshPlan (filtering nodes and building Peers), Controller (every handler with its client calls in program
    order), and the proofs in ControllerFacts, MeshHealth, Ledger, MeshSpec, MeshSafety, MemWorld, TwoClusters, MeshReconcile and ControllerProps.
  \<^item> \<^verbatim>\<open>internal/multicluster\<close> and \<^verbatim>\<open>internal/restart/trigger.go\<close>: RestMapper (a mapper that goroutines reset and use concurrently) and
    Registry. \<^verbatim>\<open>internal/restart/watcher.go\<close>: Watcher. \<^verbatim>\<open>internal/crd\<close>: CrdInstall.
  \<^item> \<^verbatim>\<open>cmd/main.go\<close>: Flags (the command line), Startup (merging the cluster entries), Operator and OperatorProps (from \<^verbatim>\<open>main\<close> to the
    running manager).

  \<^bold>\<open>How the code is modelled\<close>

  Structs are records and enumerations datatypes. An error is a value of the datatype \<open>error\<close>, which keeps the wrapping and the format
  with its arguments, so that every error branch of the source is a branch of the model. Code that talks to an API server takes
  the state of the world as an argument and returns the new one; the world is a type variable, and the client a record of functions, so
  nothing is assumed of it in a definition. Where Go leaves an order open (ranging over a map, \<^verbatim>\<open>sort.Slice\<close> on equal keys, which case of
  a \<^verbatim>\<open>select\<close>) the order is part of that record. Ports and addresses are words of their width. Loops are structural recursions; the
  JSON decoder has fuel, of which twice the length of the document is always enough (\<open>jfuel\<close>), and Go's limit on the nesting. The loop of \<^verbatim>\<open>waitForCRD\<close>
  would run forever without its timeout and is a \<open>partial_function\<close>; that it returns is proved from the timeout and the behaviour of tickers and
  expired contexts, whichever ready case a \<^verbatim>\<open>select\<close> takes. A context is its deadline. Goroutines that share
  a REST mapper are interleaved by the inductive relation \<open>mapper_step\<close>, whose steps are the sections between lock operations.

  \<^bold>\<open>The specification\<close>

  What a reconcile of a mesh is meant to achieve is stated without any client call. The \<^emph>\<open>ledger\<close> of a cluster maps a mesh and a source cluster
  to the Peers kept there for them. MeshSpec says what the ledger of every registered cluster is meant to be: the plan computed from the nodes of the source
  for every other cluster of the mesh, nothing for clusters that left the mesh or meshes that are gone, the rest as it was.
  \<open>Reconcile_refines\<close> shows that the code implements it in a healthy world, \<open>Reconcile_nil_synced\<close> that a nil result can be
  trusted whatever the API servers answer (endpoints included: those the target observed, or the configured ones if its Nodes could not be
  listed), \<open>Reconcile_spares_others\<close> that Peers of others are never touched, whatever happens.
  One level below, \<open>ReconcilePeers\<close> has the same three properties for one source and one target.

  \<^bold>\<open>Interfaces\<close>

  Each interface is a locale, interpreted on a concrete instance in memory, so its laws are consistent and the properties apply:
  \<open>peer_api\<close> and \<open>reliable_api\<close> (the effect of writes, and that valid requests of a healthy server succeed), \<open>mesh_world\<close> and \<open>healthy_world\<close> (the
  clients of all registered clusters: one client does not change what another serves, lists are fresh, no one else writes during the
  reconcile), \<open>watcher_lib\<close> with \<open>index_sort\<close> (a sort that sees its elements through the comparison only), \<open>registry_lib\<close>, \<open>mapper_memory\<close>, \<open>poll_clock\<close> (ticks and
  expired contexts) and \<open>crd_api\<close>, \<open>deep_copier\<close> with \<open>boxed_copier\<close>, and \<open>api_copies\<close>. In
  MemWorld clusters can be unreachable or lack the Peer CRD, so the error paths are exercised too.

  \<^bold>\<open>Hypotheses\<close>

  The theorems on convergence and on nil results need that the planned Peers do not get in each other's way: distinct cluster names, no name
  or public key shared by two planned Peers (\<open>separate\<close>), and no Peer stored under a planned name or key but the one of that very name and
  pair (\<open>plan_ok\<close>). The code does not check the last two; what then happens
  is stated by separate theorems (for instance \<open>ReconcilePeers_renamed_node_dropped\<close>). Theorems about the fingerprint need that SHA-256 does
  not collide on the two documents compared, and ASCII names, which Kubernetes guarantees.

  \<^bold>\<open>What the groups of theorems show\<close>

  \<^item> Peers in a cluster: convergence, exactness of a nil result, isolation, idempotence, merging of colliding keys.
  \<^item> The controller: refinement of the specification, safety, deletion, inertness of absent or invalid meshes, errors and recovery.
  \<^item> Planning: a validated node always builds, what a Peer contains, coverage of the declared networks, names, keepalive.
  \<^item> Networks and validation: exact characterisations over sets of addresses, soundness of node validation.
  \<^item> Running the operator: one broken cluster entry does not block the others, the registry stays in step with the meshes, the watcher restarts exactly
    on a change, the CRD is installed and the wait ends, lookups during a reset are atomic, flags are read back, copies are deep.
  \<^item> Defects, as general theorems with concrete witnesses: a renamed node loses its Peer for a turn, deletion drops the finalizer although Peers
    remain and covers the clusters of the current specification only, the fingerprint depends on the order of a list and misses the key of a
    Secret, and a mesh created during the start-up is not picked up. As lemmas on concrete inputs: Peer names that collide or are no DNS-1123
    subdomain (\<open>Name_not_unique\<close>, \<open>sanitized_label_invalid\<close>), and an unreadable annotation that shadows a valid node (\<open>raw_address_shadows\<close>).

  \<^bold>\<open>Not modelled\<close>

  Log output; the registration of the API types with a scheme (\<^verbatim>\<open>groupversion_info.go\<close>, \<^verbatim>\<open>register.go\<close>), which is a sequence of library calls; signal handling
  and the manager itself, whose queue decides when handlers run; the YAML text of the CRD; contexts other than the deadline of \<^verbatim>\<open>waitForCRD\<close>; the panicking
  methods of the test-only \<^verbatim>\<open>directCluster\<close>; offsets and spare capacity of slices (every slice is the whole of its array in the copied code).

  \<^bold>\<open>Next\<close>

  Runs of the operator over time: sequences of reconciles of several meshes and of changes of the clusters between them, and that the ledgers settle when
  the changes stop; the retry after an error as a sequence of such steps, with the mapper reset in between.
\<close>

section \<open>Facts\<close>

lemma plan_names_distinct:
  assumes "distinct (map node_Name nodes)" "valid_name m" "valid_name (entry_Name entry)"
    and "\<And>n. n \<in> set nodes \<Longrightarrow> valid_name (node_Name n) \<and>
      length (raw_name m (entry_Name entry) (node_Name n)) \<le> maxNameLength"
    and "buildDesiredPeers m entry nodes ka = Inr peers"
  shows "distinct (map peer_Name peers)"
proof -
  have l: "length peers = length nodes" using assms(5) by (simp add: buildDesiredPeers_Inr_iff)
  have name: "peer_Name (peers ! k) = Name m (entry_Name entry) (node_Name (nodes ! k))" if "k < length nodes" for k
    using BuildPeer_content [OF buildDesiredPeers_nth [OF assms(5) that]] by simp
  have "Name m (entry_Name entry) (node_Name (nodes ! i)) \<noteq> Name m (entry_Name entry) (node_Name (nodes ! j))"
    if "i < length nodes" "j < length nodes" "i \<noteq> j" for i j
  proof -
    have "node_Name (nodes ! i) \<noteq> node_Name (nodes ! j)"
      using assms(1) that by (metis distinct_conv_nth length_map nth_map)
    with assms(2-4) that show ?thesis by (simp add: Name_same_pair)
  qed
  with l name show ?thesis by (simp add: distinct_conv_nth)
qed

section \<open>Properties that span components\<close>

text \<open>
  One source cluster ends up peered in a target cluster: for whatever nodes the source has (with distinct
  Kubernetes names), the Peers built for the nodes that \<^verbatim>\<open>filterNodes\<close> keeps are pushed by \<^verbatim>\<open>ReconcilePeers\<close> without an
  error, and the target then holds exactly these Peers for the mesh and the source cluster. It needs a healthy API server
  of the target, names that fit, no foreign Peer under a desired name, and no public key shared with another Peer.
\<close>

theorem source_cluster_peered:
  assumes "reliable_api C view" and "distinct (map node_Name nodes)"
    and "valid_name m" and "valid_name (entry_Name entry)"
    and "\<forall>n \<in> set nodes. valid_name (node_Name n) \<and>
      length (raw_name m (entry_Name entry) (node_Name n)) \<le> maxNameLength"
    and "\<forall>n \<in> set nodes. \<forall>q. view w (Name m (entry_Name entry) (node_Name n)) = Some q \<longrightarrow> owned m (entry_Name entry) q"
    and "\<forall>n \<in> set nodes. view w (Name m (entry_Name entry) (node_Name n)) = None \<longrightarrow>
      (\<forall>k q. view w k = Some q \<longrightarrow> PublicKey (peer_Spec q) \<noteq> map_get (node_Annotations n) AnnotationPublicKey)"
  shows "\<exists>peers w'. buildDesiredPeers m entry (fst (filterNodes nodes entry)) keepalive = Inr peers \<and>
     ReconcilePeers C m (entry_Name entry) peers w = (None, w') \<and> synced m (entry_Name entry) peers (view w')"
proof -
  let ?valid = "fst (filterNodes nodes entry)"
  obtain peers where p: "buildDesiredPeers m entry ?valid keepalive = Inr peers"
    using filterNodes_builds by blast
  have sub: "set ?valid \<subseteq> set nodes" "distinct (map node_Name ?valid)"
    using assms(2) by (auto simp: filterNodes_valid distinct_map_filter)
  have d: "distinct (map peer_Name peers)"
    using plan_names_distinct [OF sub(2) assms(3,4) _ p] sub(1) assms(5) by blast
  have named: "\<exists>n \<in> set nodes. peer_Name q = Name m (entry_Name entry) (node_Name n) \<and>
      PublicKey (peer_Spec q) = map_get (node_Annotations n) AnnotationPublicKey" if q: "q \<in> set peers" for q
  proof -
    obtain k where k: "k < length ?valid" "q = peers ! k"
      using q p by (auto simp: in_set_conv_nth buildDesiredPeers_Inr_iff)
    with BuildPeer_content [OF buildDesiredPeers_nth [OF p k(1)]] sub(1) show ?thesis by (auto intro!: bexI [of _ "?valid ! k"])
  qed
  have foreign: "owned m (entry_Name entry) q'" if "q \<in> set peers" "view w (peer_Name q) = Some q'" for q q'
    using named [OF that(1)] that(2) assms(6) by force
  have nc: "no_collision m (entry_Name entry) peers (view w)"
    unfolding no_collision_def
  proof
    fix q assume q: "q \<in> set peers"
    then show "(\<exists>q'. view w (peer_Name q) = Some q' \<and> owned m (entry_Name entry) q') \<or>
        (\<forall>n q'. view w n = Some q' \<longrightarrow> PublicKey (peer_Spec q') \<noteq> PublicKey (peer_Spec q))"
      using named [OF q] foreign [OF q] assms(7) by (cases "view w (peer_Name q)") force+
  qed
  have own: "\<And>q. q \<in> set peers \<Longrightarrow> owned m (entry_Name entry) q" "\<And>q. q \<in> set peers \<Longrightarrow> peer_ResourceVersion q = ''''"
    using buildDesiredPeers_owned [OF p] by blast+
  obtain w' where r: "ReconcilePeers C m (entry_Name entry) peers w = (None, w')"
    using reliable_api.ReconcilePeers_total [OF assms(1) d _ nc] own(2) foreign by blast
  have "synced m (entry_Name entry) peers (view w')"
    using peer_api.ReconcilePeers_synced [OF reliable_api.axioms(1) [OF assms(1)] r d own(1) nc] by blast
  with p r show ?thesis by blast
qed

theorem source_cluster_peered_witness:
  "\<exists>peers w'. buildDesiredPeers ''m'' example_entry
       (fst (filterNodes [example_node, example_node2, example_node3] example_entry)) 25 = Inr peers \<and>
     ReconcilePeers mem_client ''m'' (entry_Name example_entry) peers example_store = (None, w') \<and>
     synced ''m'' (entry_Name example_entry) peers (mem_view w')"
proof (rule source_cluster_peered [OF mem.reliable_api_axioms])
  show "distinct (map node_Name [example_node, example_node2, example_node3])"
    "valid_name ''m''" "valid_name (entry_Name example_entry)"
    by (simp_all add: example_node_def example_node2_def example_node3_def example_entry_def
        valid_name_def dns_alnum_def dns_char_def dns_rune_def)
qed (auto simp: example_node_def example_node2_def example_node3_def example_entry_def example_store_def
    valid_name_def dns_alnum_def dns_char_def dns_rune_def raw_name_def maxNameLength_def
    AnnotationPublicKey_def AnnotationWireguardIP_def map_get_def Name_raw)

end
